(* ===== verification/Prelude.thy ===== *)
theory Prelude
  imports Main "HOL-Library.Word" "HOL-Library.Sublist"
begin

text \<open>
  The vocabulary every component shares: the outcome of a Go call, the sequencing of calls,
  byte strings, checked indexing, and the generic lemmas on them. A Go string is the list of
  its bytes (a HOL \<open>char\<close> has exactly 256 values), a \<open>[]byte\<close> is a list of \<open>8 word\<close>.

  A Go function with an \<open>error\<close> result has three outcomes: a value with a nil error
  (\<open>Ret\<close>), a non-nil error (\<open>Fail\<close>), or a run-time panic / process exit (\<open>Panic\<close>). The
  panics of the source (a nil dereference, an index out of range, a failed type assertion,
  \<open>log.Fatalln\<close>) are outcomes of the model, never unspecified values.
\<close>

section \<open>Collections of facts\<close>

named_theorems go_simps \<open>rewrite rules that evaluate the sequencing of Go calls\<close>
named_theorems codec_simps \<open>lengths and round trips of the byte encodings\<close>
named_theorems store_simps \<open>reads after writes on the key-value containers\<close>

section \<open>Outcomes of a call\<close>

type_synonym gostring = string
type_synonym byte = "8 word"
type_synonym bytes = "byte list"

datatype go_error =
    Err gostring
  | ErrSyntax gostring
  | ErrRange gostring
  | ErrLibrary gostring

datatype panic =
    NilDeref
  | IndexOutOfRange
  | TypeAssertion
  | ReflectPanic
  | Fatal
  | StackOverflow
  | PanicCall gostring

datatype 'a go = Ret 'a | Fail go_error | Panic panic

fun go_bind :: "'a go \<Rightarrow> ('a \<Rightarrow> 'b go) \<Rightarrow> 'b go" where
  "go_bind (Ret x) f = f x"
| "go_bind (Fail e) f = Fail e"
| "go_bind (Panic p) f = Panic p"

fun go_lift :: "('a \<Rightarrow> 'b) \<Rightarrow> 'a go \<Rightarrow> 'b go" where
  "go_lift f (Ret x) = Ret (f x)"
| "go_lift f (Fail e) = Fail e"
| "go_lift f (Panic p) = Panic p"

text \<open>A loop that appends one result per element and returns at the first error.\<close>

fun go_map :: "('a \<Rightarrow> 'b go) \<Rightarrow> 'a list \<Rightarrow> 'b list go" where
  "go_map f [] = Ret []"
| "go_map f (x # xs) =
     go_bind (f x) (\<lambda>y. go_bind (go_map f xs) (\<lambda>ys. Ret (y # ys)))"

text \<open>A loop that updates a state and returns at the first error.\<close>

fun go_fold :: "('a \<Rightarrow> 's \<Rightarrow> 's go) \<Rightarrow> 'a list \<Rightarrow> 's \<Rightarrow> 's go" where
  "go_fold f [] s = Ret s"
| "go_fold f (x # xs) s = go_bind (f x s) (go_fold f xs)"

definition go_nth :: "'a list \<Rightarrow> nat \<Rightarrow> 'a go" where
  "go_nth xs i = (if i < length xs then Ret (xs ! i) else Panic IndexOutOfRange)"

definition deref :: "'a option \<Rightarrow> 'a go" where
  "deref p = (case p of None \<Rightarrow> Panic NilDeref | Some x \<Rightarrow> Ret x)"

fun is_ret :: "'a go \<Rightarrow> bool" where
  "is_ret (Ret x) = True"
| "is_ret (Fail e) = False"
| "is_ret (Panic p) = False"

lemma go_bind_Ret_iff [go_simps]:
  "go_bind m f = Ret y \<longleftrightarrow> (\<exists>x. m = Ret x \<and> f x = Ret y)"
  by (cases m) auto

lemma go_bind_assoc: "go_bind (go_bind m f) g = go_bind m (\<lambda>x. go_bind (f x) g)"
  by (cases m) auto

lemma go_bind_Ret_right [simp]: "go_bind m Ret = m"
  by (cases m) auto

lemma go_lift_Ret_iff [go_simps]: "go_lift f m = Ret y \<longleftrightarrow> (\<exists>x. m = Ret x \<and> y = f x)"
  by (cases m) auto

lemma is_ret_iff: "is_ret m \<longleftrightarrow> (\<exists>x. m = Ret x)"
  by (cases m) auto

lemma go_map_Ret_iff:
  "go_map f xs = Ret ys \<longleftrightarrow> list_all2 (\<lambda>x y. f x = Ret y) xs ys"
proof (induction xs arbitrary: ys)
  case Nil
  then show ?case by auto
next
  case (Cons x xs)
  then show ?case by (cases ys) (auto simp: go_simps)
qed

lemma go_map_length: "go_map f xs = Ret ys \<Longrightarrow> length ys = length xs"
  by (auto simp: go_map_Ret_iff dest: list_all2_lengthD)

lemma go_map_nth: "go_map f xs = Ret ys \<Longrightarrow> i < length xs \<Longrightarrow> f (xs ! i) = Ret (ys ! i)"
  by (auto simp: go_map_Ret_iff list_all2_conv_all_nth)

lemma go_map_all_Ret: "(\<And>x. x \<in> set xs \<Longrightarrow> f x = Ret (g x)) \<Longrightarrow> go_map f xs = Ret (map g xs)"
  by (induction xs) auto

lemma go_map_cong [fundef_cong]:
  "xs = ys \<Longrightarrow> (\<And>x. x \<in> set ys \<Longrightarrow> f x = g x) \<Longrightarrow> go_map f xs = go_map g ys"
  by (induction ys arbitrary: xs) auto

text \<open>The error of a loop is the error of the first element that fails.\<close>

lemma go_map_first_error:
  assumes "go_map f xs = Ret ys" and "f z = Fail e"
  shows "go_map f (xs @ z # zs) = Fail e"
  using assms by (induction xs arbitrary: ys) (auto simp: go_simps)

lemma go_map_is_ret: "is_ret (go_map f xs) \<longleftrightarrow> list_all (\<lambda>x. is_ret (f x)) xs"
proof (induction xs)
  case Nil
  then show ?case by simp
next
  case (Cons x xs)
  then show ?case by (cases "f x"; cases "go_map f xs") auto
qed

lemma go_fold_append: "go_fold f (xs @ ys) s = go_bind (go_fold f xs s) (go_fold f ys)"
proof (induction xs arbitrary: s)
  case Nil
  then show ?case by simp
next
  case (Cons x xs)
  then have "go_fold f (xs @ ys) = (\<lambda>t. go_bind (go_fold f xs t) (go_fold f ys))" by blast
  then show ?case by (simp add: go_bind_assoc)
qed

lemma go_fold_invariant:
  assumes "go_fold f xs s = Ret t" and "I s"
    and "\<And>x s t. x \<in> set xs \<Longrightarrow> I s \<Longrightarrow> f x s = Ret t \<Longrightarrow> I t"
  shows "I t"
  using assms by (induction xs arbitrary: s) (auto simp: go_simps)

lemma go_nth_Ret_iff [go_simps]: "go_nth xs i = Ret x \<longleftrightarrow> i < length xs \<and> x = xs ! i"
  by (auto simp: go_nth_def)

lemma go_nth_0 [simp]: "go_nth (x # xs) 0 = Ret x"
  by (simp add: go_nth_def)

lemma go_nth_Suc [simp]: "go_nth (x # xs) (Suc i) = go_nth xs i"
  by (simp add: go_nth_def)

lemma go_nth_Nil [simp]: "go_nth [] i = Panic IndexOutOfRange"
  by (simp add: go_nth_def)

lemma deref_simps [simp]: "deref None = Panic NilDeref" "deref (Some x) = Ret x"
  by (simp_all add: deref_def)

section \<open>Strings and byte slices\<close>

definition bytes_of :: "gostring \<Rightarrow> bytes" where
  "bytes_of s = map (\<lambda>c. word_of_nat (of_char c)) s"

definition string_of :: "bytes \<Rightarrow> gostring" where
  "string_of bs = map (\<lambda>b. char_of (unat b)) bs"

lemma unat_byte_of_char: "unat (word_of_nat (of_char c) :: byte) = of_char c"
proof -
  have "(of_char c :: nat) < 256" using of_char_mod_256 [of c, where ?'a = nat]
    by (metis mod_less_divisor zero_less_numeral)
  then show ?thesis by (simp add: unat_of_nat)
qed

lemma string_of_bytes_of [simp]: "string_of (bytes_of s) = s"
  by (induction s) (simp_all add: string_of_def bytes_of_def unat_byte_of_char)

lemma bytes_of_string_of [simp]: "bytes_of (string_of bs) = bs"
proof -
  have "word_of_nat (of_char (char_of (unat b) :: char)) = b" for b :: byte
  proof -
    have "unat b < 256" using unsigned_less [of b, where ?'a = nat] by simp
    then show ?thesis by (simp add: of_char_of)
  qed
  then show ?thesis by (induction bs) (simp_all add: string_of_def bytes_of_def)
qed

lemma length_bytes_of [simp]: "length (bytes_of s) = length s"
  by (simp add: bytes_of_def)

lemma length_string_of [simp]: "length (string_of bs) = length bs"
  by (simp add: string_of_def)

lemma bytes_of_eq_iff [simp]: "bytes_of s = bytes_of t \<longleftrightarrow> s = t"
  by (metis string_of_bytes_of)

lemma bytes_of_Nil [simp]: "bytes_of s = [] \<longleftrightarrow> s = []"
  by (simp add: bytes_of_def)

section \<open>Lists\<close>

text \<open>The map from a key to the last element of a list that has it.\<close>

definition last_by :: "('a \<Rightarrow> 'k) \<Rightarrow> 'a list \<Rightarrow> 'k \<rightharpoonup> 'a" where
  "last_by key xs = map_of (rev (map (\<lambda>x. (key x, x)) xs))"

lemma last_by_Nil [simp]: "last_by key [] = Map.empty"
  by (simp add: last_by_def)

lemma last_by_snoc [simp]: "last_by key (xs @ [x]) = (last_by key xs)(key x \<mapsto> x)"
  by (simp add: last_by_def fun_eq_iff)

lemma dom_last_by [simp]: "dom (last_by key xs) = key ` set xs"
  by (simp add: last_by_def dom_map_of_conv_image_fst image_image)

lemma last_by_Some: "last_by key xs k = Some x \<Longrightarrow> x \<in> set xs \<and> key x = k"
  by (auto simp: last_by_def dest: map_of_SomeD)

lemma last_by_distinct:
  assumes "distinct (map key xs)" "x \<in> set xs"
  shows "last_by key xs (key x) = Some x"
proof -
  have "distinct (map fst (rev (map (\<lambda>x. (key x, x)) xs)))"
    using assms(1) by (simp add: rev_map [symmetric] comp_def)
  moreover have "(key x, x) \<in> set (rev (map (\<lambda>x. (key x, x)) xs))" using assms(2) by simp
  ultimately show ?thesis unfolding last_by_def by (rule map_of_is_SomeI)
qed

lemma list_all2_same_length: "list_all2 P xs ys \<Longrightarrow> length xs = length ys"
  by (rule list_all2_lengthD)

lemma find_Some_in: "List.find P xs = Some x \<Longrightarrow> x \<in> set xs \<and> P x"
  by (auto simp: find_Some_iff)

end
