(* ===== verification/GoLib.thy ===== *)
theory GoLib
  imports Prelude
begin

text \<open>
  The part of Go's standard library the driver's logic rests on, as the driver uses it:
  \<open>strings\<close> (prefix, suffix, search, trim, split, join), \<open>strconv\<close> (decimal integers and
  booleans, with the syntax and range errors and the clamped value a range error returns) and
  \<open>encoding/binary\<close> in big-endian order (a short buffer is an error, which the driver
  ignores and so reads as zero). Case mapping is the ASCII one.
\<close>

section \<open>strings\<close>

definition has_prefix :: "gostring \<Rightarrow> gostring \<Rightarrow> bool" where
  "has_prefix s p = prefix p s"

definition has_suffix :: "gostring \<Rightarrow> gostring \<Rightarrow> bool" where
  "has_suffix s p = suffix p s"

fun contains :: "gostring \<Rightarrow> gostring \<Rightarrow> bool" where
  "contains [] p = (p = [])"
| "contains (c # s) p = (prefix p (c # s) \<or> contains s p)"

definition trim :: "(char \<Rightarrow> bool) \<Rightarrow> gostring \<Rightarrow> gostring" where
  "trim cs s = rev (dropWhile cs (rev (dropWhile cs s)))"

definition is_space :: "char \<Rightarrow> bool" where
  "is_space c = (c = CHR '' '' \<or> (9 \<le> (of_char c :: nat) \<and> (of_char c :: nat) \<le> 13))"

definition trim_space :: "gostring \<Rightarrow> gostring" where
  "trim_space s = trim is_space s"

fun split_on :: "char \<Rightarrow> gostring \<Rightarrow> gostring list" where
  "split_on c [] = [[]]"
| "split_on c (x # xs) =
     (if x = c then [] # split_on c xs
      else (case split_on c xs of [] \<Rightarrow> [[x]] | y # ys \<Rightarrow> (x # y) # ys))"

fun join :: "gostring \<Rightarrow> gostring list \<Rightarrow> gostring" where
  "join sep [] = []"
| "join sep [s] = s"
| "join sep (s # t # ss) = s @ sep @ join sep (t # ss)"

definition remove_char :: "char \<Rightarrow> gostring \<Rightarrow> gostring" where
  "remove_char c s = filter (\<lambda>x. x \<noteq> c) s"

definition is_digit :: "char \<Rightarrow> bool" where
  "is_digit c = (48 \<le> (of_char c :: nat) \<and> (of_char c :: nat) \<le> 57)"

definition is_lower :: "char \<Rightarrow> bool" where
  "is_lower c = (97 \<le> (of_char c :: nat) \<and> (of_char c :: nat) \<le> 122)"

definition is_upper :: "char \<Rightarrow> bool" where
  "is_upper c = (65 \<le> (of_char c :: nat) \<and> (of_char c :: nat) \<le> 90)"

definition is_letter :: "char \<Rightarrow> bool" where
  "is_letter c = (is_lower c \<or> is_upper c)"

definition to_upper :: "gostring \<Rightarrow> gostring" where
  "to_upper s = map (\<lambda>c. if is_lower c then char_of (of_char c - 32 :: nat) else c) s"

definition to_lower :: "gostring \<Rightarrow> gostring" where
  "to_lower s = map (\<lambda>c. if is_upper c then char_of (of_char c + 32 :: nat) else c) s"

lemma split_on_ne [simp]: "split_on c s \<noteq> []"
  by (induction s) (auto split: list.splits)

lemma join_split_on: "join [c] (split_on c s) = s"
proof (induction s)
  case Nil
  then show ?case by simp
next
  case (Cons x xs)
  then show ?case
  proof (cases "split_on c xs")
    case Nil
    then show ?thesis by simp
  next
    case (Cons y ys)
    with Cons.IH show ?thesis by (cases ys) auto
  qed
qed

lemma split_on_no_sep: "c \<notin> set s \<Longrightarrow> split_on c s = [s]"
  by (induction s) auto

lemma split_on_append: "c \<notin> set s \<Longrightarrow> split_on c (s @ c # t) = s # split_on c t"
  by (induction s) auto

lemma split_on_join:
  "ss \<noteq> [] \<Longrightarrow> (\<And>s. s \<in> set ss \<Longrightarrow> c \<notin> set s) \<Longrightarrow> split_on c (join [c] ss) = ss"
  by (induction "[c]" ss rule: join.induct) (auto simp: split_on_no_sep split_on_append)

lemma contains_iff: "contains s p \<longleftrightarrow> (\<exists>a b. s = a @ p @ b)"
proof (induction s)
  case Nil
  then show ?case by auto
next
  case (Cons c s)
  then show ?case by (auto simp: prefix_def Cons_eq_append_conv)
qed

lemma has_suffix_append [simp]: "has_suffix (s @ p) p"
  by (simp add: has_suffix_def suffix_def)

section \<open>strconv\<close>

definition digit :: "nat \<Rightarrow> char" where
  "digit d = char_of (48 + d)"

fun nat_str :: "nat \<Rightarrow> gostring" where
  "nat_str n = (if n < 10 then [digit n] else nat_str (n div 10) @ [digit (n mod 10)])"

declare nat_str.simps [simp del]

definition itoa :: "int \<Rightarrow> gostring" where
  "itoa i = (if i < 0 then CHR ''-'' # nat_str (nat (- i)) else nat_str (nat i))"

text \<open>
  \<open>ParseUint (s, 10, bits)\<close> reads from the left and stops at the first byte that is no digit
  (syntax error, value 0) or at the first digit that exceeds the width (range error, value the
  largest of the width).
\<close>

fun parse_digits :: "nat \<Rightarrow> nat \<Rightarrow> gostring \<Rightarrow> nat \<times> go_error option" where
  "parse_digits mx n [] = (n, None)"
| "parse_digits mx n (c # s) =
     (if \<not> is_digit c then (0, Some (ErrSyntax (c # s)))
      else let n' = n * 10 + (of_char c - 48)
           in if mx < n' then (mx, Some (ErrRange (c # s))) else parse_digits mx n' s)"

definition parse_uint :: "gostring \<Rightarrow> nat \<Rightarrow> nat \<times> go_error option" where
  "parse_uint s bits =
     (if s = [] then (0, Some (ErrSyntax s)) else parse_digits (2 ^ bits - 1) 0 s)"

fun is_range_error :: "go_error option \<Rightarrow> bool" where
  "is_range_error (Some (ErrRange s)) = True"
| "is_range_error _ = False"

definition parse_int :: "gostring \<Rightarrow> nat \<Rightarrow> int \<times> go_error option" where
  "parse_int s bits =
     (if s = [] then (0, Some (ErrSyntax s))
      else let neg = (hd s = CHR ''-'');
               rest = (if hd s = CHR ''-'' \<or> hd s = CHR ''+'' then tl s else s);
               r = parse_uint rest bits;
               un = fst r; cutoff = 2 ^ (bits - 1) :: nat
           in if snd r \<noteq> None \<and> \<not> is_range_error (snd r) then (0, snd r)
              else if \<not> neg \<and> cutoff \<le> un then (int cutoff - 1, Some (ErrRange s))
              else if neg \<and> cutoff < un then (- int cutoff, Some (ErrRange s))
              else (if neg then - int un else int un, None))"

definition parse_bool :: "gostring \<Rightarrow> bool \<times> go_error option" where
  "parse_bool s =
     (if s \<in> {''1'', ''t'', ''T'', ''TRUE'', ''true'', ''True''} then (True, None)
      else if s \<in> {''0'', ''f'', ''F'', ''FALSE'', ''false'', ''False''} then (False, None)
      else (False, Some (ErrSyntax s)))"

fun err_val :: "'a \<times> go_error option \<Rightarrow> 'a go" where
  "err_val (x, None) = Ret x"
| "err_val (x, Some e) = Fail e"

lemma of_char_digit: "d < 10 \<Longrightarrow> of_char (digit d) = 48 + d"
  by (simp add: digit_def of_char_of)

lemma is_digit_digit [simp]: "d < 10 \<Longrightarrow> is_digit (digit d)"
  by (simp add: is_digit_def of_char_digit)

lemma nat_str_ne [simp]: "nat_str n \<noteq> []"
  by (subst nat_str.simps) simp

lemma nat_str_digits: "c \<in> set (nat_str n) \<Longrightarrow> is_digit c"
proof (induction n rule: nat_str.induct)
  case (1 n)
  then show ?case
    by (cases "n < 10") (auto simp: nat_str.simps [of n])
qed

lemma parse_digits_append:
  assumes "parse_digits mx n s = (m, None)"
  shows "parse_digits mx n (s @ t) = parse_digits mx m t"
  using assms by (induction s arbitrary: n) (auto simp: Let_def split: if_splits)

lemma parse_digits_nat_str: "n \<le> mx \<Longrightarrow> parse_digits mx 0 (nat_str n) = (n, None)"
proof (induction n rule: nat_str.induct)
  case (1 n)
  show ?case
  proof (cases "n < 10")
    case True
    then show ?thesis using 1 by (simp add: nat_str.simps [of n] of_char_digit Let_def)
  next
    case False
    with 1 have "parse_digits mx 0 (nat_str (n div 10)) = (n div 10, None)" by simp
    then have "parse_digits mx 0 (nat_str n) = parse_digits mx (n div 10) [digit (n mod 10)]"
      using False by (simp add: nat_str.simps [of n] parse_digits_append)
    also have "\<dots> = (n, None)" using 1(2) by (simp add: of_char_digit Let_def)
    finally show ?thesis .
  qed
qed

lemma parse_uint_nat_str: "n < 2 ^ bits \<Longrightarrow> parse_uint (nat_str n) bits = (n, None)"
  by (simp add: parse_uint_def parse_digits_nat_str)

lemma hd_nat_str: "is_digit (hd (nat_str n))"
  using nat_str_digits [of "hd (nat_str n)" n] by simp

lemma not_digit_sign [simp]: "\<not> is_digit (CHR ''-'')" "\<not> is_digit (CHR ''+'')"
  by (simp_all add: is_digit_def)

lemma parse_int_itoa:
  assumes "0 < bits" "- (2 ^ (bits - 1)) \<le> i" "i < 2 ^ (bits - 1)"
  shows "parse_int (itoa i) bits = (i, None)"
proof -
  have w: "(2::nat) ^ (bits - 1) < 2 ^ bits" using assms(1) by simp
  have sgn: "hd (nat_str n) \<noteq> CHR ''-''" "hd (nat_str n) \<noteq> CHR ''+''" for n
    using hd_nat_str [of n] by (metis not_digit_sign)+
  show ?thesis
  proof (cases "i < 0")
    case True
    then have b: "nat (- i) \<le> 2 ^ (bits - 1)" using assms(2) by (simp add: nat_le_iff)
    then have "parse_uint (nat_str (nat (- i))) bits = (nat (- i), None)"
      using w by (intro parse_uint_nat_str) linarith
    with True b show ?thesis by (simp add: itoa_def parse_int_def)
  next
    case False
    then have b: "nat i < 2 ^ (bits - 1)" using assms(3) by (simp add: nat_less_iff)
    then have "parse_uint (nat_str (nat i)) bits = (nat i, None)"
      using w by (intro parse_uint_nat_str) linarith
    with False b sgn show ?thesis by (simp add: itoa_def parse_int_def Let_def)
  qed
qed

section \<open>encoding/binary, big endian\<close>

fun be_put :: "nat \<Rightarrow> nat \<Rightarrow> bytes" where
  "be_put 0 v = []"
| "be_put (Suc n) v = be_put n (v div 256) @ [word_of_nat (v mod 256)]"

definition be_get :: "bytes \<Rightarrow> nat" where
  "be_get bs = foldl (\<lambda>acc b. acc * 256 + unat b) 0 bs"

definition put_uint32 :: "32 word \<Rightarrow> bytes" where
  "put_uint32 v = be_put 4 (unat v)"

definition put_uint64 :: "64 word \<Rightarrow> bytes" where
  "put_uint64 v = be_put 8 (unat v)"

text \<open>
  \<open>binary.Read\<close> into a value of \<open>n\<close> bytes: \<open>io.ReadFull\<close> fails on a short buffer and the
  value keeps its zero; further bytes are not read.
\<close>

definition read_be :: "nat \<Rightarrow> bytes \<Rightarrow> nat" where
  "read_be n bs = (if length bs < n then 0 else be_get (take n bs))"

lemma length_be_put [simp, codec_simps]: "length (be_put n v) = n"
  by (induction n arbitrary: v) auto

lemma be_get_snoc: "be_get (bs @ [b]) = be_get bs * 256 + unat b"
  by (simp add: be_get_def)

lemma unat_byte_mod: "unat (word_of_nat (v mod 256) :: byte) = v mod 256"
  by (simp add: unat_of_nat)

lemma be_get_be_put: "be_get (be_put n v) = v mod 256 ^ n"
proof (induction n arbitrary: v)
  case 0
  then show ?case by (simp add: be_get_def)
next
  case (Suc n)
  have "be_get (be_put (Suc n) v) = (v div 256) mod 256 ^ n * 256 + v mod 256"
    by (simp add: be_get_snoc Suc unat_byte_mod)
  also have "\<dots> = v mod 256 ^ Suc n"
    using mod_mult2_eq [of v 256 "256 ^ n"] by (simp add: mult.commute add.commute)
  finally show ?case .
qed

lemma be_put_inj: "be_put n v = be_put n w \<Longrightarrow> v < 256 ^ n \<Longrightarrow> w < 256 ^ n \<Longrightarrow> v = w"
  by (metis be_get_be_put mod_less)

lemma length_put_uint [simp, codec_simps]:
  "length (put_uint32 v) = 4" "length (put_uint64 w) = 8"
  by (simp_all add: put_uint32_def put_uint64_def)

lemma read_put_uint32 [simp, codec_simps]: "read_be 4 (put_uint32 v) = unat v"
proof -
  have "unat v < 256 ^ 4" using unsigned_less [of v, where ?'a = nat] by simp
  then show ?thesis by (simp add: read_be_def put_uint32_def be_get_be_put)
qed

lemma read_put_uint64 [simp, codec_simps]: "read_be 8 (put_uint64 v) = unat v"
proof -
  have "unat v < 256 ^ 8" using unsigned_less [of v, where ?'a = nat] by simp
  then show ?thesis by (simp add: read_be_def put_uint64_def be_get_be_put)
qed

lemma read_be_short [codec_simps]: "length bs < n \<Longrightarrow> read_be n bs = 0"
  by (simp add: read_be_def)

lemma put_uint32_eq_iff [simp]: "put_uint32 v = put_uint32 w \<longleftrightarrow> v = w"
  by (metis read_put_uint32 unsigned_word_eqI)

lemma put_uint64_eq_iff [simp]: "put_uint64 v = put_uint64 w \<longleftrightarrow> v = w"
  by (metis read_put_uint64 unsigned_word_eqI)

lemma be_get_less: "be_get bs < 256 ^ length bs"
proof (induction bs rule: rev_induct)
  case Nil
  then show ?case by (simp add: be_get_def)
next
  case (snoc b bs)
  have "unat b < 256" using unsigned_less [of b, where ?'a = nat] by simp
  with snoc show ?case by (simp add: be_get_snoc)
qed

lemma be_put_be_get: "be_put (length bs) (be_get bs) = bs"
proof (induction bs rule: rev_induct)
  case Nil
  then show ?case by simp
next
  case (snoc b bs)
  have "unat b < 256" using unsigned_less [of b, where ?'a = nat] by simp
  with snoc show ?case by (simp add: be_get_snoc)
qed

lemma put_read_uint32 [codec_simps]:
  "length bs = 4 \<Longrightarrow> put_uint32 (word_of_nat (read_be 4 bs)) = bs"
  using be_get_less [of bs] be_put_be_get [of bs]
  by (simp add: put_uint32_def read_be_def unat_of_nat)

lemma put_read_uint64 [codec_simps]:
  "length bs = 8 \<Longrightarrow> put_uint64 (word_of_nat (read_be 8 bs)) = bs"
  using be_get_less [of bs] be_put_be_get [of bs]
  by (simp add: put_uint64_def read_be_def unat_of_nat)

section \<open>The contract of a fixed-width codec\<close>

text \<open>
  What the clients of an encoding rely on: it has one width, decoding inverts it, and every
  buffer of that width is the encoding of what it decodes to.
\<close>

locale fixed_codec =
  fixes enc :: "'a \<Rightarrow> bytes" and dec :: "bytes \<Rightarrow> 'a" and width :: nat
  assumes enc_length: "length (enc v) = width"
    and dec_enc: "dec (enc v) = v"
    and enc_dec: "length bs = width \<Longrightarrow> enc (dec bs) = bs"
begin

lemma enc_eq_iff: "enc v = enc w \<longleftrightarrow> v = w"
  by (metis dec_enc)

lemma enc_eq_bytes: "enc v = bs \<longleftrightarrow> length bs = width \<and> v = dec bs"
  using enc_dec enc_length dec_enc by metis

lemma dec_inj: "length as = width \<Longrightarrow> length bs = width \<Longrightarrow> dec as = dec bs \<longleftrightarrow> as = bs"
  by (metis enc_dec)

end

interpretation u32: fixed_codec put_uint32 "\<lambda>bs. word_of_nat (read_be 4 bs)" 4
  by unfold_locales (simp_all add: codec_simps)

interpretation u64: fixed_codec put_uint64 "\<lambda>bs. word_of_nat (read_be 8 bs)" 8
  by unfold_locales (simp_all add: codec_simps)

end
