(* ===== verification/UltipaTime.thy ===== *)
theory UltipaTime
  imports GoLib
begin

text \<open>
  \<open>sdk/utils/time.go\<close>: the packed 64-bit date-time of the server and its conversion to and
  from a Go \<open>time.Time\<close>. A \<open>time.Time\<close> is an instant (Unix seconds and nanoseconds) with a
  location, which is the offset from UTC in force at each Unix second; its calendar fields are
  those of the proleptic Gregorian calendar at the shifted instant. What depends on the
  machine or on the parser of date layouts (\<open>time.Local\<close>, \<open>time.LoadLocation\<close>,
  \<open>time.ParseInLocation\<close>) is a field of the record \<open>time_env\<close>.
\<close>

section \<open>time.Time\<close>

type_synonym location = "int \<Rightarrow> int"

record gotime =
  gt_sec :: int
  gt_nsec :: int
  gt_loc :: location

record time_env =
  te_local :: location
  te_load_location :: "gostring \<Rightarrow> location option"
  te_parse_in_location :: "gostring \<Rightarrow> gostring \<Rightarrow> location \<Rightarrow> gotime option"

definition UTC :: location where
  "UTC = (\<lambda>_. 0)"

definition FixedZone :: "int \<Rightarrow> location" where
  "FixedZone off = (\<lambda>_. off)"

text \<open>\<open>time.Unix (sec, nsec)\<close> with nanoseconds outside one second carried into the seconds.\<close>

definition time_Unix :: "location \<Rightarrow> int \<Rightarrow> int \<Rightarrow> gotime" where
  "time_Unix loc sec nsec =
     \<lparr>gt_sec = sec + nsec div 1000000000, gt_nsec = nsec mod 1000000000, gt_loc = loc\<rparr>"

definition In_location :: "gotime \<Rightarrow> location \<Rightarrow> gotime" where
  "In_location t loc = t\<lparr>gt_loc := loc\<rparr>"

definition civil_from_days :: "int \<Rightarrow> int \<times> int \<times> int" where
  "civil_from_days days =
     (let z = days + 719468; era = z div 146097; doe = z mod 146097;
          yoe = (doe - doe div 1460 + doe div 36524 - doe div 146096) div 365;
          doy = doe - (365 * yoe + yoe div 4 - yoe div 100);
          mp = (5 * doy + 2) div 153; d = doy - (153 * mp + 2) div 5 + 1;
          m = (if mp < 10 then mp + 3 else mp - 9);
          y = yoe + era * 400 + (if m \<le> 2 then 1 else 0)
      in (y, m, d))"

definition days_from_civil :: "int \<Rightarrow> int \<Rightarrow> int \<Rightarrow> int" where
  "days_from_civil y m d =
     (let y' = (if m \<le> 2 then y - 1 else y); era = y' div 400; yoe = y' mod 400;
          doy = (153 * (if 2 < m then m - 3 else m + 9) + 2) div 5 + d - 1;
          doe = yoe * 365 + yoe div 4 - yoe div 100 + doy
      in era * 146097 + doe - 719468)"

definition wall_secs :: "gotime \<Rightarrow> int" where
  "wall_secs t = gt_sec t + gt_loc t (gt_sec t)"

definition time_Year :: "gotime \<Rightarrow> int" where
  "time_Year t = fst (civil_from_days (wall_secs t div 86400))"

definition time_Month :: "gotime \<Rightarrow> int" where
  "time_Month t = fst (snd (civil_from_days (wall_secs t div 86400)))"

definition time_Day :: "gotime \<Rightarrow> int" where
  "time_Day t = snd (snd (civil_from_days (wall_secs t div 86400)))"

definition time_Hour :: "gotime \<Rightarrow> int" where
  "time_Hour t = wall_secs t mod 86400 div 3600"

definition time_Minute :: "gotime \<Rightarrow> int" where
  "time_Minute t = wall_secs t mod 3600 div 60"

definition time_Second :: "gotime \<Rightarrow> int" where
  "time_Second t = wall_secs t mod 60"

text \<open>\<open>time.Date\<close> in UTC, for the non-negative arguments the driver passes.\<close>

definition time_Date_UTC :: "int \<Rightarrow> int \<Rightarrow> int \<Rightarrow> int \<Rightarrow> int \<Rightarrow> int \<Rightarrow> int \<Rightarrow> gotime" where
  "time_Date_UTC y m d h mi s ns =
     time_Unix UTC
       (days_from_civil (y + (m - 1) div 12) ((m - 1) mod 12 + 1) d * 86400
          + h * 3600 + mi * 60 + s) ns"

section \<open>UltipaTime\<close>

type_synonym uint64 = "64 word"

record ultipa_time =
  ut_Datetime :: uint64
  ut_Year :: uint64
  ut_Month :: uint64
  ut_Day :: uint64
  ut_Hour :: uint64
  ut_Minute :: uint64
  ut_Second :: uint64
  ut_Macrosec :: uint64
  ut_Time :: "gotime option"

definition zero_ultipa_time :: ultipa_time where
  "zero_ultipa_time = \<lparr>ut_Datetime = 0, ut_Year = 0, ut_Month = 0, ut_Day = 0, ut_Hour = 0,
     ut_Minute = 0, ut_Second = 0, ut_Macrosec = 0, ut_Time = None\<rparr>"

definition pack_datetime ::
  "uint64 \<Rightarrow> uint64 \<Rightarrow> uint64 \<Rightarrow> uint64 \<Rightarrow> uint64 \<Rightarrow> uint64 \<Rightarrow> uint64 \<Rightarrow> uint64" where
  "pack_datetime Year Month Day Hour Minute Second Macrosec =
     (let yearMonth = Year * 13 + Month;
          datetime = push_bit 46 yearMonth;
          datetime = or datetime (push_bit 41 Day);
          datetime = or datetime (push_bit 36 Hour);
          datetime = or datetime (push_bit 30 Minute);
          datetime = or datetime (push_bit 24 Second)
      in or datetime Macrosec)"

definition TimeToUint64 :: "gotime \<Rightarrow> uint64" where
  "TimeToUint64 t =
     pack_datetime (word_of_int (time_Year t)) (word_of_int (time_Month t))
       (word_of_int (time_Day t)) (word_of_int (time_Hour t)) (word_of_int (time_Minute t))
       (word_of_int (time_Second t)) (word_of_int (gt_nsec t div 1000))"

text \<open>The method \<open>TimeToUint64\<close> of \<open>UltipaTime\<close> also stores the result.\<close>

definition UT_TimeToUint64 :: "ultipa_time \<Rightarrow> gotime \<Rightarrow> ultipa_time \<times> uint64" where
  "UT_TimeToUint64 u t = (u\<lparr>ut_Datetime := TimeToUint64 t\<rparr>, TimeToUint64 t)"

definition expand_year :: "uint64 \<Rightarrow> uint64" where
  "expand_year y =
     (if 70 < y \<and> y < 100 then y + 1900 else if y < 70 then y + 2000 else y)"

definition Uint64ToTime :: "ultipa_time \<Rightarrow> uint64 \<Rightarrow> ultipa_time" where
  "Uint64ToTime t datetime =
     (let year_month = and (drop_bit 46 datetime) 0x1FFFF;
          year = expand_year (year_month div 13);
          month = year_month mod 13;
          day = and (drop_bit 41 datetime) 0x1F;
          hour = and (drop_bit 36 datetime) 0x1F;
          minute = and (drop_bit 30 datetime) 0x3F;
          second = and (drop_bit 24 datetime) 0x3F;
          macrosec = and datetime 0xFFFFFF
      in t\<lparr>ut_Year := year, ut_Datetime := datetime, ut_Month := month, ut_Day := day,
           ut_Hour := hour, ut_Minute := minute, ut_Second := second, ut_Macrosec := macrosec,
           ut_Time := Some (time_Date_UTC (uint year) (uint month) (uint day) (uint hour)
              (uint minute) (uint second) (uint (macrosec * 1000)))\<rparr>)"

definition TimeToUltipaTime :: "gotime option \<Rightarrow> location option \<Rightarrow> location \<Rightarrow> ultipa_time" where
  "TimeToUltipaTime t loc local =
     (let toConvertTime = (case t of
            None \<Rightarrow> (case loc of None \<Rightarrow> time_Unix local 0 0
                              | Some l \<Rightarrow> In_location (time_Unix local 0 0) l)
          | Some x \<Rightarrow> x);
          year = word_of_int (time_Year toConvertTime);
          month = word_of_int (time_Month toConvertTime);
          day = word_of_int (time_Day toConvertTime);
          hour = word_of_int (time_Hour toConvertTime);
          minute = word_of_int (time_Minute toConvertTime);
          second = word_of_int (time_Second toConvertTime);
          microsec = word_of_int (gt_nsec toConvertTime div 1000)
      in \<lparr>ut_Datetime = pack_datetime year month day hour minute second microsec,
          ut_Year = year, ut_Month = month, ut_Day = day, ut_Hour = hour, ut_Minute = minute,
          ut_Second = second, ut_Macrosec = microsec, ut_Time = Some toConvertTime\<rparr>)"

definition NewTimeStamp :: "location \<Rightarrow> int \<Rightarrow> ultipa_time" where
  "NewTimeStamp local datetime =
     (let unixTime = time_Unix local datetime 0
      in TimeToUltipaTime (Some unixTime) (Some (gt_loc unixTime)) local)"

definition NewDateTime :: "location \<Rightarrow> uint64 \<Rightarrow> ultipa_time" where
  "NewDateTime local datetime =
     (if datetime = 0
      then let unix = In_location (time_Unix local 0 0) UTC
           in TimeToUltipaTime (Some unix) (Some (gt_loc unix)) local
      else Uint64ToTime (zero_ultipa_time\<lparr>ut_Datetime := datetime\<rparr>) datetime)"

definition NewTime :: "location \<Rightarrow> uint64 \<Rightarrow> ultipa_time" where
  "NewTime local datetime = NewDateTime local datetime"

text \<open>\<open>GetTimeStamp\<close> truncates the Unix seconds to 32 bits; the time is dereferenced.\<close>

definition GetTimeStamp :: "ultipa_time \<Rightarrow> 32 word go" where
  "GetTimeStamp u =
     (case ut_Time u of None \<Rightarrow> Panic NilDeref | Some t \<Rightarrow> Ret (word_of_int (gt_sec t)))"

section \<open>From strings\<close>

definition ParseTimeStampStr :: "time_env \<Rightarrow> gostring \<Rightarrow> location option \<Rightarrow> ultipa_time go" where
  "ParseTimeStampStr env v loc =
     (if v = [] then Fail (Err ''unable to convert empty string to UltipaTime'')
      else go_bind (err_val (parse_int v 64)) (\<lambda>timestamp.
        let sec = sgn timestamp * (\<bar>timestamp\<bar> div 1000);
            nsec = sgn timestamp * (\<bar>timestamp\<bar> mod 1000) * 1000000;
            timeValue = time_Unix (te_local env) sec nsec;
            timeValue = (case loc of None \<Rightarrow> timeValue | Some l \<Rightarrow> In_location timeValue l)
        in Ret (TimeToUltipaTime (Some timeValue) (Some (gt_loc timeValue)) (te_local env))))"

definition layouts_unpadded :: "gostring list" where
  "layouts_unpadded =
    [''2006-1-2T15:04:05.000Z0700'', ''2006-1-2T15:04:05.000Z07:00'',
     ''2006-1-2T15:04:05Z0700'', ''2006-1-2T15:04:05Z07:00'', ''06-1-2T15:04:05.000Z0700'',
     ''06-1-2T15:04:05.000Z07:00'', ''06-1-2T15:04:05Z0700'', ''06-1-2T15:04:05Z07:00'',
     ''2006-1-2T15:04:05.000-0700'', ''2006-1-2T15:04:05.000-07:00'',
     ''2006-1-2T15:04:05-0700'', ''2006-1-2T15:04:05-07:00'', ''2006-1-2T15:04:05'',
     ''06-1-2T15:04:05.000Z0700'', ''06-1-2T15:04:05.000Z07:00'', ''06-1-2T15:04:05Z0700'',
     ''06-1-2T15:04:05Z07:00'', ''2006-1-2 15:04:05.000Z0700'',
     ''2006-1-2 15:04:05.000Z07:00'', ''2006-1-2 15:04:05Z0700'', ''2006-1-2 15:04:05Z07:00'',
     ''06-1-2 15:04:05.000Z0700'', ''06-1-2 15:04:05.000Z07:00'', ''06-1-2 15:04:05Z0700'',
     ''06-1-2 15:04:05Z07:00'', ''2006-1-2 15:04:05.000-0700'',
     ''2006-1-2 15:04:05.000-07:00'', ''2006-1-2 15:04:05-0700'', ''2006-1-2 15:04:05-07:00'',
     ''2006-1-2 15:04:05 -0700 MST'', ''2006-1-2 15:04:05 MST'', ''06-1-2 15:04:05.000-0700'',
     ''06-1-2 15:04:05.000-07:00'', ''06-1-2 15:04:05-0700'', ''06-1-2 15:04:05-07:00'',
     ''2006-1-2 15:04:05.000'', ''2006-1-2 15:04:05'', ''2006-1-2 15:04'', ''2006-1-2 15'',
     ''2006-1-2'', ''06-1-2 15:04:05.000'', ''06-1-2 15:04:05'', ''06-1-2 15:04'',
     ''06-1-2 15'', ''06-1-2'', ''2006/1/2T15:04:05.000Z07:00'',
     ''2006/1/2T15:04:05.000Z0700'', ''2006/1/2T15:04:05Z07:00'', ''2006/1/2T15:04:05Z0700'',
     ''06/1/2T15:04:05.000Z07:00'', ''06/1/2T15:04:05.000Z0700'', ''06/1/2T15:04:05Z07:00'',
     ''06/1/2T15:04:05Z0700'', ''2006/1/2T15:04:05.000-07:00'', ''2006/1/2T15:04:05.000-0700'',
     ''2006/1/2T15:04:05-07:00'', ''2006/1/2T15:04:05-0700'', ''06/1/2T15:04:05.000-07:00'',
     ''06/1/2T15:04:05.000-0700'', ''06/1/2T15:04:05-07:00'', ''06/1/2T15:04:05-0700'',
     ''2006/1/2 15:04:05.000Z07:00'', ''2006/1/2 15:04:05.000Z0700'',
     ''2006/1/2 15:04:05Z07:00'', ''2006/1/2 15:04:05Z0700'', ''06/1/2 15:04:05.000Z07:00'',
     ''06/1/2 15:04:05.000Z0700'', ''06/1/2 15:04:05Z07:00'', ''06/1/2 15:04:05Z0700'',
     ''2006/1/2 15:04:05.000-07:00'', ''2006/1/2 15:04:05.000-0700'',
     ''2006/1/2 15:04:05-07:00'', ''2006/1/2 15:04:05-0700'', ''06/1/2 15:04:05.000-07:00'',
     ''06/1/2 15:04:05.000-0700'', ''06/1/2 15:04:05-07:00'', ''06/1/2 15:04:05-0700'',
     ''2006/1/2 15:04:05.000'', ''2006/1/2 15:04:05'', ''2006/1/2 15:04'', ''2006/1/2 15'',
     ''2006/1/2'', ''06/1/2 15:04:05.000'', ''06/1/2 15:04:05'', ''06/1/2 15:04'',
     ''06/1/2 15'', ''06/1/2'']"

definition layouts_padded :: "gostring list" where
  "layouts_padded =
    [''2006-01-02T15:04:05.000Z07:00'',
     ''2006-01-02T15:04:05.000Z0700'', ''2006-01-02T15:04:05Z07:00'',
     ''2006-01-02T15:04:05Z0700'', ''06-01-02T15:04:05.000Z07:00'',
     ''06-01-02T15:04:05.000Z0700'', ''06-01-02T15:04:05Z07:00'', ''06-01-02T15:04:05Z0700'',
     ''2006-01-02T15:04:05.000-07:00'', ''2006-01-02T15:04:05.000-0700'',
     ''2006-01-02T15:04:05-07:00'', ''2006-01-02T15:04:05-0700'',
     ''06-01-02T15:04:05.000-07:00'', ''06-01-02T15:04:05.000-0700'',
     ''06-01-02T15:04:05-07:00'', ''06-01-02T15:04:05-0700'',
     ''2006-01-02 15:04:05.000Z07:00'', ''2006-01-02 15:04:05.000Z0700'',
     ''2006-01-02 15:04:05Z07:00'', ''2006-01-02 15:04:05Z0700'',
     ''06-01-02 15:04:05.000Z07:00'', ''06-01-02 15:04:05.000Z0700'',
     ''06-01-02 15:04:05Z07:00'', ''06-01-02 15:04:05Z0700'',
     ''2006-01-02 15:04:05.000-07:00'', ''2006-01-02 15:04:05.000-0700'',
     ''2006-01-02 15:04:05-07:00'', ''2006-01-02 15:04:05-0700'',
     ''06-01-02 15:04:05.000-07:00'', ''06-01-02 15:04:05.000-0700'',
     ''06-01-02 15:04:05-07:00'', ''06-01-02 15:04:05-0700'', ''2006-01-02 15:04:05.000'',
     ''2006010215:04:05.000Z0700'', ''2006010215:04:05.000Z07:00'', ''2006010215:04:05Z0700'',
     ''2006010215:04:05Z07:00'', ''06-01-02 15:04:05.000'', ''06010215:04:05.000Z0700'',
     ''06010215:04:05.000Z07:00'', ''06010215:04:05Z0700'', ''06010215:04:05Z07:00'',
     ''2006010215:04:05.000-0700'', ''2006010215:04:05.000-07:00'', ''2006010215:04:05-0700'',
     ''2006010215:04:05-07:00'', ''06010215:04:05.000-0700'', ''06010215:04:05.000-07:00'',
     ''06010215:04:05-0700'', ''06010215:04:05-07:00'', ''2006010215:04:05'',
     ''2006-01-02 15:04:05'', ''2006-01-02 15:04'', ''2006-01-02 15'', ''2006-01-02'',
     ''06010215:04:05'', ''06-01-02 15:04:05'', ''06-01-02 15:04'', ''06-01-02 15'',
     ''06-01-02'']"

definition layouts :: "gostring list" where
  "layouts = layouts_unpadded @ layouts_padded"

text \<open>
  One layout that matches: a two-digit year is spelled out (70 to 99 in the 1900s, below 70 in
  the 2000s) and the string is parsed again with the four-digit layout.
\<close>

definition two_digit_year :: "int \<Rightarrow> int" where
  "two_digit_year y = (if 70 \<le> y \<and> y < 100 then y + 1900 else if y < 70 then y + 2000 else y)"

definition parse_with_layout ::
  "time_env \<Rightarrow> gostring \<Rightarrow> location \<Rightarrow> gostring \<Rightarrow> gotime \<Rightarrow> gotime go" where
  "parse_with_layout env dateString loc l t =
     (if has_prefix l ''06'' then
        (if length dateString < 2 then Panic IndexOutOfRange
         else go_bind (err_val (parse_int (take 2 dateString) 64)) (\<lambda>yearValue.
           case te_parse_in_location env (''20'' @ l)
                  (itoa (two_digit_year yearValue) @ drop 2 dateString) loc of
             None \<Rightarrow> Fail (ErrLibrary ''time.ParseInLocation'')
           | Some t' \<Rightarrow> Ret t'))
      else Ret t)"

fun try_layouts ::
  "time_env \<Rightarrow> gostring \<Rightarrow> location \<Rightarrow> gostring list \<Rightarrow> ultipa_time go" where
  "try_layouts env dateString loc [] =
     Fail (Err (''parse datetime string failed : '' @ dateString))"
| "try_layouts env dateString loc (l # ls) =
     (case te_parse_in_location env l dateString loc of
        None \<Rightarrow> try_layouts env dateString loc ls
      | Some t \<Rightarrow> go_bind (parse_with_layout env dateString loc l t) (\<lambda>t'.
          let t'' = In_location t' loc
          in Ret (TimeToUltipaTime (Some t'') (Some loc) (te_local env))))"

definition NewUltipaTimeFromString ::
  "time_env \<Rightarrow> gostring \<Rightarrow> location option \<Rightarrow> ultipa_time go" where
  "NewUltipaTimeFromString env dateString location =
     (if dateString = [] then Fail (Err ''unable to convert empty string to UltipaTime'')
      else let loc = (case location of None \<Rightarrow> te_local env | Some l \<Rightarrow> l)
           in case ParseTimeStampStr env dateString (Some loc) of
                Ret u \<Rightarrow> Ret u
              | _ \<Rightarrow> try_layouts env dateString loc layouts)"

text \<open>
  \<open>RemoveTimezone\<close>: at each position the first alternative of
  \<open>Z\d{4}|Z\d{2}:\d{2}$|[-+][01]\d:\d{2}$|[-+][01]\d{3}$|\s[A-Z]{1,4}$|[-+]\d{4} [A-Z]{3}$\<close>
  that matches is cut out; then every \<open>T\<close> becomes a space.
\<close>

definition is_sign :: "char \<Rightarrow> bool" where
  "is_sign c = (c = CHR ''-'' \<or> c = CHR ''+'')"

definition is_01 :: "char \<Rightarrow> bool" where
  "is_01 c = (c = CHR ''0'' \<or> c = CHR ''1'')"

definition shape :: "(char \<Rightarrow> bool) list \<Rightarrow> gostring \<Rightarrow> bool" where
  "shape ps s = list_all2 (\<lambda>p c. p c) ps s"

definition timezone_match :: "gostring \<Rightarrow> nat option" where
  "timezone_match s =
     (if shape [(=) (CHR ''Z''), is_digit, is_digit, is_digit, is_digit] (take 5 s) then Some 5
      else if shape [(=) (CHR ''Z''), is_digit, is_digit, (=) (CHR '':''), is_digit, is_digit] s
        then Some 6
      else if shape [is_sign, is_01, is_digit, (=) (CHR '':''), is_digit, is_digit] s then Some 6
      else if shape [is_sign, is_01, is_digit, is_digit, is_digit] s then Some 5
      else if s \<noteq> [] \<and> is_space (hd s) \<and> hd s \<noteq> CHR 0x0B \<and> 1 \<le> length (tl s)
           \<and> length (tl s) \<le> 4 \<and> list_all is_upper (tl s) then Some (length s)
      else if shape [is_sign, is_digit, is_digit, is_digit, is_digit, (=) (CHR '' ''),
                     is_upper, is_upper, is_upper] s then Some 9
      else None)"

fun cut_timezone :: "nat \<Rightarrow> gostring \<Rightarrow> gostring" where
  "cut_timezone 0 [] = []"
| "cut_timezone (Suc k) [] = []"
| "cut_timezone (Suc k) (c # s) = cut_timezone k s"
| "cut_timezone 0 (c # s) =
     (case timezone_match (c # s) of
        Some n \<Rightarrow> cut_timezone (n - 1) s
      | None \<Rightarrow> c # cut_timezone 0 s)"

definition RemoveTimezone :: "gostring \<Rightarrow> gostring" where
  "RemoveTimezone dateString =
     map (\<lambda>c. if c = CHR ''T'' then CHR '' '' else c) (cut_timezone 0 dateString)"

definition NewDatetimeFromString :: "time_env \<Rightarrow> gostring \<Rightarrow> ultipa_time go" where
  "NewDatetimeFromString env dateString =
     NewUltipaTimeFromString env (RemoveTimezone dateString) (Some UTC)"

definition NewTimestampFromString ::
  "time_env \<Rightarrow> gostring \<Rightarrow> location option \<Rightarrow> ultipa_time go" where
  "NewTimestampFromString env dateString location =
     (if dateString = []
      then Fail (Err ''unable to convert empty string to UltipaTime for timestamp'')
      else NewUltipaTimeFromString env dateString location)"

definition NewTimeFromString :: "time_env \<Rightarrow> gostring \<Rightarrow> ultipa_time go" where
  "NewTimeFromString env dateString = NewTimestampFromString env dateString None"

definition NewTimeFromStringFormat :: "time_env \<Rightarrow> gostring \<Rightarrow> gostring \<Rightarrow> ultipa_time go" where
  "NewTimeFromStringFormat env dateString format =
     (case te_parse_in_location env format dateString UTC of
        None \<Rightarrow> Fail (ErrLibrary ''time.Parse'')
      | Some t \<Rightarrow> Ret (fst (UT_TimeToUint64 (zero_ultipa_time\<lparr>ut_Time := Some t\<rparr>) t)))"

section \<open>The civil calendar\<close>

text \<open>The first day of a year of the 400-year cycle, and the year a day of the cycle falls in.\<close>

definition year_start :: "int \<Rightarrow> int" where
  "year_start y = (if y = 400 then 146097 else 365 * y + y div 4 - y div 100)"

definition yoe_of :: "int \<Rightarrow> int" where
  "yoe_of doe = (doe - doe div 1460 + doe div 36524 - doe div 146096) div 365"

lemma yoe_numerator_mono_step:
  fixes n :: int
  shows "n - n div 1460 + n div 36524 - n div 146096
    \<le> (n + 1) - (n + 1) div 1460 + (n + 1) div 36524 - (n + 1) div 146096"
proof -
  have a: "(n + 1) div 1460 \<le> n div 1460 + 1"
    using zdiv_mono1 [of "n + 1" "n + 1460" 1460] by simp
  define a b where "a = n div 36524" and "b = (n + 1) div 36524"
  have q: "n div 146096 = a div 4" "(n + 1) div 146096 = b div 4"
    by (simp_all add: a_def b_def flip: zdiv_zmult2_eq)
  have ab: "a \<le> b" "b \<le> a + 1"
    using zdiv_mono1 [of n "n + 1" 36524] zdiv_mono1 [of "n + 1" "n + 36524" 36524]
    by (simp_all add: a_def b_def)
  then have "a - a div 4 \<le> b - b div 4" by presburger
  with a show ?thesis by (simp add: q flip: a_def b_def)
qed

lemma yoe_of_mono: "m \<le> n \<Longrightarrow> yoe_of m \<le> yoe_of n"
proof (induction n rule: int_ge_induct)
  case base
  then show ?case by simp
next
  case (step n)
  then show ?case using yoe_numerator_mono_step [of n]
    unfolding yoe_of_def by (meson order_trans zdiv_mono1 zero_less_numeral)
qed

lemma yoe_of_ends:
  "list_all (\<lambda>y. yoe_of (year_start y) = y \<and> yoe_of (year_start (y + 1) - 1) = y)
     (map int [0..<400])"
  by code_simp

lemma yoe_of_unique:
  assumes "0 \<le> y" "y < 400" "year_start y \<le> doe" "doe < year_start (y + 1)"
  shows "yoe_of doe = y"
proof -
  obtain k where k: "y = int k" "k < 400" using assms(1,2) by (metis nat_less_iff nonneg_int_cases of_nat_less_iff of_nat_numeral)
  then have "y \<in> set (map int [0..<400])" by auto
  then have e: "yoe_of (year_start y) = y" "yoe_of (year_start (y + 1) - 1) = y"
    using yoe_of_ends unfolding list_all_iff by blast+
  show ?thesis
    using yoe_of_mono [OF assms(3)] yoe_of_mono [of doe "year_start (y + 1) - 1"] assms(4) e
    by linarith
qed

lemma year_exists:
  assumes "0 \<le> doe" "doe < year_start (int n)" "n \<le> 400"
  shows "\<exists>y. 0 \<le> y \<and> y < int n \<and> year_start y \<le> doe \<and> doe < year_start (y + 1)"
  using assms
proof (induction n)
  case 0
  then show ?case by (simp add: year_start_def)
next
  case (Suc n)
  show ?case
  proof (cases "doe < year_start (int n)")
    case True
    with Suc obtain y where "0 \<le> y" "y < int n" "year_start y \<le> doe" "doe < year_start (y + 1)"
      by auto
    then show ?thesis by (intro exI [of _ y]) simp
  next
    case False
    with Suc.prems show ?thesis by (intro exI [of _ "int n"]) (simp add: add.commute)
  qed
qed

lemma yoe_of_bounds:
  assumes "0 \<le> doe" "doe < 146097"
  shows "0 \<le> yoe_of doe" "yoe_of doe < 400" "year_start (yoe_of doe) \<le> doe"
    "doe < year_start (yoe_of doe + 1)"
proof -
  obtain y where y: "0 \<le> y" "y < 400" "year_start y \<le> doe" "doe < year_start (y + 1)"
    using year_exists [of doe 400] assms by (auto simp: year_start_def)
  with yoe_of_unique [OF y] show "0 \<le> yoe_of doe" "yoe_of doe < 400"
    "year_start (yoe_of doe) \<le> doe" "doe < year_start (yoe_of doe + 1)" by simp_all
qed

lemma year_length:
  assumes "0 \<le> y" "y < 400"
  shows "year_start (y + 1) \<le> year_start y + 366"
proof -
  have "list_all (\<lambda>y. year_start (y + 1) \<le> year_start y + 366) (map int [0..<400])"
    by code_simp
  moreover have "y \<in> set (map int [0..<400])"
    using assms by (auto simp: image_iff intro: bexI [of _ "nat y"])
  ultimately show ?thesis unfolding list_all_iff by blast
qed

lemma month_of_day:
  fixes doy :: int
  assumes "0 \<le> doy" "doy < 366"
  defines "mp \<equiv> (5 * doy + 2) div 153"
  shows "0 \<le> mp" "mp < 12" "0 \<le> doy - (153 * mp + 2) div 5" "doy - (153 * mp + 2) div 5 < 31"
proof -
  have "list_all (\<lambda>d. let mp = (5 * d + 2) div 153 in 0 \<le> mp \<and> mp < 12
      \<and> 0 \<le> d - (153 * mp + 2) div 5 \<and> d - (153 * mp + 2) div 5 < 31) (map int [0..<366])"
    by code_simp
  moreover have "doy \<in> set (map int [0..<366])"
    using assms(1,2) by (auto simp: image_iff intro: bexI [of _ "nat doy"])
  ultimately have "let mp = (5 * doy + 2) div 153 in 0 \<le> mp \<and> mp < 12
      \<and> 0 \<le> doy - (153 * mp + 2) div 5 \<and> doy - (153 * mp + 2) div 5 < 31"
    unfolding list_all_iff by blast
  then show "0 \<le> mp" "mp < 12" "0 \<le> doy - (153 * mp + 2) div 5"
    "doy - (153 * mp + 2) div 5 < 31" by (simp_all add: mp_def Let_def)
qed

lemma civil_round:
  assumes "civil_from_days z = (y, m, d)"
  shows "days_from_civil y m d = z" "1 \<le> m" "m \<le> 12" "1 \<le> d" "d \<le> 31"
proof -
  define era doe where "era = (z + 719468) div 146097" and "doe = (z + 719468) mod 146097"
  have z: "z = era * 146097 + doe - 719468" by (simp add: era_def doe_def)
  have doe: "0 \<le> doe" "doe < 146097" by (simp_all add: doe_def)
  define yoe where "yoe = yoe_of doe"
  note yb = yoe_of_bounds [OF doe, folded yoe_def]
  have ys: "year_start yoe = 365 * yoe + yoe div 4 - yoe div 100"
    using yb(2) by (simp add: year_start_def)
  define doy where "doy = doe - year_start yoe"
  have doy: "0 \<le> doy" "doy < 366" using yb year_length [OF yb(1,2)] by (simp_all add: doy_def)
  define mp where "mp = (5 * doy + 2) div 153"
  note mb = month_of_day [OF doy, folded mp_def]
  have c: "civil_from_days z =
      (yoe + era * 400 + (if (if mp < 10 then mp + 3 else mp - 9) \<le> 2 then 1 else 0),
       if mp < 10 then mp + 3 else mp - 9, doy - (153 * mp + 2) div 5 + 1)"
    unfolding civil_from_days_def Let_def
    by (simp only: ys [symmetric] yoe_of_def [symmetric] doe_def [symmetric] era_def [symmetric]
        yoe_def [symmetric] doy_def [symmetric] mp_def [symmetric])
  have y: "(yoe + era * 400) div 400 = era" "(yoe + era * 400) mod 400 = yoe"
    using yb by simp_all
  have e: "y = yoe + era * 400 + (if m \<le> 2 then 1 else 0)" "m = (if mp < 10 then mp + 3 else mp - 9)"
      "d = doy - (153 * mp + 2) div 5 + 1"
    using assms unfolding c by auto
  show "1 \<le> m" "m \<le> 12" "1 \<le> d" "d \<le> 31" using mb by (auto simp: e(2,3))
  have mp: "(if 2 < m then m - 3 else m + 9) = mp" using mb by (auto simp: e(2))
  have "(if m \<le> 2 then y - 1 else y) = yoe + era * 400" by (simp add: e(1))
  then show "days_from_civil y m d = z"
    unfolding days_from_civil_def Let_def mp
    using yb(1,2) by (simp add: y z doy_def ys e(3))
qed

section \<open>Packing and unpacking\<close>

lemma bit_small: "take_bit k w = w \<Longrightarrow> bit w n \<Longrightarrow> n < k" for w :: uint64
  by (metis bit_take_bit_iff)

lemma mask_words:
  "(0x1F :: uint64) = mask 5" "(0x3F :: uint64) = mask 6" "(0xFFFFFF :: uint64) = mask 24"
  "(0x1FFFF :: uint64) = mask 17"
  by (simp_all add: mask_eq_exp_minus_1)

lemma pack_datetime_fields:
  assumes "take_bit 17 (y * 13 + m) = y * 13 + m" "take_bit 5 d = d" "take_bit 5 h = h"
    "take_bit 6 mi = mi" "take_bit 6 s = s" "take_bit 24 us = us"
  defines "P \<equiv> pack_datetime y m d h mi s us"
  shows "and (drop_bit 46 P) 0x1FFFF = y * 13 + m" "and (drop_bit 41 P) 0x1F = d"
    "and (drop_bit 36 P) 0x1F = h" "and (drop_bit 30 P) 0x3F = mi"
    "and (drop_bit 24 P) 0x3F = s" "and P 0xFFFFFF = us"
proof -
  define ym where "ym = y * 13 + m"
  have a: "take_bit 17 ym = ym" using assms(1) by (simp add: ym_def)
  note small = bit_small [OF a] bit_small [OF assms(2)] bit_small [OF assms(3)]
    bit_small [OF assms(4)] bit_small [OF assms(5)] bit_small [OF assms(6)]
  have P: "bit P n \<longleftrightarrow> n < 64 \<and> (46 \<le> n \<and> bit ym (n - 46) \<or> 41 \<le> n \<and> bit d (n - 41)
      \<or> 36 \<le> n \<and> bit h (n - 36) \<or> 30 \<le> n \<and> bit mi (n - 30) \<or> 24 \<le> n \<and> bit s (n - 24)
      \<or> bit us n)" for n
    unfolding P_def pack_datetime_def Let_def ym_def [symmetric]
    using small(6) by (auto simp: bit_or_iff bit_push_bit_iff dest: bit_imp_le_length)
  show "and (drop_bit 46 P) 0x1FFFF = y * 13 + m"
    unfolding ym_def [symmetric] mask_words
    by (rule bit_word_eqI) (auto simp: bit_and_iff bit_drop_bit_eq P bit_mask_iff dest: small)
  show "and (drop_bit 41 P) 0x1F = d" unfolding mask_words
    by (rule bit_word_eqI) (auto simp: bit_and_iff bit_drop_bit_eq P bit_mask_iff dest: small)
  show "and (drop_bit 36 P) 0x1F = h" unfolding mask_words
    by (rule bit_word_eqI) (auto simp: bit_and_iff bit_drop_bit_eq P bit_mask_iff dest: small)
  show "and (drop_bit 30 P) 0x3F = mi" unfolding mask_words
    by (rule bit_word_eqI) (auto simp: bit_and_iff bit_drop_bit_eq P bit_mask_iff dest: small)
  show "and (drop_bit 24 P) 0x3F = s" unfolding mask_words
    by (rule bit_word_eqI) (auto simp: bit_and_iff bit_drop_bit_eq P bit_mask_iff dest: small)
  show "and P 0xFFFFFF = us" unfolding mask_words
    by (rule bit_word_eqI) (auto simp: bit_and_iff P bit_mask_iff dest: small)
qed

lemma take_bit_word_of_int:
  assumes "0 \<le> x" "x < 2 ^ k" "k \<le> 64"
  shows "take_bit k (word_of_int x :: uint64) = word_of_int x"
proof -
  have "x < 2 ^ 64" using assms power_increasing [of k 64 "2 :: int"] by simp
  then show ?thesis using assms
    by (transfer fixing: x k) (simp add: take_bit_int_eq_self)
qed

lemma uint_word_of_int_small: "0 \<le> x \<Longrightarrow> x < 2 ^ 64 \<Longrightarrow> uint (word_of_int x :: uint64) = x"
  by (simp add: uint_word_of_int)

lemma year_month_split:
  assumes "0 \<le> y" "y \<le> 10081" "1 \<le> m" "m \<le> 12"
  defines "ym \<equiv> word_of_int y * 13 + word_of_int m :: uint64"
  shows "take_bit 17 ym = ym" "uint (ym div 13) = y" "uint (ym mod 13) = m"
    "ym div 13 = word_of_int y" "ym mod 13 = word_of_int m"
proof -
  have w: "ym = word_of_int (y * 13 + m)" by (simp add: ym_def)
  have b: "0 \<le> y * 13 + m" "y * 13 + m < 2 ^ 17" using assms by simp_all
  show "take_bit 17 ym = ym" unfolding w by (rule take_bit_word_of_int [OF b]) simp
  have u: "uint ym = y * 13 + m" unfolding w using b by (intro uint_word_of_int_small) simp_all
  have dm: "(y * 13 + m) div 13 = y" "(y * 13 + m) mod 13 = m"
    using assms(3,4) by (simp_all add: int_div_pos_eq int_mod_pos_eq)
  show d: "uint (ym div 13) = y" by (simp add: uint_div u dm)
  show m: "uint (ym mod 13) = m" using dm(2) by (simp add: uint_mod u)
  show "ym div 13 = word_of_int y" using d by (metis word_of_int_uint)
  show "ym mod 13 = word_of_int m" using m by (metis word_of_int_uint)
qed

lemma expand_year_id: "100 \<le> y \<Longrightarrow> y \<le> 10081 \<Longrightarrow> expand_year (word_of_int y) = word_of_int y"
  by (simp add: expand_year_def word_less_def uint_word_of_int_small)

definition clock_ok :: "gotime \<Rightarrow> bool" where
  "clock_ok t = (0 \<le> gt_nsec t \<and> gt_nsec t < 1000000000)"

lemma clock_ranges:
  "0 \<le> time_Hour t" "time_Hour t < 24" "0 \<le> time_Minute t" "time_Minute t < 60"
  "0 \<le> time_Second t" "time_Second t < 60"
proof -
  have "wall_secs t mod 86400 < 86400" "wall_secs t mod 3600 < 3600" by simp_all
  then show "time_Hour t < 24" "time_Minute t < 60"
    using zdiv_mono1 [of "wall_secs t mod 86400" 86399 3600]
      zdiv_mono1 [of "wall_secs t mod 3600" 3599 60]
    by (simp_all add: time_Hour_def time_Minute_def)
qed (simp_all add: time_Hour_def time_Minute_def time_Second_def pos_imp_zdiv_nonneg_iff)

lemma clock_sum:
  "wall_secs t div 86400 * 86400 + time_Hour t * 3600 + time_Minute t * 60 + time_Second t
   = wall_secs t"
proof -
  define w where "w = wall_secs t"
  have "w mod 86400 mod 3600 = w mod 3600" "w mod 3600 mod 60 = w mod 60"
    by (simp_all add: mod_mod_cancel)
  moreover have "w div 86400 * 86400 + w mod 86400 = w"
    "w mod 86400 div 3600 * 3600 + w mod 86400 mod 3600 = w mod 86400"
    "w mod 3600 div 60 * 60 + w mod 3600 mod 60 = w mod 3600" by (rule div_mult_mod_eq)+
  ultimately show ?thesis
    unfolding time_Hour_def time_Minute_def time_Second_def w_def [symmetric] by linarith
qed

lemma time_civil:
  "days_from_civil (time_Year t) (time_Month t) (time_Day t) = wall_secs t div 86400"
  "1 \<le> time_Month t" "time_Month t \<le> 12" "1 \<le> time_Day t" "time_Day t \<le> 31"
  using civil_round [of "wall_secs t div 86400" "time_Year t" "time_Month t" "time_Day t"]
  by (simp_all add: time_Year_def time_Month_def time_Day_def)

lemma time_Date_UTC_fields:
  assumes "0 \<le> ns" "ns < 1000000000"
  shows "time_Date_UTC (time_Year t) (time_Month t) (time_Day t) (time_Hour t) (time_Minute t)
      (time_Second t) ns = \<lparr>gt_sec = wall_secs t, gt_nsec = ns, gt_loc = UTC\<rparr>"
proof -
  have m: "(time_Month t - 1) div 12 = 0" "(time_Month t - 1) mod 12 = time_Month t - 1"
    using time_civil(2,3) [of t] by simp_all
  show ?thesis using assms clock_sum [of t]
    by (simp add: time_Date_UTC_def time_Unix_def m time_civil(1))
qed

text \<open>
  Property C26. A time packed into the server's 64-bit date-time and unpacked again is the same
  wall clock, read as UTC, to the microsecond, for every year from 100 to 10081 (the last the
  17 bits of year and month hold). The packed fields do not overlap and the calendar
  computation is exact on every day.
\<close>

theorem datetime_roundtrip:
  assumes "100 \<le> time_Year t" "time_Year t \<le> 10081" "clock_ok t"
  shows "ut_Time (Uint64ToTime u (TimeToUint64 t))
    = Some \<lparr>gt_sec = wall_secs t, gt_nsec = gt_nsec t div 1000 * 1000, gt_loc = UTC\<rparr>"
proof -
  define us where "us = gt_nsec t div 1000"
  have us: "0 \<le> us" "us < 1000000"
    using assms(3) zdiv_mono1 [of "gt_nsec t" 999999999 1000]
    by (simp_all add: us_def clock_ok_def pos_imp_zdiv_nonneg_iff)
  note ym = year_month_split [OF order_trans [OF _ assms(1)] assms(2) time_civil(2,3) [of t], simplified]
  note cl = clock_ranges [of t] and ci = time_civil [of t]
  have sm: "take_bit 5 (word_of_int (time_Day t) :: uint64) = word_of_int (time_Day t)"
    "take_bit 5 (word_of_int (time_Hour t) :: uint64) = word_of_int (time_Hour t)"
    "take_bit 6 (word_of_int (time_Minute t) :: uint64) = word_of_int (time_Minute t)"
    "take_bit 6 (word_of_int (time_Second t) :: uint64) = word_of_int (time_Second t)"
    "take_bit 24 (word_of_int us :: uint64) = word_of_int us"
    using cl ci us by (auto intro!: take_bit_word_of_int)
  note f = pack_datetime_fields [OF ym(1) sm, folded us_def]
  have u: "uint (word_of_int (time_Day t) :: uint64) = time_Day t"
    "uint (word_of_int (time_Hour t) :: uint64) = time_Hour t"
    "uint (word_of_int (time_Minute t) :: uint64) = time_Minute t"
    "uint (word_of_int (time_Second t) :: uint64) = time_Second t"
    "uint (word_of_int (time_Year t) :: uint64) = time_Year t"
    "uint (word_of_int (time_Month t) :: uint64) = time_Month t"
    "uint (word_of_int us * 1000 :: uint64) = us * 1000"
    using cl ci us assms(1,2) uint_word_of_int_small [of "us * 1000"]
    by (auto simp: uint_word_of_int_small)
  have "TimeToUint64 t = pack_datetime (word_of_int (time_Year t)) (word_of_int (time_Month t))
     (word_of_int (time_Day t)) (word_of_int (time_Hour t)) (word_of_int (time_Minute t))
     (word_of_int (time_Second t)) (word_of_int us)"
    by (simp add: TimeToUint64_def us_def)
  then show ?thesis
    using time_Date_UTC_fields [of "us * 1000" t] us
    by (simp add: Uint64ToTime_def Let_def f ym expand_year_id [OF assms(1,2)] u flip: us_def)
qed

text \<open>The instant 2023-11-14T22:13:20.123456789Z.\<close>

theorem datetime_roundtrip_witness:
  "ut_Time (Uint64ToTime zero_ultipa_time (TimeToUint64 (time_Unix UTC 1700000000 123456789)))
    = Some \<lparr>gt_sec = 1700000000, gt_nsec = 123456000, gt_loc = UTC\<rparr>"
proof -
  have y: "time_Year (time_Unix UTC 1700000000 123456789) = 2023" by code_simp
  have "wall_secs (time_Unix UTC 1700000000 123456789) = 1700000000"
    by (simp add: wall_secs_def time_Unix_def UTC_def)
  then show ?thesis
    using datetime_roundtrip [of "time_Unix UTC 1700000000 123456789" zero_ultipa_time, unfolded y]
    by (simp add: clock_ok_def time_Unix_def)
qed

text \<open>
  The two places that spell out a two-digit year agree on every year but 70: the
  parser of strings reads 70 as 1970, while unpacking a date-time leaves the year 70 as it is.
\<close>

theorem two_digit_years:
  assumes "0 \<le> y" "y < 100"
  shows "(uint (expand_year (word_of_int y)) = two_digit_year y \<longleftrightarrow> y \<noteq> 70) \<and>
    uint (expand_year 70) = 70"
proof -
  have "list_all (\<lambda>y. (uint (expand_year (word_of_int y)) = two_digit_year y) = (y \<noteq> 70))
      (map int [0..<100])"
    by code_simp
  moreover have "y \<in> set (map int [0..<100])"
    using assms by (auto simp: image_iff intro: bexI [of _ "nat y"])
  ultimately have "uint (expand_year (word_of_int y)) = two_digit_year y \<longleftrightarrow> y \<noteq> 70"
    unfolding list_all_iff by blast
  moreover have "uint (expand_year 70) = 70" by (simp add: expand_year_def)
  ultimately show ?thesis by blast
qed

theorem two_digit_years_witness:
  "uint (expand_year 69) = two_digit_year 69 \<and> uint (expand_year 70) \<noteq> two_digit_year 70"
  using two_digit_years [of 69] two_digit_years [of 70] by simp

section \<open>Millisecond strings\<close>

text \<open>
  The decimal numeral of any 64-bit integer is read as milliseconds since 1970:
  the result is that exact instant, before or after 1970, with a nanosecond part in range, in
  the location asked for.
\<close>

theorem parse_timestamp_exact:
  assumes "- (2 ^ 63) \<le> ms" "ms < 2 ^ 63"
  shows "\<exists>u t. ParseTimeStampStr env (itoa ms) (Some loc) = Ret u \<and> ut_Time u = Some t \<and>
    gt_sec t * 1000 * 1000000 + gt_nsec t = ms * 1000000 \<and> 0 \<le> gt_nsec t \<and>
    gt_nsec t < 1000000000 \<and> gt_loc t = loc"
proof -
  define sec ns where "sec = sgn ms * (\<bar>ms\<bar> div 1000)" and "ns = sgn ms * (\<bar>ms\<bar> mod 1000) * 1000000"
  have m: "sgn ms * (\<bar>ms\<bar> div 1000 * 1000 + \<bar>ms\<bar> mod 1000) = ms"
    by (simp add: sgn_mult_abs)
  have "sec * 1000 * 1000000 + ns
      = sgn ms * (\<bar>ms\<bar> div 1000 * 1000 + \<bar>ms\<bar> mod 1000) * 1000000"
    unfolding sec_def ns_def by (simp only: algebra_simps)
  then have e: "sec * 1000 * 1000000 + ns = ms * 1000000" unfolding m .
  have "parse_int (itoa ms) 64 = (ms, None)" using assms by (intro parse_int_itoa) simp_all
  moreover have "itoa ms \<noteq> []" by (simp add: itoa_def)
  ultimately have "ParseTimeStampStr env (itoa ms) (Some loc)
      = Ret (TimeToUltipaTime (Some (In_location (time_Unix (te_local env) sec ns) loc)) (Some loc)
          (te_local env))"
    by (simp add: ParseTimeStampStr_def Let_def sec_def ns_def In_location_def)
  moreover have "(sec + ns div 1000000000) * 1000 * 1000000 + ns mod 1000000000 = ms * 1000000"
    using e div_mult_mod_eq [of ns 1000000000] by algebra
  ultimately show ?thesis
    by (simp add: TimeToUltipaTime_def In_location_def time_Unix_def Let_def)
qed

definition toy_time_env :: time_env where
  "toy_time_env = \<lparr>te_local = UTC, te_load_location = (\<lambda>_. None),
     te_parse_in_location = (\<lambda>_ _ _. None)\<rparr>"

theorem parse_timestamp_exact_witness:
  "\<exists>u t. ParseTimeStampStr toy_time_env (itoa (- 1)) (Some UTC) = Ret u \<and> ut_Time u = Some t \<and>
    gt_sec t * 1000 * 1000000 + gt_nsec t = - 1 * 1000000 \<and> 0 \<le> gt_nsec t \<and>
    gt_nsec t < 1000000000 \<and> gt_loc t = UTC"
  by (rule parse_timestamp_exact) simp_all

section \<open>Printing\<close>

text \<open>
  \<open>String\<close> prints with the layout \<open>2006-01-02T15:04:05.000Z07:00\<close>: padded fields, the milliseconds cut
  off, and the offset of the zone in hours and minutes, or \<open>Z\<close> for none.
\<close>

definition pad_int :: "nat \<Rightarrow> int \<Rightarrow> gostring" where
  "pad_int width i =
     (let s = nat_str (nat \<bar>i\<bar>)
      in (if i < 0 then ''-'' else []) @ replicate (width - length s) (CHR ''0'') @ s)"

definition print_zone :: "int \<Rightarrow> gostring" where
  "print_zone offset =
     (if offset = 0 then ''Z''
      else
        let zone = sgn offset * (\<bar>offset\<bar> div 60)
        in (if zone < 0 then ''-'' else ''+'') @ pad_int 2 (\<bar>zone\<bar> div 60) @ '':'' @ pad_int 2 (\<bar>zone\<bar> mod 60))"

definition UT_String :: "ultipa_time \<Rightarrow> gostring go" where
  "UT_String u =
     go_bind (deref (ut_Time u)) (\<lambda>t. Ret
       (pad_int 4 (time_Year t) @ ''-'' @ pad_int 2 (time_Month t) @ ''-'' @ pad_int 2 (time_Day t)
        @ ''T'' @ pad_int 2 (time_Hour t) @ '':'' @ pad_int 2 (time_Minute t) @ '':''
        @ pad_int 2 (time_Second t) @ ''.'' @ pad_int 3 (gt_nsec t div 1000000)
        @ print_zone (gt_loc t (gt_sec t))))"

lemma sample_time_string:
  "UT_String (zero_ultipa_time\<lparr>ut_Time := Some (time_Unix (FixedZone (- 12600)) 1700000000 45678912)\<rparr>)
    = Ret ''2023-11-14T18:43:20.045-03:30''"
  by code_simp

end
