(* ===== verification/GoValue.thy ===== *)
theory GoValue
  imports UltipaTime
begin

text \<open>
  The dynamic values of Go's \<open>interface{}\<close> the driver passes around (the cases its type
  switches name), the geographic point of \<open>sdk/types/point.go\<close>, and what the driver takes
  from outside: floating-point text conversion and the protobuf encoding of list, set and map
  values, fields of the record \<open>env\<close>. Floats are their IEEE bit patterns.
\<close>

section \<open>Values\<close>

type_synonym float64 = "64 word"
type_synonym float32 = "32 word"

record point =
  pt_Latitude :: float64
  pt_Longitude :: float64

datatype gval =
    GNil
  | GInt32 "32 word"
  | GInt "64 word"
  | GInt64 "64 word"
  | GUint8 "8 word"
  | GUint32 "32 word"
  | GUint64 "64 word"
  | GFloat32 float32
  | GFloat64 float64
  | GString gostring
  | GBytes bytes
  | GBool bool
  | GTime ultipa_time
  | GTimePtr "ultipa_time option"
  | GPoint point
  | GPointPtr "point option"
  | GSlice "gval list"
  | GMap "(gval \<times> gval) list"

text \<open>\<open>reflect.ValueOf (v)\<close> walked with \<open>Len\<close> and \<open>Index\<close>.\<close>

fun reflect_elems :: "gval \<Rightarrow> gval list go" where
  "reflect_elems (GSlice vs) = Ret vs"
| "reflect_elems (GBytes bs) = Ret (map GUint8 bs)"
| "reflect_elems (GString s) = Ret (map GUint8 (bytes_of s))"
| "reflect_elems (GMap kvs) = (if kvs = [] then Ret [] else Panic ReflectPanic)"
| "reflect_elems _ = Panic ReflectPanic"

record pb_list =
  pl_IsNull :: bool
  pl_Values :: "bytes list"

record pb_map =
  pm_IsNull :: bool
  pm_Values :: "(bytes \<times> bytes) list"

record env = time_env +
  fe_parse_float :: "gostring \<Rightarrow> nat \<Rightarrow> float64 \<times> go_error option"
  fe_format_float :: "float64 \<Rightarrow> nat \<Rightarrow> gostring"
  fe_sprintf_f :: "float64 \<Rightarrow> gostring"
  fe_widen :: "float32 \<Rightarrow> float64"
  fe_narrow :: "float64 \<Rightarrow> float32"
  pb_marshal_list :: "pb_list \<Rightarrow> bytes go"
  pb_unmarshal_list :: "bytes \<Rightarrow> pb_list go"
  pb_marshal_set :: "pb_list \<Rightarrow> bytes go"
  pb_unmarshal_set :: "bytes \<Rightarrow> pb_list go"
  pb_marshal_map :: "pb_map \<Rightarrow> bytes go"

text \<open>\<open>math.IsNaN\<close> on the bit pattern: exponent all ones, fraction not zero.\<close>

definition IsNaN :: "float64 \<Rightarrow> bool" where
  "IsNaN f = (and (drop_bit 52 f) 0x7FF = 0x7FF \<and> and f 0xFFFFFFFFFFFFF \<noteq> 0)"

section \<open>Points\<close>

definition NewPoint :: "float64 \<Rightarrow> float64 \<Rightarrow> point" where
  "NewPoint Latitude Longitude = \<lparr>pt_Latitude = Latitude, pt_Longitude = Longitude\<rparr>"

definition format_point :: "'a env_scheme \<Rightarrow> float64 \<Rightarrow> float64 \<Rightarrow> gostring" where
  "format_point env lat lon =
     ''POINT('' @ fe_sprintf_f env lat @ '' '' @ fe_sprintf_f env lon @ '')''"

definition Point_String :: "'a env_scheme \<Rightarrow> point \<Rightarrow> gostring" where
  "Point_String env p = format_point env (pt_Latitude p) (pt_Longitude p)"

text \<open>
  The number \<open>-?\d+(?:\.\d+)?\<close> at the head of a string, with the rest of the string. Every
  choice in the pattern is settled by the next byte, so the greedy reading is the only one.
\<close>

definition match_number :: "gostring \<Rightarrow> (gostring \<times> gostring) option" where
  "match_number s =
     (let sgn = (if s \<noteq> [] \<and> hd s = CHR ''-'' then ''-'' else []);
          r = drop (length sgn) s; ds = takeWhile is_digit r; r2 = dropWhile is_digit r;
          fr = takeWhile is_digit (tl r2); r3 = dropWhile is_digit (tl r2)
      in if ds = [] then None
         else if r2 \<noteq> [] \<and> hd r2 = CHR ''.'' \<and> fr \<noteq> []
         then Some (sgn @ ds @ ''.'' @ fr, r3)
         else Some (sgn @ ds, r2))"

definition regex_space :: "char \<Rightarrow> bool" where
  "regex_space c = (c \<in> {CHR '' '', CHR 0x09, CHR 0x0A, CHR 0x0C, CHR 0x0D})"

definition match_point_at :: "gostring \<Rightarrow> (gostring \<times> gostring) option" where
  "match_point_at s =
     (if to_lower (take 6 s) = ''point('' then
        (case match_number (drop 6 s) of
           None \<Rightarrow> None
         | Some (lat, r) \<Rightarrow>
             (if r \<noteq> [] \<and> regex_space (hd r) then
                (case match_number (dropWhile regex_space r) of
                   None \<Rightarrow> None
                 | Some (lon, r') \<Rightarrow> if has_prefix r' '')'' then Some (lat, lon) else None)
              else None))
      else None)"

fun match_point :: "gostring \<Rightarrow> (gostring \<times> gostring) option" where
  "match_point [] = None"
| "match_point (c # s) =
     (case match_point_at (c # s) of Some m \<Rightarrow> Some m | None \<Rightarrow> match_point s)"

definition PointFromStr :: "'a env_scheme \<Rightarrow> gostring \<Rightarrow> point go" where
  "PointFromStr env pointStr =
     (case match_point (trim_space pointStr) of
        None \<Rightarrow> Fail (Err (pointStr @ '' is not a valid point pattern string''))
      | Some (latitudeStr, longitudeStr) \<Rightarrow>
          go_bind (err_val (fe_parse_float env latitudeStr 64)) (\<lambda>latitude.
          go_bind (err_val (fe_parse_float env longitudeStr 64)) (\<lambda>longitude.
            Ret (NewPoint latitude longitude))))"

section \<open>Reading back a printed point\<close>

text \<open>A decimal numeral as \<open>%f\<close> prints a finite number.\<close>

definition plain_number :: "gostring \<Rightarrow> bool" where
  "plain_number s =
     (\<exists>sg ds fr. s = sg @ ds @ ''.'' @ fr \<and> sg \<in> {[], ''-''} \<and> ds \<noteq> [] \<and> fr \<noteq> []
        \<and> list_all is_digit ds \<and> list_all is_digit fr)"

lemma takeWhile_digits:
  assumes "list_all P a" "\<not> P d"
  shows "takeWhile P (a @ d # r) = a" "dropWhile P (a @ d # r) = d # r"
  using assms by (induction a) auto

lemma match_number_plain:
  assumes "plain_number s" "\<not> is_digit d"
  shows "match_number (s @ d # r) = Some (s, d # r)"
proof -
  obtain sg ds fr where s: "s = sg @ ds @ ''.'' @ fr" "sg \<in> {[], ''-''}" "ds \<noteq> []" "fr \<noteq> []"
    "list_all is_digit ds" "list_all is_digit fr"
    using assms(1) unfolding plain_number_def by blast
  have dot: "\<not> is_digit (CHR ''.'')" by (simp add: is_digit_def)
  have hd: "hd ds \<noteq> CHR ''-''" using s(3,5) by (cases ds) auto
  note tw = takeWhile_digits [OF s(5) dot, of "fr @ d # r"]
    takeWhile_digits [OF s(6) assms(2), of r]
  show ?thesis using s(2-4) hd by (auto simp: s(1) match_number_def Let_def tw dot assms(2))
qed

lemma plain_number_head:
  assumes "plain_number s"
  shows "s \<noteq> []" "\<not> regex_space (hd s)"
proof -
  obtain sg ds fr where s: "s = sg @ ds @ ''.'' @ fr" "sg \<in> {[], ''-''}" "ds \<noteq> []"
    "list_all is_digit ds"
    using assms unfolding plain_number_def by blast
  show "s \<noteq> []" using s by simp
  have "is_digit (hd ds)" using s(3,4) by (cases ds) auto
  then show "\<not> regex_space (hd s)"
    using s(1-3) by (auto simp: regex_space_def is_digit_def)
qed

lemma trim_plain:
  assumes "s \<noteq> []" "\<not> P (hd s)" "\<not> P (last s)"
  shows "trim P s = s"
proof -
  have "dropWhile P s = s" using assms by (cases s) auto
  moreover have "dropWhile P (rev s) = rev s" using assms(1,3) by (cases s rule: rev_cases) auto
  ultimately show ?thesis by (simp add: trim_def)
qed

lemma point_keyword: "to_lower ''POINT('' = ''point(''"
  by code_simp

lemma match_point_format:
  assumes "plain_number (fe_sprintf_f env lat)" "plain_number (fe_sprintf_f env lon)"
  shows "match_point (trim_space (format_point env lat lon))
         = Some (fe_sprintf_f env lat, fe_sprintf_f env lon)"
proof -
  let ?a = "fe_sprintf_f env lat" and ?b = "fe_sprintf_f env lon"
  have t: "trim_space (format_point env lat lon) = format_point env lat lon"
    unfolding trim_space_def by (rule trim_plain) (simp_all add: format_point_def is_space_def)
  have nd: "\<not> is_digit (CHR '' '')" "\<not> is_digit (CHR '')'')" by (simp_all add: is_digit_def)
  have f: "format_point env lat lon = ''POINT('' @ ?a @ CHR '' '' # ?b @ '')''"
    by (simp add: format_point_def)
  have b: "dropWhile regex_space (?b @ '')'') = ?b @ '')''"
    using plain_number_head [OF assms(2)] by (cases ?b) auto
  have "match_point_at (format_point env lat lon) = Some (?a, ?b)"
    using match_number_plain [OF assms(1) nd(1), of "?b @ '')''"]
      match_number_plain [OF assms(2) nd(2), of "[]"] b
    by (simp add: f match_point_at_def point_keyword regex_space_def has_prefix_def)
  then show ?thesis unfolding t by (simp add: f)
qed

lemma PointFromStr_format:
  assumes "plain_number (fe_sprintf_f env lat)" "plain_number (fe_sprintf_f env lon)"
    and "fe_parse_float env (fe_sprintf_f env lat) 64 = (lat', None)"
    and "fe_parse_float env (fe_sprintf_f env lon) 64 = (lon', None)"
  shows "PointFromStr env (format_point env lat lon) = Ret (NewPoint lat' lon')"
  using match_point_format [OF assms(1,2)] assms(3,4) by (simp add: PointFromStr_def)

section \<open>A concrete environment\<close>

text \<open>A concrete encoding of list messages: a flag byte, then each value after its length.\<close>

definition toy_put :: "pb_list \<Rightarrow> bytes go" where
  "toy_put m = Ret ((if pl_IsNull m then 1 else 0)
     # concat (map (\<lambda>v. replicate (length v) 1 @ 0 # v) (pl_Values m)))"

fun toy_values :: "nat \<Rightarrow> bytes \<Rightarrow> bytes list" where
  "toy_values 0 bs = []"
| "toy_values (Suc k) bs =
     (if bs = [] then []
      else let n = length (takeWhile (\<lambda>b. b \<noteq> 0) bs); r = drop (Suc n) bs
           in take n r # toy_values k (drop n r))"

definition toy_get :: "bytes \<Rightarrow> pb_list go" where
  "toy_get bs = Ret \<lparr>pl_IsNull = (hd bs = 1), pl_Values = toy_values (length bs) (tl bs)\<rparr>"

definition toy_env :: env where
  "toy_env = \<lparr>te_local = te_local toy_time_env, te_load_location = te_load_location toy_time_env,
     te_parse_in_location = te_parse_in_location toy_time_env, fe_parse_float = (\<lambda>_ _. (0, None)), fe_format_float = (\<lambda>_ _. ''0''),
     fe_sprintf_f = (\<lambda>_. ''0.000000''), fe_widen = ucast, fe_narrow = ucast,
     pb_marshal_list = toy_put, pb_unmarshal_list = toy_get, pb_marshal_set = toy_put,
     pb_unmarshal_set = toy_get, pb_marshal_map = (\<lambda>_. Ret [])\<rparr>"

end
