(* ===== verification/Config.thy ===== *)
theory Config
  imports GoLib
begin

text \<open>
  \<open>sdk/configuration\<close>: the connection configuration with its defaults, the request
  configuration that overrides it, the metadata headers a request carries, and the password
  encryptors. \<open>crypto/md5\<close>, the zone of the machine and the copier package are arguments.
\<close>

section \<open>The two configurations\<close>

type_synonym int32 = "32 word"
type_synonym int64 = "64 word"

record ultipa_config =
  uc_Hosts :: "gostring list"
  uc_Username :: gostring
  uc_Password :: gostring
  uc_PasswordEncrypt :: gostring
  uc_DefaultGraph :: gostring
  uc_Crt :: "bytes option"
  uc_MaxRecvSize :: int64
  uc_Timeout :: int32
  uc_HeartBeat :: int64

datatype insert_type = INSERT_NORMAL | INSERT_OVERWRITE | INSERT_UPSERT

record request_config =
  rc_Graph :: gostring
  rc_Timeout :: int32
  rc_Host :: gostring
  rc_Timezone :: gostring
  rc_TimezoneOffset :: int64
  rc_Thread :: "32 word"

record insert_request_config =
  irc_RequestConfig :: "request_config option"
  irc_InsertType :: insert_type
  irc_Silent :: bool

definition empty_request_config :: request_config where
  "empty_request_config = \<lparr>rc_Graph = [], rc_Timeout = 0, rc_Host = [], rc_Timezone = [],
     rc_TimezoneOffset = 0, rc_Thread = 0\<rparr>"

definition empty_config :: ultipa_config where
  "empty_config = \<lparr>uc_Hosts = [], uc_Username = [], uc_Password = [], uc_PasswordEncrypt = [],
     uc_DefaultGraph = [], uc_Crt = None, uc_MaxRecvSize = 0, uc_Timeout = 0,
     uc_HeartBeat = 0\<rparr>"

definition DefaultTimeout :: int32 where
  "DefaultTimeout = 2147483647"

definition DefaultRecvSize :: int64 where
  "DefaultRecvSize = 1024 * 1024 * 32"

definition FillDefault :: "ultipa_config \<Rightarrow> ultipa_config" where
  "FillDefault config =
     (let config = (if uc_MaxRecvSize config = 0
                    then config\<lparr>uc_MaxRecvSize := DefaultRecvSize\<rparr> else config);
          config = (if uc_Timeout config = 0
                    then config\<lparr>uc_Timeout := DefaultTimeout\<rparr> else config)
      in if uc_PasswordEncrypt config = []
         then config\<lparr>uc_PasswordEncrypt := ''MD5''\<rparr> else config)"

text \<open>\<open>copier_copy to from\<close> is the third-party field-by-field copy into a fresh structure.\<close>

definition MergeRequestConfig ::
  "(ultipa_config \<Rightarrow> ultipa_config \<Rightarrow> ultipa_config) \<Rightarrow> ultipa_config \<Rightarrow> request_config
   \<Rightarrow> ultipa_config" where
  "MergeRequestConfig copier_copy config rConfig =
     (let newConfig = copier_copy empty_config config
      in if 0 <s rc_Timeout rConfig
         then newConfig\<lparr>uc_Timeout := rc_Timeout rConfig\<rparr> else newConfig)"

text \<open>The headers as the flat key, value list handed to \<open>metadata.Pairs\<close>.\<close>

definition ToContextKV :: "int \<Rightarrow> ultipa_config \<Rightarrow> request_config option \<Rightarrow> gostring list" where
  "ToContextKV zone_offset config rConfig =
     (let graphName = (case rConfig of
            Some r \<Rightarrow> if rc_Graph r \<noteq> [] then rc_Graph r else uc_DefaultGraph config
          | None \<Rightarrow> uc_DefaultGraph config);
          headers = [''user'', uc_Username config, ''password'', uc_Password config,
                     ''graph_name'', graphName]
      in case rConfig of
           None \<Rightarrow> headers @ [''tz_offset'', itoa zone_offset]
         | Some r \<Rightarrow>
             if rc_TimezoneOffset r = 0 \<and> rc_Timezone r = []
             then headers @ [''tz_offset'', itoa zone_offset]
             else if rc_TimezoneOffset r \<noteq> 0
             then headers @ [''tz_offset'', itoa (sint (rc_TimezoneOffset r))]
             else if rc_Timezone r \<noteq> [] then headers @ [''tz'', rc_Timezone r]
             else headers)"

text \<open>
  A configuration from a file. Reading the file and decoding YAML into a structure, which keeps
  the fields the text does not mention, are arguments; no default is filled in.
\<close>

definition LoadConfigFromYAML ::
  "(gostring \<Rightarrow> bytes go) \<Rightarrow> (bytes \<Rightarrow> ultipa_config \<Rightarrow> ultipa_config go) \<Rightarrow> gostring \<Rightarrow> ultipa_config go" where
  "LoadConfigFromYAML read_file yaml file =
     go_bind (read_file file) (\<lambda>content. yaml content empty_config)"

section \<open>Password encryption\<close>

datatype encryptor = MD5 | LDAP | NOTHING

definition hex_digit :: "nat \<Rightarrow> char" where
  "hex_digit d = (if d < 10 then char_of (48 + d) else char_of (87 + d))"

definition hex_encode :: "bytes \<Rightarrow> gostring" where
  "hex_encode bs = concat (map (\<lambda>b. [hex_digit (unat b div 16), hex_digit (unat b mod 16)]) bs)"

definition MD5Encrypt :: "(bytes \<Rightarrow> bytes) \<Rightarrow> gostring \<Rightarrow> gostring" where
  "MD5Encrypt md5_sum password = to_upper (hex_encode (md5_sum (bytes_of password)))"

fun encryptor_Encrypt :: "(bytes \<Rightarrow> bytes) \<Rightarrow> encryptor \<Rightarrow> gostring \<Rightarrow> gostring" where
  "encryptor_Encrypt md5_sum MD5 password = MD5Encrypt md5_sum password"
| "encryptor_Encrypt md5_sum LDAP password = password"
| "encryptor_Encrypt md5_sum NOTHING password = password"

definition passwordEncryptMethodMap :: "(gostring \<times> encryptor) list" where
  "passwordEncryptMethodMap = [(''MD5'', MD5), (''LDAP'', LDAP), (''NOTHING'', NOTHING)]"

definition Encrypt :: "(bytes \<Rightarrow> bytes) \<Rightarrow> gostring \<Rightarrow> gostring \<Rightarrow> gostring go" where
  "Encrypt md5_sum encryptorName pwd =
     (case map_of passwordEncryptMethodMap (to_upper encryptorName) of
        Some e \<Rightarrow> Ret (encryptor_Encrypt md5_sum e pwd)
      | None \<Rightarrow> if encryptorName = [] then Ret (MD5Encrypt md5_sum pwd)
                else Fail (Err ''unsupported passpord encryptor''))"

section \<open>Facts\<close>

lemma FillDefault_fields:
  "uc_MaxRecvSize (FillDefault c) \<noteq> 0" "uc_Timeout (FillDefault c) \<noteq> 0"
  "uc_PasswordEncrypt (FillDefault c) \<noteq> []" "uc_Hosts (FillDefault c) = uc_Hosts c"
  "uc_Username (FillDefault c) = uc_Username c" "uc_Password (FillDefault c) = uc_Password c"
  by (simp_all add: FillDefault_def Let_def DefaultRecvSize_def DefaultTimeout_def)

lemma FillDefault_id:
  "uc_MaxRecvSize c \<noteq> 0 \<Longrightarrow> uc_Timeout c \<noteq> 0 \<Longrightarrow> uc_PasswordEncrypt c \<noteq> [] \<Longrightarrow> FillDefault c = c"
  by (simp add: FillDefault_def)

lemma FillDefault_idem: "FillDefault (FillDefault c) = FillDefault c"
  by (rule FillDefault_id) (rule FillDefault_fields)+

text \<open>Headers come in pairs, and exactly one of the two time-zone headers is sent.\<close>

lemma ToContextKV_length: "length (ToContextKV z c r) = 8"
  by (auto simp: ToContextKV_def Let_def split: option.splits)

lemma ToContextKV_tz:
  "ToContextKV z c r ! 6 = ''tz'' \<longleftrightarrow>
     (\<exists>q. r = Some q \<and> rc_TimezoneOffset q = 0 \<and> rc_Timezone q \<noteq> [])"
  by (auto simp: ToContextKV_def Let_def split: option.splits)

lemma length_hex_encode: "length (hex_encode bs) = 2 * length bs"
  by (induction bs) (auto simp: hex_encode_def)

end
