(* ===== verification/PropertyTypes.thy ===== *)
theory PropertyTypes
  imports GoLib
begin

text \<open>
  The enumerations of the wire protocol the driver switches on (\<open>rpc/ultipa.pb.go\<close>) and the
  property descriptor of \<open>sdk/structs/property.go\<close>: the two name tables, the classification
  of id and ignored properties, and the translation between a property's type and the type
  string the server uses, in both directions.
\<close>

section \<open>Protocol enumerations\<close>

text \<open>
  \<open>PropertyType\<close> is an open \<open>int32\<close> enumeration; the driver adds seven negative pseudo types
  for the system columns. \<open>PT_OTHER\<close> is any other number.
\<close>

datatype property_type =
    PT_UNSET | PT_INT32 | PT_UINT32 | PT_INT64 | PT_UINT64 | PT_FLOAT | PT_DOUBLE | PT_STRING
  | PT_DATETIME | PT_TIMESTAMP | PT_TEXT | PT_BLOB | PT_POINT | PT_DECIMAL | PT_LIST | PT_SET
  | PT_MAP | PT_NULL | PT_BOOL
  | PT_ID | PT_UUID | PT_FROM | PT_TO | PT_FROM_UUID | PT_TO_UUID | PT_IGNORE
  | PT_OTHER int

datatype result_type =
    RT_UNSET | RT_PATH | RT_NODE | RT_EDGE | RT_ATTR | RT_TABLE | RT_OTHER int

datatype db_type = DBNODE | DBEDGE | DBGLOBAL | DB_OTHER int

datatype error_code =
    SUCCESS | FAILED | PARAM_ERROR | BASE_DB_ERROR | ENGINE_ERROR | SYSTEM_ERROR | SYNTAX_ERROR
  | PERMISSION_DENIED | DUPLICATE_ID | RAFT_REDIRECT | RAFT_LEADER_NOT_YET_ELECTED
  | RAFT_LOG_ERROR | NOT_RAFT_MODE | EC_OTHER int

section \<open>Property\<close>

record decimal_extra =
  de_precision :: int
  de_scale :: int

record property =
  prop_name :: gostring
  prop_schema :: gostring
  prop_type :: property_type
  prop_subtypes :: "property_type list"
  prop_lte :: bool
  prop_read :: bool
  prop_write :: bool
  prop_description :: gostring
  prop_encrypt :: gostring
  prop_decimal :: "decimal_extra option"

definition empty_property :: property where
  "empty_property = \<lparr>prop_name = [], prop_schema = [], prop_type = PT_UNSET, prop_subtypes = [],
     prop_lte = False, prop_read = False, prop_write = False, prop_description = [],
     prop_encrypt = [], prop_decimal = None\<rparr>"

definition PropertyMap :: "(gostring \<times> property_type) list" where
  "PropertyMap =
    [(''_id'', PT_ID), (''_uuid'', PT_UUID), (''_from'', PT_FROM), (''_to'', PT_TO),
     (''_from_uuid'', PT_FROM_UUID), (''_to_uuid'', PT_TO_UUID), (''_ignore'', PT_IGNORE),
     (''string'', PT_STRING), (''int32'', PT_INT32), (''int64'', PT_INT64),
     (''uint32'', PT_UINT32), (''uint64'', PT_UINT64), (''float'', PT_FLOAT),
     (''double'', PT_DOUBLE), (''datetime'', PT_DATETIME), (''timestamp'', PT_TIMESTAMP),
     (''text'', PT_TEXT), (''blob'', PT_BLOB), (''point'', PT_POINT),
     (''decimal'', PT_DECIMAL), (''NULL_'', PT_NULL), (''bool'', PT_BOOL)]"

definition PropertyReverseMap :: "(property_type \<times> gostring) list" where
  "PropertyReverseMap =
    [(PT_ID, ''_id''), (PT_UUID, ''_uuid''), (PT_FROM, ''_from''), (PT_TO, ''_to''),
     (PT_FROM_UUID, ''_from_uuid''), (PT_TO_UUID, ''_to_uuid''), (PT_IGNORE, ''_ignore''),
     (PT_STRING, ''string''), (PT_INT32, ''int32''), (PT_INT64, ''int64''),
     (PT_UINT32, ''uint32''), (PT_UINT64, ''uint64''), (PT_FLOAT, ''float''),
     (PT_DOUBLE, ''double''), (PT_DATETIME, ''datetime''), (PT_TIMESTAMP, ''timestamp''),
     (PT_TEXT, ''text''), (PT_BLOB, ''blob''), (PT_POINT, ''point''),
     (PT_DECIMAL, ''decimal''), (PT_NULL, ''NULL_''), (PT_BOOL, ''bool'')]"

text \<open>A missing key of a Go map reads as the zero value: type 0 (UNSET), the empty string.\<close>

definition GetPropertyTypeByString :: "gostring \<Rightarrow> property_type" where
  "GetPropertyTypeByString s =
     (case map_of PropertyMap s of Some t \<Rightarrow> t | None \<Rightarrow> PT_UNSET)"

definition GetStringByPropertyType :: "property_type \<Rightarrow> gostring" where
  "GetStringByPropertyType t =
     (case map_of PropertyReverseMap t of Some s \<Rightarrow> s | None \<Rightarrow> [])"

definition id_types :: "property_type list" where
  "id_types = [PT_ID, PT_UUID, PT_FROM, PT_TO, PT_FROM_UUID, PT_TO_UUID]"

definition IsIDType :: "property \<Rightarrow> bool" where
  "IsIDType p = list_ex (\<lambda>t. prop_type p = t) id_types"

definition IsIgnore :: "property \<Rightarrow> bool" where
  "IsIgnore p = (prop_type p = PT_IGNORE)"

section \<open>Type strings\<close>

text \<open>
  \<open>set\(([^)]+)\)|set<([^>]+)>\<close>: the leftmost match; at one position the first alternative is
  tried first. The group is the longest run of bytes other than the closing one, at least one
  byte, and must be followed by it.
\<close>

definition delimited :: "gostring \<Rightarrow> char \<Rightarrow> gostring \<Rightarrow> gostring option" where
  "delimited opener close s =
     (if prefix opener s then
        (let rest = drop (length opener) s; g = takeWhile (\<lambda>c. c \<noteq> close) rest
         in if g \<noteq> [] \<and> length g < length rest then Some g else None)
      else None)"

fun match_set :: "gostring \<Rightarrow> gostring option" where
  "match_set [] = None"
| "match_set (c # s) =
     (case delimited ''set('' (CHR '')'') (c # s) of
        Some g \<Rightarrow> Some g
      | None \<Rightarrow> (case delimited ''set<'' (CHR ''>'') (c # s) of
            Some g \<Rightarrow> Some g
          | None \<Rightarrow> match_set s))"

text \<open>\<open>^decimal\((\d+),(\d+)\)$\<close>\<close>

definition match_decimal :: "gostring \<Rightarrow> (gostring \<times> gostring) option" where
  "match_decimal s =
     (if prefix ''decimal('' s then
        (let r = drop 8 s; p = takeWhile is_digit r; r2 = dropWhile is_digit r;
             q = takeWhile is_digit (tl r2); r3 = dropWhile is_digit (tl r2)
         in if p \<noteq> [] \<and> r2 \<noteq> [] \<and> hd r2 = CHR '','' \<and> q \<noteq> [] \<and> r3 = '')''
            then Some (p, q) else None)
      else None)"

text \<open>
  The error of the precision's \<open>Atoi\<close> is overwritten by the scale's, so only the scale's is
  tested; a precision out of range keeps its clamped value.
\<close>

definition SetTypeByString :: "property \<Rightarrow> gostring \<Rightarrow> property" where
  "SetTypeByString p str =
     (let s = remove_char (CHR '' '') str in
      if has_suffix s ''[]'' then
        p\<lparr>prop_type := PT_LIST,
          prop_subtypes := prop_subtypes p @ [GetPropertyTypeByString (take (length s - 2) s)]\<rparr>
      else case match_set s of
        Some sub \<Rightarrow> p\<lparr>prop_type := PT_SET,
          prop_subtypes := prop_subtypes p @ [GetPropertyTypeByString sub]\<rparr>
      | None \<Rightarrow>
        (case match_decimal s of
          Some (a, b) \<Rightarrow>
            (let p' = p\<lparr>prop_type := PT_DECIMAL\<rparr>; precision = fst (parse_int a 64);
                 scale = parse_int b 64
             in if snd scale \<noteq> None then p'
                else p'\<lparr>prop_decimal := Some \<lparr>de_precision = precision, de_scale = fst scale\<rparr>\<rparr>)
        | None \<Rightarrow> p\<lparr>prop_type := GetPropertyTypeByString s\<rparr>))"

definition GetStringType :: "property \<Rightarrow> gostring go" where
  "GetStringType p =
     (if prop_type p = PT_LIST then
        (case prop_subtypes p of
           [] \<Rightarrow> Fail (Err (''Property ['' @ prop_name p @ ''] is List but not specified subTypes''))
         | t # ts \<Rightarrow>
             if t = PT_DECIMAL
             then Fail (Err (''Property ['' @ prop_name p @ ''] is List, subTypes not support decimal''))
             else Ret (GetStringByPropertyType t @ ''[]''))
      else if prop_type p = PT_SET then
        (case prop_subtypes p of
           [] \<Rightarrow> Fail (Err (''Property ['' @ prop_name p @ ''] is Set but not specified subTypes''))
         | t # ts \<Rightarrow> Ret (''set('' @ GetStringByPropertyType t @ '')''))
      else if prop_type p = PT_DECIMAL then
        (case prop_decimal p of
           None \<Rightarrow> Panic NilDeref
         | Some d \<Rightarrow> Ret (GetStringByPropertyType PT_DECIMAL
             @ ''('' @ itoa (de_precision d) @ '','' @ itoa (de_scale d) @ '')''))
      else Ret (GetStringByPropertyType (prop_type p)))"

section \<open>Name tables\<close>

text \<open>The types the tables name: the scalars and the pseudo types.\<close>

definition named_type :: "property_type \<Rightarrow> bool" where
  "named_type t = (t \<in> set (map fst PropertyReverseMap))"

lemma type_of_string_of_type: "named_type t \<Longrightarrow> GetPropertyTypeByString (GetStringByPropertyType t) = t"
  by (cases t) (auto simp: named_type_def GetPropertyTypeByString_def GetStringByPropertyType_def
      PropertyMap_def PropertyReverseMap_def)

lemma PropertyReverseMap_values:
  "\<forall>s \<in> set (map snd PropertyReverseMap). s \<noteq> [] \<and> CHR '' '' \<notin> set s \<and> CHR '')'' \<notin> set s
     \<and> CHR ''('' \<notin> set s \<and> CHR ''<'' \<notin> set s \<and> CHR ''['' \<notin> set s \<and> CHR '']'' \<notin> set s"
  by (simp add: PropertyReverseMap_def)

lemma named_type_string:
  assumes "named_type t"
  shows "GetStringByPropertyType t \<in> set (map snd PropertyReverseMap)"
  using assms
  by (cases t) (auto simp: named_type_def GetStringByPropertyType_def PropertyReverseMap_def)

lemma IsIDType_iff: "IsIDType p \<longleftrightarrow> prop_type p \<in> set id_types"
  by (auto simp: IsIDType_def list_ex_iff)

lemma IsIDType_not_ignore: "IsIDType p \<Longrightarrow> \<not> IsIgnore p"
  by (auto simp: IsIDType_iff IsIgnore_def id_types_def)

section \<open>Round trip of the type string\<close>

lemma match_set_no_paren: "CHR ''('' \<notin> set s \<Longrightarrow> CHR ''<'' \<notin> set s \<Longrightarrow> match_set s = None"
  by (induction s) (auto simp: delimited_def prefix_def)

lemma match_decimal_no_paren: "CHR ''('' \<notin> set s \<Longrightarrow> match_decimal s = None"
  by (auto simp: match_decimal_def prefix_def)

lemma remove_char_id: "c \<notin> set s \<Longrightarrow> remove_char c s = s"
  unfolding remove_char_def by (rule filter_True) auto

lemma has_suffix_bracket: "has_suffix s ''[]'' \<Longrightarrow> CHR '']'' \<in> set s"
  by (auto simp: has_suffix_def suffix_def)

lemma takeWhile_delim: "CHR '')'' \<notin> set s \<Longrightarrow> takeWhile (\<lambda>c. c \<noteq> CHR '')'') (s @ '')'') = s"
  by (induction s) auto

lemma match_set_paren:
  assumes "s \<noteq> []" "CHR '')'' \<notin> set s"
  shows "match_set (''set('' @ s @ '')'') = Some s"
  using assms takeWhile_delim [of s] by (simp add: delimited_def)

lemma not_suffix_bracket_paren: "\<not> has_suffix (s @ '')'') ''[]''"
  by (auto simp: has_suffix_def suffix_def append_eq_append_conv2 append_eq_Cons_conv)

lemmas type_string_simps =
  remove_char_id match_set_no_paren match_decimal_no_paren match_set_paren
  not_suffix_bracket_paren type_of_string_of_type

lemma digits_delim:
  assumes "list_all is_digit a" "\<not> is_digit d"
  shows "takeWhile is_digit (a @ d # r) = a" "dropWhile is_digit (a @ d # r) = d # r"
  using assms by (induction a) auto

lemma list_all_digit_itoa: "0 \<le> p \<Longrightarrow> list_all is_digit (itoa p)"
  by (auto simp: itoa_def list_all_iff intro: nat_str_digits)

lemma itoa_ne [simp]: "itoa i \<noteq> []"
  by (simp add: itoa_def)

lemma match_decimal_itoa:
  assumes "0 \<le> p" "0 \<le> q"
  shows "match_decimal (''decimal('' @ itoa p @ '','' @ itoa q @ '')'') = Some (itoa p, itoa q)"
proof -
  have d: "\<not> is_digit (CHR '','')" "\<not> is_digit (CHR '')'')" by (simp_all add: is_digit_def)
  note ds = digits_delim [OF list_all_digit_itoa [OF assms(1)] d(1), of "itoa q @ '')''"]
    digits_delim [OF list_all_digit_itoa [OF assms(2)] d(2), of "[]"]
  show ?thesis by (simp add: match_decimal_def Let_def ds d)
qed

lemma digit_char_ne:
  "is_digit c \<Longrightarrow> c \<noteq> CHR '' '' \<and> c \<noteq> CHR '')'' \<and> c \<noteq> CHR ''['' \<and> c \<noteq> CHR ''<'' \<and> c \<noteq> CHR ''s''"
  by (auto simp: is_digit_def)

lemma match_set_skip: "c \<noteq> CHR ''s'' \<Longrightarrow> match_set (c # s) = match_set s"
  by (simp add: delimited_def)

lemma match_set_none: "CHR ''s'' \<notin> set s \<Longrightarrow> match_set s = None"
  by (induction s) (auto simp: delimited_def)

lemma decimal_string_plain:
  assumes "0 \<le> p" "0 \<le> q"
  defines "s \<equiv> ''decimal('' @ itoa p @ '','' @ itoa q @ '')''"
  shows "CHR '' '' \<notin> set s" "match_set s = None" "\<not> has_suffix s ''[]''"
proof -
  have *: "c \<in> set (itoa p) \<union> set (itoa q) \<Longrightarrow> is_digit c" for c
    using list_all_digit_itoa [OF assms(1)] list_all_digit_itoa [OF assms(2)]
    by (auto simp: list_all_iff)
  show "CHR '' '' \<notin> set s" using * digit_char_ne by (fastforce simp: s_def)
  show "match_set s = None"
    by (rule match_set_none) (use * digit_char_ne in \<open>fastforce simp: s_def\<close>)
  show "\<not> has_suffix s ''[]''"
    using not_suffix_bracket_paren [of "''decimal('' @ itoa p @ '','' @ itoa q"]
    by (simp add: s_def)
qed

text \<open>
  The properties whose type has a type string that says everything: a named type, a list of a
  named type other than decimal, a set of a named type, a decimal with its two numbers.
\<close>

definition type_expressible :: "property \<Rightarrow> bool" where
  "type_expressible p =
     (if prop_type p = PT_LIST then
        (\<exists>t. prop_subtypes p = [t] \<and> named_type t \<and> t \<noteq> PT_DECIMAL)
      else if prop_type p = PT_SET then (\<exists>t. prop_subtypes p = [t] \<and> named_type t)
      else if prop_type p = PT_DECIMAL then
        (\<exists>d. prop_decimal p = Some d \<and> 0 \<le> de_precision d \<and> de_precision d < 2 ^ 63
            \<and> 0 \<le> de_scale d \<and> de_scale d < 2 ^ 63) \<and> prop_subtypes p = []
      else named_type (prop_type p) \<and> prop_subtypes p = [])"

lemma SetTypeByString_scalar:
  assumes "named_type t"
  shows "SetTypeByString p (GetStringByPropertyType t) = p\<lparr>prop_type := t\<rparr>"
proof -
  have "GetStringByPropertyType t \<in> set (map snd PropertyReverseMap)"
    by (rule named_type_string [OF assms])
  then have c: "CHR '' '' \<notin> set (GetStringByPropertyType t)" "CHR ''('' \<notin> set (GetStringByPropertyType t)"
      "CHR ''<'' \<notin> set (GetStringByPropertyType t)" "CHR '']'' \<notin> set (GetStringByPropertyType t)"
    using PropertyReverseMap_values by blast+
  then show ?thesis
    using has_suffix_bracket by (auto simp: SetTypeByString_def Let_def type_string_simps assms)
qed

lemma SetTypeByString_list:
  assumes "named_type t"
  shows "SetTypeByString p (GetStringByPropertyType t @ ''[]'')
         = p\<lparr>prop_type := PT_LIST, prop_subtypes := prop_subtypes p @ [t]\<rparr>"
proof -
  have "CHR '' '' \<notin> set (GetStringByPropertyType t @ ''[]'')"
    using named_type_string [OF assms] PropertyReverseMap_values by fastforce
  then show ?thesis
    by (simp add: SetTypeByString_def Let_def remove_char_id type_of_string_of_type assms)
qed

lemma SetTypeByString_set:
  assumes "named_type t"
  shows "SetTypeByString p (''set('' @ GetStringByPropertyType t @ '')'')
         = p\<lparr>prop_type := PT_SET, prop_subtypes := prop_subtypes p @ [t]\<rparr>"
proof -
  let ?s = "GetStringByPropertyType t"
  have c: "CHR '' '' \<notin> set ?s" "CHR '')'' \<notin> set ?s" "?s \<noteq> []"
    using named_type_string [OF assms] PropertyReverseMap_values by blast+
  then have r: "remove_char (CHR '' '') (''set('' @ ?s @ '')'') = ''set('' @ ?s @ '')''"
    by (intro remove_char_id) auto
  have ns: "\<not> has_suffix (''set('' @ ?s @ '')'') ''[]''"
    using not_suffix_bracket_paren [of "''set('' @ ?s"] by simp
  show ?thesis
    unfolding SetTypeByString_def Let_def r match_set_paren [OF c(3,2)]
    using ns by (simp add: type_of_string_of_type assms)
qed

lemma SetTypeByString_decimal:
  assumes "0 \<le> de_precision d" "de_precision d < 2 ^ 63" "0 \<le> de_scale d" "de_scale d < 2 ^ 63"
  shows "SetTypeByString p (''decimal('' @ itoa (de_precision d) @ '','' @ itoa (de_scale d) @ '')'')
         = p\<lparr>prop_type := PT_DECIMAL, prop_decimal := Some d\<rparr>"
proof -
  note pl = decimal_string_plain [OF assms(1,3)]
  have pi: "parse_int (itoa i) 64 = (i, None)" if "0 \<le> i" "i < 2 ^ 63" for i
    using that by (intro parse_int_itoa) auto
  show ?thesis
    unfolding SetTypeByString_def Let_def remove_char_id [OF pl(1)]
    using pl(2,3) match_decimal_itoa [OF assms(1,3)] pi assms
    by simp
qed

text \<open>
  Property C28. The type string of a property, read back, gives the property's type: for every
  property whose type is expressible, \<open>GetStringType\<close> succeeds, and \<open>SetTypeByString\<close> on any
  property \<open>q\<close> without subtypes sets the type and the subtypes to those of the original, the decimal precision and
  scale to those of the original when it is a decimal, and nothing else. Expressible are the named types, lists of a named
  type other than decimal, sets of a named type, and decimals with a precision and a scale that are not negative.
\<close>

theorem type_string_roundtrip:
  assumes "type_expressible p" "prop_subtypes q = []"
  shows "\<exists>s. GetStringType p = Ret s \<and>
    SetTypeByString q s = q\<lparr>prop_type := prop_type p, prop_subtypes := prop_subtypes p,
      prop_decimal := (if prop_type p = PT_DECIMAL then prop_decimal p else prop_decimal q)\<rparr>"
proof -
  have q: "q\<lparr>prop_subtypes := []\<rparr> = q" using assms(2) by (cases q) simp
  consider (li) t where "prop_type p = PT_LIST" "prop_subtypes p = [t]" "named_type t" "t \<noteq> PT_DECIMAL"
    | (se) t where "prop_type p = PT_SET" "prop_subtypes p = [t]" "named_type t"
    | (de) d where "prop_type p = PT_DECIMAL" "prop_decimal p = Some d" "0 \<le> de_precision d"
        "de_precision d < 2 ^ 63" "0 \<le> de_scale d" "de_scale d < 2 ^ 63" "prop_subtypes p = []"
    | (sc) "prop_type p \<noteq> PT_LIST" "prop_type p \<noteq> PT_SET" "prop_type p \<noteq> PT_DECIMAL"
        "named_type (prop_type p)" "prop_subtypes p = []"
    using assms(1) unfolding type_expressible_def by (auto split: if_splits)
  then show ?thesis
  proof cases
    case li
    then show ?thesis by (simp add: GetStringType_def SetTypeByString_list assms(2))
  next
    case se
    then show ?thesis using SetTypeByString_set [of t q] by (simp add: GetStringType_def assms(2))
  next
    case de
    have "GetStringByPropertyType PT_DECIMAL = ''decimal''"
      by (simp add: GetStringByPropertyType_def PropertyReverseMap_def)
    with de show ?thesis
      using SetTypeByString_decimal [of d q] q by (simp add: GetStringType_def) (metis property.surjective property.update_convs)
  next
    case sc
    then show ?thesis using q by (simp add: GetStringType_def SetTypeByString_scalar) (metis property.surjective property.update_convs)
  qed
qed

text \<open>A list read into a property that has subtypes adds its own to them.\<close>

lemma list_type_appends:
  "named_type t \<Longrightarrow> prop_subtypes (SetTypeByString q (GetStringByPropertyType t @ ''[]'')) = prop_subtypes q @ [t]"
  by (simp add: SetTypeByString_list)

theorem type_string_roundtrip_witness:
  "(\<exists>s. GetStringType (empty_property\<lparr>prop_type := PT_SET, prop_subtypes := [PT_INT32]\<rparr>) = Ret s \<and>
      SetTypeByString empty_property s = empty_property\<lparr>prop_type := PT_SET, prop_subtypes := [PT_INT32]\<rparr>)
   \<and> (\<exists>s. GetStringType (empty_property\<lparr>prop_type := PT_DECIMAL,
          prop_decimal := Some \<lparr>de_precision = 20, de_scale = 4\<rparr>\<rparr>) = Ret s \<and>
      SetTypeByString empty_property s = empty_property\<lparr>prop_type := PT_DECIMAL,
          prop_decimal := Some \<lparr>de_precision = 20, de_scale = 4\<rparr>\<rparr>)"
proof -
  let ?set = "empty_property\<lparr>prop_type := PT_SET, prop_subtypes := [PT_INT32]\<rparr>"
  let ?dec = "empty_property\<lparr>prop_type := PT_DECIMAL, prop_decimal := Some \<lparr>de_precision = 20, de_scale = 4\<rparr>\<rparr>"
  have "type_expressible ?set" "type_expressible ?dec" "prop_subtypes empty_property = []"
    by (simp_all add: type_expressible_def named_type_def PropertyReverseMap_def empty_property_def)
  note r = type_string_roundtrip [OF this(1,3)] type_string_roundtrip [OF this(2,3)]
  show ?thesis using r by (simp add: empty_property_def)
qed

end
