(* ===== verification/Serilizer.thy ===== *)
theory Serilizer
  imports GoValue Config PropertyTypes
begin

text \<open>
  \<open>sdk/utils/serilizer.go\<close> and \<open>sdk/utils/null.go\<close>: the encoding of a Go value in the bytes of
  a property type, its decoding, and the null sentinels both share. A nil and an empty
  \<open>[]byte\<close> are both \<open>[]\<close>, and a nil and an empty list of subtypes are both \<open>[]\<close>; the texts of
  errors keep their fixed part.
\<close>

section \<open>Null sentinels\<close>

definition BytesEqual :: "bytes option \<Rightarrow> bytes option \<Rightarrow> bool" where
  "BytesEqual bs1 bs2 =
     (case (bs1, bs2) of
        (Some a, Some b) \<Rightarrow>
          length a = length b \<and> list_all (\<lambda>i. a ! i = b ! i) [0..<length a]
      | _ \<Rightarrow> False)"

definition getListNullValue :: "'a env_scheme \<Rightarrow> bytes option" where
  "getListNullValue env =
     (case pb_marshal_list env \<lparr>pl_IsNull = True, pl_Values = []\<rparr> of
        Ret bs \<Rightarrow> Some bs | _ \<Rightarrow> None)"

definition getMapNullValue :: "'a env_scheme \<Rightarrow> bytes option" where
  "getMapNullValue env =
     (case pb_marshal_map env \<lparr>pm_IsNull = True, pm_Values = []\<rparr> of
        Ret bs \<Rightarrow> Some bs | _ \<Rightarrow> None)"

fun nullBytes :: "'a env_scheme \<Rightarrow> property_type \<Rightarrow> bytes option" where
  "nullBytes env PT_INT32 = Some [0x7f, 0xff, 0xff, 0xff]"
| "nullBytes env PT_DATETIME = Some [0xff, 0xff, 0xff, 0xff, 0xff, 0xff, 0xff, 0xff]"
| "nullBytes env PT_UINT32 = Some [0xff, 0xff, 0xff, 0xff]"
| "nullBytes env PT_INT64 = Some [0x7f, 0xff, 0xff, 0xff, 0xff, 0xff, 0xff, 0xff]"
| "nullBytes env PT_TIMESTAMP = Some [0xff, 0xff, 0xff, 0xff]"
| "nullBytes env PT_UINT64 = Some [0xff, 0xff, 0xff, 0xff, 0xff, 0xff, 0xff, 0xff]"
| "nullBytes env PT_FLOAT = Some [0xff, 0xff, 0xff, 0xff]"
| "nullBytes env PT_DOUBLE = Some [0xff, 0xff, 0xff, 0xff, 0xff, 0xff, 0xff, 0xff]"
| "nullBytes env PT_STRING = Some [0]"
| "nullBytes env PT_TEXT = Some [0]"
| "nullBytes env PT_POINT = Some (replicate 16 0xff)"
| "nullBytes env PT_LIST = getListNullValue env"
| "nullBytes env PT_MAP = getMapNullValue env"
| "nullBytes env PT_BOOL = Some [0x2]"
| "nullBytes env t = None"

definition GetNullBytes :: "'a env_scheme \<Rightarrow> property_type \<Rightarrow> bytes option" where
  "GetNullBytes env t = nullBytes env t"

definition nil_bytes :: "bytes option \<Rightarrow> bytes" where
  "nil_bytes b = (case b of None \<Rightarrow> [] | Some bs \<Rightarrow> bs)"

definition IsNull :: "'a env_scheme \<Rightarrow> property_type \<Rightarrow> bytes \<Rightarrow> bool" where
  "IsNull env t bs =
     (if t = PT_NULL then True else BytesEqual (Some bs) (GetNullBytes env t))"

section \<open>Readers\<close>

definition AsInt32 :: "bytes \<Rightarrow> 32 word" where
  "AsInt32 v = word_of_nat (read_be 4 v)"

definition AsInt64 :: "bytes \<Rightarrow> 64 word" where
  "AsInt64 v = word_of_nat (read_be 8 v)"

definition AsUint32 :: "bytes \<Rightarrow> 32 word" where
  "AsUint32 v = word_of_nat (read_be 4 v)"

definition AsUint64 :: "bytes \<Rightarrow> 64 word" where
  "AsUint64 v = word_of_nat (read_be 8 v)"

definition AsFloat32 :: "bytes \<Rightarrow> float32" where
  "AsFloat32 v = word_of_nat (read_be 4 v)"

definition AsFloat64 :: "bytes \<Rightarrow> float64" where
  "AsFloat64 v = word_of_nat (read_be 8 v)"

definition AsString :: "bytes \<Rightarrow> gostring" where
  "AsString v = string_of v"

definition AsBool :: "bytes \<Rightarrow> bool" where
  "AsBool v = (read_be 2 v = 1)"

definition AsPointString :: "'a env_scheme \<Rightarrow> bytes \<Rightarrow> gostring go" where
  "AsPointString env v =
     (if length v \<noteq> 16 then Fail (Err ''deserialize point type error: length != 16'')
      else let latitude = AsFloat64 (take 8 v); longitude = AsFloat64 (drop 8 v)
           in if IsNaN latitude \<or> IsNaN longitude then Ret []
              else Ret (format_point env latitude longitude))"

section \<open>Bytes to value\<close>

definition convert_scalar :: "'a env_scheme \<Rightarrow> bytes \<Rightarrow> property_type \<Rightarrow> gval go" where
  "convert_scalar env bs t =
     (case t of
        PT_STRING \<Rightarrow> Ret (GString (AsString bs))
      | PT_INT32 \<Rightarrow> Ret (GInt32 (AsInt32 bs))
      | PT_INT64 \<Rightarrow> Ret (GInt64 (AsInt64 bs))
      | PT_UINT32 \<Rightarrow> Ret (GUint32 (AsUint32 bs))
      | PT_UINT64 \<Rightarrow> Ret (GUint64 (AsUint64 bs))
      | PT_FLOAT \<Rightarrow> Ret (GFloat32 (AsFloat32 bs))
      | PT_DOUBLE \<Rightarrow> Ret (GFloat64 (AsFloat64 bs))
      | PT_DATETIME \<Rightarrow>
          (if length bs = 0 then Ret GNil
           else let value = AsUint64 bs
                in if value = 0 then Ret (GUint64 0)
                   else Ret (GTimePtr (Some (NewDateTime (te_local env) value))))
      | PT_TIMESTAMP \<Rightarrow>
          (if length bs = 0 then Ret GNil
           else Ret (GTimePtr (Some (NewTimeStamp (te_local env) (uint (AsUint32 bs))))))
      | PT_TEXT \<Rightarrow> Ret (GString (AsString bs))
      | PT_BLOB \<Rightarrow> Ret (GBytes bs)
      | PT_POINT \<Rightarrow>
          (case AsPointString env bs of
             Ret str \<Rightarrow> if str = [] then Ret GNil
                        else go_lift (\<lambda>p. GPointPtr (Some p)) (PointFromStr env str)
           | Fail e \<Rightarrow> Fail e
           | Panic p \<Rightarrow> Panic p)
      | PT_DECIMAL \<Rightarrow> (if length bs = 0 then Ret GNil else Ret (GString (AsString bs)))
      | PT_BOOL \<Rightarrow>
          (let serverValue = AsString bs
           in if serverValue = [] then Ret GNil
              else go_lift GBool (err_val (parse_bool serverValue)))
      | _ \<Rightarrow> Ret GNil)"

text \<open>
  A list or a set is decoded element by element with its first subtype, whose own subtypes are
  nil; the recursion is on the subtypes and so at most one level deep.
\<close>

function ConvertBytesToInterface ::
    "'a env_scheme \<Rightarrow> bytes \<Rightarrow> property_type \<Rightarrow> property_type list \<Rightarrow> gval go"
  and deserializeList :: "'a env_scheme \<Rightarrow> bytes \<Rightarrow> property_type list \<Rightarrow> gval go"
  and deserializeSet :: "'a env_scheme \<Rightarrow> bytes \<Rightarrow> property_type list \<Rightarrow> gval go" where
  "ConvertBytesToInterface env bs t subTypes =
     (if IsNull env t bs then Ret GNil
      else if t = PT_LIST then deserializeList env bs subTypes
      else if t = PT_SET then deserializeSet env bs subTypes
      else convert_scalar env bs t)"
| "deserializeList env bs subTypes =
     go_bind (pb_unmarshal_list env bs) (\<lambda>listData.
       if pl_IsNull listData then Ret (GSlice [])
       else if pl_Values listData = [] then Ret (GSlice [])
       else case subTypes of
              [] \<Rightarrow> Panic IndexOutOfRange
            | s # ss \<Rightarrow> go_lift GSlice
                (go_map (\<lambda>value. ConvertBytesToInterface env value s []) (pl_Values listData)))"
| "deserializeSet env bs subTypes =
     go_bind (pb_unmarshal_set env bs) (\<lambda>setData.
       if pl_IsNull setData then Ret (GSlice [])
       else if pl_Values setData = [] then Ret (GSlice [])
       else case subTypes of
              [] \<Rightarrow> Panic IndexOutOfRange
            | s # ss \<Rightarrow> go_lift GSlice
                (go_map (\<lambda>value. ConvertBytesToInterface env value s []) (pl_Values setData)))"
  by pat_completeness auto
termination
  by (relation "measure (\<lambda>x. case x of Inl (env, bs, t, st) \<Rightarrow> 2 * length st + 1
        | Inr (Inl (env, bs, st)) \<Rightarrow> 2 * length st | Inr (Inr (env, bs, st)) \<Rightarrow> 2 * length st)")
    auto

declare ConvertBytesToInterface.simps [simp del] deserializeList.simps [simp del]
  deserializeSet.simps [simp del]

section \<open>Time zones of a request\<close>

definition IsTimezoneOffsetCandidate :: "gostring \<Rightarrow> bool" where
  "IsTimezoneOffsetCandidate offsetCandidate =
     (has_prefix offsetCandidate ''+'' \<or> has_prefix offsetCandidate ''-'')"

text \<open>The error of \<open>ParseInt\<close> is dropped; the product wraps at 64 bits.\<close>

definition getLocationFromTimezone :: "'a env_scheme \<Rightarrow> gostring \<Rightarrow> location option" where
  "getLocationFromTimezone env timezone =
     (if IsTimezoneOffsetCandidate timezone then
        (let offsetStr = (if contains timezone '':'' then remove_char (CHR '':'') timezone
                          else timezone);
             offset = fst (parse_int offsetStr 64)
         in if offset \<noteq> 0 then Some (FixedZone (sint (word_of_int (offset * 36) :: 64 word)))
            else None)
      else if timezone \<noteq> [] then te_load_location env timezone
      else None)"

definition GetLocationFromConfig ::
  "'a env_scheme \<Rightarrow> request_config option \<Rightarrow> location option" where
  "GetLocationFromConfig env req =
     (case req of
        None \<Rightarrow> None
      | Some r \<Rightarrow>
          if rc_TimezoneOffset r \<noteq> 0 then Some (FixedZone (sint (rc_TimezoneOffset r)))
          else if rc_Timezone r \<noteq> [] then getLocationFromTimezone env (rc_Timezone r)
          else None)"

section \<open>Strings to values\<close>

text \<open>The time functions take the part \<open>time_env\<close> of the environment.\<close>

abbreviation tenv :: "'a env_scheme \<Rightarrow> time_env" where
  "tenv env \<equiv> time_env.truncate env"

definition GetDefaultNilString :: "property_type \<Rightarrow> gostring" where
  "GetDefaultNilString t =
     (if t \<in> {PT_INT32, PT_INT64, PT_UINT32, PT_UINT64, PT_FLOAT, PT_DOUBLE} then ''0''
      else if t = PT_DATETIME \<or> t = PT_TIMESTAMP then ''1970-01-01''
      else [])"

text \<open>An untyped constant of the source becomes an \<open>int\<close> or a \<open>float64\<close> in an \<open>interface{}\<close>.\<close>

definition GetDefaultNilInterface :: "property_type \<Rightarrow> gval" where
  "GetDefaultNilInterface t =
     (case t of
        PT_INT32 \<Rightarrow> GInt 0x7FFFFFFF
      | PT_INT64 \<Rightarrow> GInt 0x7FFFFFFFFFFFFFFF
      | PT_UINT32 \<Rightarrow> GInt 0xFFFFFFFF
      | PT_UINT64 \<Rightarrow> GUint64 0xFFFFFFFFFFFFFFFF
      | PT_FLOAT \<Rightarrow> GFloat64 0x47EFFFFFE0000000
      | PT_DOUBLE \<Rightarrow> GFloat64 0x7FEFFFFFFFFFFFFF
      | PT_DATETIME \<Rightarrow> GUint64 0xFFFFFFFFFFFFFFFF
      | PT_TIMESTAMP \<Rightarrow> GInt 0xFFFFFFFF
      | _ \<Rightarrow> GString [CHR 0x00])"

definition StringAsInterface ::
  "'a env_scheme \<Rightarrow> gostring \<Rightarrow> property_type \<Rightarrow> location option \<Rightarrow> gval go" where
  "StringAsInterface env source t location =
     (let trimmed = trim ((=) (CHR '' '')) source in
      if trimmed = [] \<and> t \<noteq> PT_DATETIME \<and> t \<noteq> PT_STRING \<and> t \<noteq> PT_TEXT then Ret GNil
      else let str = (if trimmed = [] \<and> t = PT_DATETIME then ''1970-01-01'' else trimmed) in
        (case t of
           PT_INT32 \<Rightarrow> go_lift (\<lambda>v. GInt32 (word_of_int v)) (err_val (parse_int str 32))
         | PT_INT64 \<Rightarrow> go_lift (\<lambda>v. GInt64 (word_of_int v)) (err_val (parse_int str 64))
         | PT_UINT32 \<Rightarrow> go_lift (\<lambda>v. GUint32 (word_of_nat v)) (err_val (parse_uint str 32))
         | PT_UINT64 \<Rightarrow> go_lift (\<lambda>v. GUint64 (word_of_nat v)) (err_val (parse_uint str 64))
         | PT_FLOAT \<Rightarrow> go_lift (\<lambda>v. GFloat32 (fe_narrow env v)) (err_val (fe_parse_float env str 32))
         | PT_DOUBLE \<Rightarrow> go_lift GFloat64 (err_val (fe_parse_float env str 64))
         | PT_DATETIME \<Rightarrow>
             go_lift (\<lambda>v. GUint64 (ut_Datetime v)) (NewDatetimeFromString (tenv env) str)
         | PT_TIMESTAMP \<Rightarrow>
             go_bind (NewTimestampFromString (tenv env) str location) (\<lambda>v.
               go_lift GUint32 (GetTimeStamp v))
         | _ \<Rightarrow> Ret (GString str)))"

definition StringTimestampAsInterface ::
  "'a env_scheme \<Rightarrow> gostring \<Rightarrow> location option \<Rightarrow> gval go" where
  "StringTimestampAsInterface env s location =
     (let str = trim ((=) (CHR '' '')) s;
          str = (if str = [] then GetDefaultNilString PT_TIMESTAMP else str)
      in go_bind (NewTimestampFromString (tenv env) str location) (\<lambda>v.
           go_lift GUint32 (GetTimeStamp v)))"

definition StringAsUUID :: "gostring \<Rightarrow> nat \<times> go_error option" where
  "StringAsUUID str = parse_uint (trim ((=) (CHR '' '')) str) 64"

section \<open>Value to bytes\<close>

definition ConvertInterfaceToBytes :: "gval \<Rightarrow> bytes go" where
  "ConvertInterfaceToBytes value =
     (case value of
        GInt32 v \<Rightarrow> Ret (put_uint32 v)
      | GInt v \<Rightarrow> Ret (put_uint32 (ucast v))
      | GString s \<Rightarrow> Ret (bytes_of s)
      | GInt64 v \<Rightarrow> Ret (put_uint64 v)
      | GUint32 v \<Rightarrow> Ret (put_uint32 v)
      | GUint64 v \<Rightarrow> Ret (put_uint64 v)
      | GFloat32 v \<Rightarrow> Ret (put_uint32 v)
      | GFloat64 v \<Rightarrow> Ret (put_uint64 v)
      | GBytes bs \<Rightarrow> Ret bs
      | _ \<Rightarrow> Fail (Err ''not supported ultipa type for value: ''))"

definition serializeDecimal :: "'a env_scheme \<Rightarrow> gval \<Rightarrow> bytes go" where
  "serializeDecimal env value =
     (case value of
        GInt32 v \<Rightarrow> Ret (bytes_of (itoa (sint v)))
      | GInt v \<Rightarrow> Ret (bytes_of (itoa (sint v)))
      | GString s \<Rightarrow> Ret (bytes_of s)
      | GInt64 v \<Rightarrow> Ret (bytes_of (itoa (sint v)))
      | GUint32 v \<Rightarrow> Ret (bytes_of (nat_str (unat v)))
      | GUint64 v \<Rightarrow> Ret (bytes_of (nat_str (unat v)))
      | GFloat32 v \<Rightarrow> Ret (bytes_of (fe_format_float env (fe_widen env v) 32))
      | GFloat64 v \<Rightarrow> Ret (bytes_of (fe_format_float env v 64))
      | _ \<Rightarrow> Fail (Err ''not supported ultipa type : ''))"

definition doSerializeBool :: "bool \<Rightarrow> bytes go" where
  "doSerializeBool v = Ret (bytes_of (if v then ''1'' else ''0''))"

text \<open>\<open>GetTimeStamp\<close> through a pointer dereferences it.\<close>

definition deref_timestamp :: "ultipa_time option \<Rightarrow> bytes go" where
  "deref_timestamp p =
     go_bind (deref p) (\<lambda>u. go_bind (GetTimeStamp u) (\<lambda>v. ConvertInterfaceToBytes (GUint32 v)))"

definition serialize_scalar ::
  "'a env_scheme \<Rightarrow> gval \<Rightarrow> property_type \<Rightarrow> request_config option \<Rightarrow> bytes go" where
  "serialize_scalar env value t req =
     (case t of
        PT_POINT \<Rightarrow>
          (case value of
             GPoint v \<Rightarrow> Ret (bytes_of (Point_String env v))
           | GPointPtr v \<Rightarrow> go_lift (\<lambda>p. bytes_of (Point_String env p)) (deref v)
           | GString v \<Rightarrow> go_lift (\<lambda>p. bytes_of (Point_String env p)) (PointFromStr env v)
           | _ \<Rightarrow> ConvertInterfaceToBytes value)
      | PT_DECIMAL \<Rightarrow> serializeDecimal env value
      | PT_MAP \<Rightarrow> Fail (Err ''unsuppoted ultipa.PropertyType [MAP]'')
      | PT_DATETIME \<Rightarrow>
          (case value of
             GTime v \<Rightarrow> ConvertInterfaceToBytes (GUint64 (ut_Datetime v))
           | GTimePtr v \<Rightarrow>
               go_bind (deref v) (\<lambda>u. ConvertInterfaceToBytes (GUint64 (ut_Datetime u)))
           | GString v \<Rightarrow>
               go_bind (StringAsInterface env v PT_DATETIME (GetLocationFromConfig env req))
                 ConvertInterfaceToBytes
           | _ \<Rightarrow> ConvertInterfaceToBytes value)
      | PT_TIMESTAMP \<Rightarrow>
          (case value of
             GTime v \<Rightarrow> deref_timestamp (Some v)
           | GTimePtr v \<Rightarrow> deref_timestamp v
           | GString v \<Rightarrow>
               go_bind (StringAsInterface env v PT_TIMESTAMP (GetLocationFromConfig env req))
                 ConvertInterfaceToBytes
           | _ \<Rightarrow> ConvertInterfaceToBytes value)
      | PT_BOOL \<Rightarrow>
          (case value of
             GBool v \<Rightarrow> doSerializeBool v
           | GString v \<Rightarrow> go_bind (err_val (parse_bool v)) doSerializeBool
           | _ \<Rightarrow> Fail (Err ''unable to parse the value to bool:''))
      | _ \<Rightarrow> ConvertInterfaceToBytes value)"

function ConvertInterfaceToBytesSafe ::
    "'a env_scheme \<Rightarrow> gval \<Rightarrow> property_type \<Rightarrow> property_type list \<Rightarrow> request_config option
     \<Rightarrow> bytes go"
  and SerializeListData ::
    "'a env_scheme \<Rightarrow> gval \<Rightarrow> property_type list \<Rightarrow> request_config option \<Rightarrow> bytes go"
  and SerializeSetData ::
    "'a env_scheme \<Rightarrow> gval \<Rightarrow> property_type list \<Rightarrow> request_config option \<Rightarrow> bytes go" where
  "ConvertInterfaceToBytesSafe env value t subTypes req =
     (if value = GNil then
        (if t = PT_MAP then Fail (Err ''unsuppoted ultipa.PropertyType [MAP]'')
         else Ret (nil_bytes (GetNullBytes env t)))
      else if t = PT_LIST then SerializeListData env value subTypes req
      else if t = PT_SET then SerializeSetData env value subTypes req
      else serialize_scalar env value t req)"
| "SerializeListData env list subTypes req =
     (case subTypes of
        [] \<Rightarrow> Fail (Err ''subTypes is nil, unable to serialize list'')
      | s # ss \<Rightarrow>
          if list = GNil then pb_marshal_list env \<lparr>pl_IsNull = True, pl_Values = []\<rparr>
          else go_bind (reflect_elems list) (\<lambda>elements.
            go_bind (go_map (\<lambda>v. ConvertInterfaceToBytesSafe env v s [] req) elements) (\<lambda>values.
              pb_marshal_list env \<lparr>pl_IsNull = False, pl_Values = values\<rparr>)))"
| "SerializeSetData env setv subTypes req =
     (case subTypes of
        [] \<Rightarrow> Fail (Err ''subTypes is nil, unable to serialize SetData'')
      | s # ss \<Rightarrow>
          if setv = GNil then pb_marshal_set env \<lparr>pl_IsNull = True, pl_Values = []\<rparr>
          else go_bind (reflect_elems setv) (\<lambda>elements.
            go_bind (go_map (\<lambda>v. ConvertInterfaceToBytesSafe env v s [] req) elements) (\<lambda>values.
              pb_marshal_set env \<lparr>pl_IsNull = False, pl_Values = values\<rparr>)))"
  by pat_completeness auto
termination
  by (relation "measure (\<lambda>x. case x of Inl (env, v, t, st, req) \<Rightarrow> 2 * length st + 1
        | Inr (Inl (env, v, st, req)) \<Rightarrow> 2 * length st
        | Inr (Inr (env, v, st, req)) \<Rightarrow> 2 * length st)")
    auto

declare ConvertInterfaceToBytesSafe.simps [simp del] SerializeListData.simps [simp del]
  SerializeSetData.simps [simp del]

definition SerializeMapData ::
  "'a env_scheme \<Rightarrow> gval \<Rightarrow> property_type list \<Rightarrow> request_config option \<Rightarrow> bytes go" where
  "SerializeMapData env value subTypes req =
     (case subTypes of
        [] \<Rightarrow> Fail (Err ''subTypes is nil, unable to serialize SetData'')
      | s # ss \<Rightarrow>
          (case value of
             GNil \<Rightarrow> pb_marshal_map env \<lparr>pm_IsNull = True, pm_Values = []\<rparr>
           | GMap kvs \<Rightarrow>
               go_bind (go_map (\<lambda>kv.
                 go_bind (ConvertInterfaceToBytesSafe env (fst kv) s [] req) (\<lambda>kb.
                 go_bind (ConvertInterfaceToBytesSafe env (snd kv) s [] req) (\<lambda>vb.
                   Ret (kb, vb)))) kvs) (\<lambda>mapValues.
                 pb_marshal_map env \<lparr>pm_IsNull = False, pm_Values = mapValues\<rparr>)
           | _ \<Rightarrow> Fail (Err ''value is not a map, unable to serialize as MapData'')))"

section \<open>Facts on the sentinels and the codecs\<close>

interpretation as_int32: fixed_codec put_uint32 AsInt32 4
  unfolding AsInt32_def by (rule u32.fixed_codec_axioms)

interpretation as_uint32: fixed_codec put_uint32 AsUint32 4
  unfolding AsUint32_def by (rule u32.fixed_codec_axioms)

interpretation as_float32: fixed_codec put_uint32 AsFloat32 4
  unfolding AsFloat32_def by (rule u32.fixed_codec_axioms)

interpretation as_int64: fixed_codec put_uint64 AsInt64 8
  unfolding AsInt64_def by (rule u64.fixed_codec_axioms)

interpretation as_uint64: fixed_codec put_uint64 AsUint64 8
  unfolding AsUint64_def by (rule u64.fixed_codec_axioms)

interpretation as_float64: fixed_codec put_uint64 AsFloat64 8
  unfolding AsFloat64_def by (rule u64.fixed_codec_axioms)

lemmas dec_enc_simps =
  as_int32.dec_enc as_uint32.dec_enc as_float32.dec_enc
  as_int64.dec_enc as_uint64.dec_enc as_float64.dec_enc

lemmas enc_dec_simps =
  as_int32.enc_dec as_uint32.enc_dec as_float32.enc_dec
  as_int64.enc_dec as_uint64.enc_dec as_float64.enc_dec

lemma BytesEqual_Some [simp]: "BytesEqual (Some a) (Some b) \<longleftrightarrow> a = b"
  unfolding BytesEqual_def list_all_iff by (auto intro: nth_equalityI)

lemma BytesEqual_None [simp]: "\<not> BytesEqual a None" "\<not> BytesEqual None b"
  by (auto simp: BytesEqual_def split: option.splits)

lemma sentinel_bytes:
  "put_uint32 0x7FFFFFFF = [0x7f, 0xff, 0xff, 0xff]"
  "put_uint32 0xFFFFFFFF = [0xff, 0xff, 0xff, 0xff]"
  "put_uint64 0x7FFFFFFFFFFFFFFF = [0x7f, 0xff, 0xff, 0xff, 0xff, 0xff, 0xff, 0xff]"
  "put_uint64 0xFFFFFFFFFFFFFFFF = [0xff, 0xff, 0xff, 0xff, 0xff, 0xff, 0xff, 0xff]"
  unfolding as_uint32.enc_eq_bytes as_uint64.enc_eq_bytes
  by (simp_all add: AsUint32_def AsUint64_def read_be_def be_get_def)

section \<open>What the encoder and the decoder promise each other\<close>

text \<open>
  The values a property of each type is written from: the Go type of the property, for DECIMAL
  a text, for DATETIME and TIMESTAMP a time (for TIMESTAMP one with a Go time in it), and nil
  for every type that is no list, set or map. A POINT has none but nil: what the encoder writes
  of a point the decoder does not read (\<open>point_not_read_back\<close>).
\<close>

fun has_go_type :: "gval \<Rightarrow> property_type \<Rightarrow> bool" where
  "has_go_type (GInt32 v) t = (t = PT_INT32)"
| "has_go_type (GInt64 v) t = (t = PT_INT64)"
| "has_go_type (GUint32 v) t = (t = PT_UINT32)"
| "has_go_type (GUint64 v) t = (t = PT_UINT64)"
| "has_go_type (GFloat32 v) t = (t = PT_FLOAT)"
| "has_go_type (GFloat64 v) t = (t = PT_DOUBLE)"
| "has_go_type (GString s) t = (t = PT_STRING \<or> t = PT_TEXT \<or> t = PT_DECIMAL)"
| "has_go_type (GBytes bs) t = (t = PT_BLOB)"
| "has_go_type (GBool b) t = (t = PT_BOOL)"
| "has_go_type (GTime u) t = (t = PT_DATETIME \<or> t = PT_TIMESTAMP \<and> ut_Time u \<noteq> None)"
| "has_go_type (GTimePtr (Some u)) t = (t = PT_DATETIME \<or> t = PT_TIMESTAMP \<and> ut_Time u \<noteq> None)"
| "has_go_type GNil t = (t \<notin> {PT_LIST, PT_SET, PT_MAP})"
| "has_go_type v t = False"

text \<open>
  The values whose encoding is the null sentinel of their type, and the empty decimal, which is
  read as nil.
\<close>

definition time_sentinel :: "ultipa_time \<Rightarrow> property_type \<Rightarrow> bool" where
  "time_sentinel u t =
     (if t = PT_TIMESTAMP then GetTimeStamp u = Ret 0xFFFFFFFF
      else ut_Datetime u = 0xFFFFFFFFFFFFFFFF)"

fun is_sentinel :: "gval \<Rightarrow> property_type \<Rightarrow> bool" where
  "is_sentinel (GInt32 v) t = (v = 0x7FFFFFFF)"
| "is_sentinel (GInt64 v) t = (v = 0x7FFFFFFFFFFFFFFF)"
| "is_sentinel (GUint32 v) t = (v = 0xFFFFFFFF)"
| "is_sentinel (GUint64 v) t = (v = 0xFFFFFFFFFFFFFFFF)"
| "is_sentinel (GFloat32 v) t = (v = 0xFFFFFFFF)"
| "is_sentinel (GFloat64 v) t = (v = 0xFFFFFFFFFFFFFFFF)"
| "is_sentinel (GString s) t = (if t = PT_DECIMAL then s = [] else s = [CHR 0x00])"
| "is_sentinel (GTime u) t = time_sentinel u t"
| "is_sentinel (GTimePtr (Some u)) t = time_sentinel u t"
| "is_sentinel v t = False"

text \<open>
  What the decoder makes of the bytes of a value: the value itself, or nil for a sentinel. A
  time comes back as a pointer to a new time made from the bytes, the date-time 0 as a bare
  \<open>uint64\<close>, and a nil blob as an empty one.
\<close>

definition time_read :: "'a env_scheme \<Rightarrow> ultipa_time \<Rightarrow> property_type \<Rightarrow> gval" where
  "time_read env u t =
     (if t = PT_TIMESTAMP
      then GTimePtr (Some (NewTimeStamp (te_local env)
             (case ut_Time u of None \<Rightarrow> 0 | Some x \<Rightarrow> take_bit 32 (gt_sec x))))
      else if ut_Datetime u = 0 then GUint64 0
      else GTimePtr (Some (NewDateTime (te_local env) (ut_Datetime u))))"

fun read_back :: "'a env_scheme \<Rightarrow> gval \<Rightarrow> property_type \<Rightarrow> gval" where
  "read_back env (GTime u) t = (if time_sentinel u t then GNil else time_read env u t)"
| "read_back env (GTimePtr (Some u)) t = (if time_sentinel u t then GNil else time_read env u t)"
| "read_back env GNil t = (if t = PT_BLOB then GBytes [] else GNil)"
| "read_back env v t = (if is_sentinel v t then GNil else v)"

text \<open>
  The same without the codec: a time that is read is the time that was written, in its packed
  date-time or in its seconds.
\<close>

definition same_time :: "ultipa_time \<Rightarrow> property_type \<Rightarrow> gval \<Rightarrow> bool" where
  "same_time u t r =
     (if time_sentinel u t then r = GNil
      else if t = PT_DATETIME \<and> ut_Datetime u = 0 then r = GUint64 0
      else case r of
             GTimePtr (Some u') \<Rightarrow>
               (if t = PT_DATETIME then ut_Datetime u' = ut_Datetime u
                else GetTimeStamp u' = GetTimeStamp u)
           | _ \<Rightarrow> False)"

fun same_value :: "gval \<Rightarrow> property_type \<Rightarrow> gval \<Rightarrow> bool" where
  "same_value (GTime u) t r = same_time u t r"
| "same_value (GTimePtr (Some u)) t r = same_time u t r"
| "same_value GNil t r = (r = (if t = PT_BLOB then GBytes [] else GNil))"
| "same_value v t r = (r = (if is_sentinel v t then GNil else v))"

lemma GetTimeStamp_seconds: "ut_Time u = Some x \<Longrightarrow> GetTimeStamp u = Ret (word_of_int (gt_sec x))"
  by (simp add: GetTimeStamp_def)

lemma IsNull_sentinel:
  "IsNull env PT_INT32 (put_uint32 v) \<longleftrightarrow> v = 0x7FFFFFFF"
  "IsNull env PT_UINT32 (put_uint32 v) \<longleftrightarrow> v = 0xFFFFFFFF"
  "IsNull env PT_FLOAT (put_uint32 v) \<longleftrightarrow> v = 0xFFFFFFFF"
  "IsNull env PT_TIMESTAMP (put_uint32 v) \<longleftrightarrow> v = 0xFFFFFFFF"
  by (simp_all add: IsNull_def GetNullBytes_def flip: sentinel_bytes(1,2))

lemma IsNull_sentinel64:
  "IsNull env PT_INT64 (put_uint64 w) \<longleftrightarrow> w = 0x7FFFFFFFFFFFFFFF"
  "IsNull env PT_UINT64 (put_uint64 w) \<longleftrightarrow> w = 0xFFFFFFFFFFFFFFFF"
  "IsNull env PT_DOUBLE (put_uint64 w) \<longleftrightarrow> w = 0xFFFFFFFFFFFFFFFF"
  "IsNull env PT_DATETIME (put_uint64 w) \<longleftrightarrow> w = 0xFFFFFFFFFFFFFFFF"
  by (simp_all add: IsNull_def GetNullBytes_def flip: sentinel_bytes(3,4))

lemma nul_string: "bytes_of [CHR 0x00] = [0]"
  by (simp add: bytes_of_def)

lemma IsNull_string:
  "IsNull env PT_STRING (bytes_of s) \<longleftrightarrow> s = [CHR 0x00]"
  "IsNull env PT_TEXT (bytes_of s) \<longleftrightarrow> s = [CHR 0x00]"
  by (simp_all add: IsNull_def GetNullBytes_def flip: nul_string)

lemma IsNull_none:
  "\<not> IsNull env PT_DECIMAL bs" "\<not> IsNull env PT_BLOB bs" "\<not> IsNull env PT_SET bs"
  by (simp_all add: IsNull_def GetNullBytes_def)

lemma bool_bytes: "bytes_of ''1'' = [0x31]" "bytes_of ''0'' = [0x30]"
  by (simp_all add: bytes_of_def)

lemma IsNull_bool: "\<not> IsNull env PT_BOOL (bytes_of (if b then ''1'' else ''0''))"
  by (cases b) (simp_all add: IsNull_def GetNullBytes_def bool_bytes)

lemmas IsNull_simps = IsNull_sentinel IsNull_sentinel64 IsNull_string IsNull_none IsNull_bool

lemma encode_nil:
  "t \<noteq> PT_MAP \<Longrightarrow> ConvertInterfaceToBytesSafe env GNil t st req = Ret (nil_bytes (GetNullBytes env t))"
  by (simp add: ConvertInterfaceToBytesSafe.simps)

lemma NewDateTime_Datetime: "v \<noteq> 0 \<Longrightarrow> ut_Datetime (NewDateTime local v) = v"
  by (simp add: NewDateTime_def Uint64ToTime_def Let_def)

lemma NewTimeStamp_GetTimeStamp: "GetTimeStamp (NewTimeStamp local s) = Ret (word_of_int s)"
  by (simp add: GetTimeStamp_def NewTimeStamp_def TimeToUltipaTime_def time_Unix_def Let_def)

lemma encode_scalar:
  "v \<noteq> GNil \<Longrightarrow> t \<noteq> PT_LIST \<Longrightarrow> t \<noteq> PT_SET
   \<Longrightarrow> ConvertInterfaceToBytesSafe env v t st req = serialize_scalar env v t req"
  by (subst ConvertInterfaceToBytesSafe.simps) simp

lemma decode_scalar:
  "\<not> IsNull env t bs \<Longrightarrow> t \<noteq> PT_LIST \<Longrightarrow> t \<noteq> PT_SET
   \<Longrightarrow> ConvertBytesToInterface env bs t st = convert_scalar env bs t"
  by (subst ConvertBytesToInterface.simps) simp

lemma decode_plain:
  "t \<noteq> PT_LIST \<Longrightarrow> t \<noteq> PT_SET \<Longrightarrow> ConvertBytesToInterface env bs t st
     = (if IsNull env t bs then Ret GNil else convert_scalar env bs t)"
  by (subst ConvertBytesToInterface.simps) simp

lemma encode_datetime:
  assumes "v = GTime u \<or> v = GTimePtr (Some u)"
  shows "\<exists>bs. ConvertInterfaceToBytesSafe env v PT_DATETIME st req = Ret bs
    \<and> ConvertBytesToInterface env bs PT_DATETIME st' = Ret (read_back env v PT_DATETIME)"
proof -
  have "ConvertInterfaceToBytesSafe env v PT_DATETIME st req = Ret (put_uint64 (ut_Datetime u))"
    using assms by (auto simp: encode_scalar serialize_scalar_def ConvertInterfaceToBytes_def)
  moreover have "ConvertBytesToInterface env (put_uint64 (ut_Datetime u)) PT_DATETIME st'
      = Ret (read_back env v PT_DATETIME)"
    using assms by (auto simp: decode_plain IsNull_simps convert_scalar_def dec_enc_simps
        time_sentinel_def time_read_def Let_def)
  ultimately show ?thesis by blast
qed

lemma encode_timestamp:
  assumes "v = GTime u \<or> v = GTimePtr (Some u)" "ut_Time u = Some x"
  shows "\<exists>bs. ConvertInterfaceToBytesSafe env v PT_TIMESTAMP st req = Ret bs
    \<and> ConvertBytesToInterface env bs PT_TIMESTAMP st' = Ret (read_back env v PT_TIMESTAMP)"
proof -
  have s: "GetTimeStamp u = Ret (word_of_int (gt_sec x))" using assms(2) by (simp add: GetTimeStamp_def)
  have "ConvertInterfaceToBytesSafe env v PT_TIMESTAMP st req = Ret (put_uint32 (word_of_int (gt_sec x)))"
    using assms(1) s by (auto simp: encode_scalar serialize_scalar_def ConvertInterfaceToBytes_def deref_timestamp_def)
  moreover have "ConvertBytesToInterface env (put_uint32 (word_of_int (gt_sec x))) PT_TIMESTAMP st'
      = Ret (read_back env v PT_TIMESTAMP)"
    using assms s by (auto simp: decode_plain IsNull_simps convert_scalar_def dec_enc_simps
        time_sentinel_def time_read_def uint_word_of_int_eq)
  ultimately show ?thesis by blast
qed

lemma encode_nil_scalar:
  assumes "t \<notin> {PT_LIST, PT_SET, PT_MAP}"
  shows "\<exists>bs. ConvertInterfaceToBytesSafe env GNil t st req = Ret bs
    \<and> ConvertBytesToInterface env bs t st' = Ret (read_back env GNil t)"
proof -
  have "ConvertBytesToInterface env (nil_bytes (GetNullBytes env t)) t st' = Ret (read_back env GNil t)"
    using assms by (cases t) (simp_all add: decode_plain IsNull_def nil_bytes_def GetNullBytes_def convert_scalar_def)
  then show ?thesis using assms by (simp add: encode_nil)
qed

lemma has_go_type_cases:
  assumes "has_go_type v t"
  obtains "v = GNil" "t \<notin> {PT_LIST, PT_SET, PT_MAP}"
    | u where "v = GTime u \<or> v = GTimePtr (Some u)" "t = PT_DATETIME"
    | u x where "v = GTime u \<or> v = GTimePtr (Some u)" "t = PT_TIMESTAMP" "ut_Time u = Some x"
    | w where "v = GInt32 w" "t = PT_INT32" | w where "v = GInt64 w" "t = PT_INT64"
    | w where "v = GUint32 w" "t = PT_UINT32" | w where "v = GUint64 w" "t = PT_UINT64"
    | w where "v = GFloat32 w" "t = PT_FLOAT" | w where "v = GFloat64 w" "t = PT_DOUBLE"
    | s where "v = GString s" "t = PT_STRING" | s where "v = GString s" "t = PT_TEXT"
    | s where "v = GString s" "t = PT_DECIMAL"
    | bs where "v = GBytes bs" "t = PT_BLOB" | b where "v = GBool b" "t = PT_BOOL"
  using assms by (cases "(v, t)" rule: has_go_type.cases) auto

lemma scalar_codec:
  assumes "has_go_type v t"
  shows "\<exists>bs. ConvertInterfaceToBytesSafe env v t st req = Ret bs
    \<and> ConvertBytesToInterface env bs t st' = Ret (read_back env v t)"
  using assms
proof (cases rule: has_go_type_cases)
  case 1
  from encode_nil_scalar [OF 1(2)] show ?thesis unfolding 1(1) .
next
  case 2
  then show ?thesis using encode_datetime by simp
next
  case 3
  then show ?thesis using encode_timestamp by simp
qed (simp_all add: encode_scalar decode_plain serialize_scalar_def ConvertInterfaceToBytes_def
      serializeDecimal_def doSerializeBool_def IsNull_simps convert_scalar_def dec_enc_simps
      AsString_def parse_bool_def)
lemma word_eq_simp: "(word_of_int (take_bit 32 k) :: 32 word) = word_of_int k"
  by (simp add: word_of_int_eq_iff)

lemma read_back_same: "has_go_type v t \<Longrightarrow> same_value v t (read_back env v t)"
  by (cases "(v, t)" rule: has_go_type.cases)
    (auto simp: word_eq_simp same_time_def time_read_def NewDateTime_Datetime NewTimeStamp_GetTimeStamp GetTimeStamp_seconds)

text \<open>
  Property C1. A value of the Go type of a property that is an integer, a float, a string, a
  text, a decimal, a blob, a boolean, a date-time or a timestamp is encoded without error, and
  its bytes decode to the same value, with these exceptions, all part of the statement: the one
  value whose encoding is the null sentinel of the type (the largest signed and unsigned
  integers, the all-ones float, date-time and timestamp, the one-byte string NUL) and the empty
  decimal decode to nil, and the date-time 0 decodes to the number 0. A time decodes to a
  pointer to a time with the same packed date-time, or for a timestamp with the same 32-bit
  seconds. Nil decodes to nil, of a blob to an empty blob. Points, lists, sets and maps are
  outside the statement: a point is written as text and read as two doubles, lists have a
  statement of their own.
\<close>

theorem scalar_roundtrip:
  assumes "has_go_type v t"
  shows "\<exists>bs r. ConvertInterfaceToBytesSafe env v t st req = Ret bs \<and>
    ConvertBytesToInterface env bs t st' = Ret r \<and> same_value v t r"
  using scalar_codec [OF assms, of env st req st'] read_back_same [OF assms] by blast

theorem scalar_roundtrip_witness:
  "\<exists>bs r. ConvertInterfaceToBytesSafe toy_env (GInt64 5) PT_INT64 [] None = Ret bs \<and>
    ConvertBytesToInterface toy_env bs PT_INT64 [] = Ret r \<and> r = GInt64 5"
  using scalar_roundtrip [of "GInt64 5" PT_INT64 toy_env "[]" None "[]"] by simp

text \<open>
  The encoder writes a point as its text, \<open>POINT(1.5 2.5)\<close>, and the decoder reads 16 bytes as
  two doubles: unless its text has exactly 16 bytes, what was written of a point is refused.
  The date-time 0 comes back as the number 0 and not as a time.
\<close>

lemma point_not_read_back:
  assumes "length (bytes_of (Point_String env p)) \<noteq> 16"
  shows "\<exists>bs. ConvertInterfaceToBytesSafe env (GPoint p) PT_POINT st req = Ret bs \<and>
    bs = bytes_of (Point_String env p) \<and>
    ConvertBytesToInterface env bs PT_POINT st'
      = Fail (Err ''deserialize point type error: length != 16'')"
proof -
  have "\<not> IsNull env PT_POINT (bytes_of (Point_String env p))"
    using assms by (auto simp: IsNull_def GetNullBytes_def dest: arg_cong [where f = length])
  then show ?thesis using assms
    by (simp add: encode_scalar serialize_scalar_def decode_scalar convert_scalar_def AsPointString_def)
qed
lemma datetime_zero_number:
  assumes "ut_Datetime u = 0"
  shows "\<exists>bs. ConvertInterfaceToBytesSafe env (GTime u) PT_DATETIME st req = Ret bs \<and>
    ConvertBytesToInterface env bs PT_DATETIME st' = Ret (GUint64 0)"
  using encode_datetime [of "GTime u" u env st req st'] assms by (auto simp: time_sentinel_def time_read_def)

text \<open>The types whose encoding has one width.\<close>

fun wire_width :: "property_type \<Rightarrow> nat option" where
  "wire_width PT_INT32 = Some 4"
| "wire_width PT_UINT32 = Some 4"
| "wire_width PT_FLOAT = Some 4"
| "wire_width PT_TIMESTAMP = Some 4"
| "wire_width PT_INT64 = Some 8"
| "wire_width PT_UINT64 = Some 8"
| "wire_width PT_DOUBLE = Some 8"
| "wire_width PT_DATETIME = Some 8"
| "wire_width t = None"

lemma IsNull_iff: "t \<noteq> PT_NULL \<Longrightarrow> IsNull env t bs \<longleftrightarrow> GetNullBytes env t = Some bs"
  by (cases "GetNullBytes env t") (auto simp: IsNull_def)

lemma null_roundtrip:
  assumes "IsNull env t bs" "t \<noteq> PT_NULL" "t \<noteq> PT_MAP"
  shows "ConvertBytesToInterface env bs t st = Ret GNil"
    "ConvertInterfaceToBytesSafe env GNil t st' req = Ret bs"
proof -
  show "ConvertBytesToInterface env bs t st = Ret GNil"
    using assms(1) by (subst ConvertBytesToInterface.simps) simp
  show "ConvertInterfaceToBytesSafe env GNil t st' req = Ret bs"
    using assms by (simp add: encode_nil IsNull_iff nil_bytes_def)
qed

lemma sentinel_width:
  "wire_width t = Some n \<Longrightarrow> IsNull env t bs \<Longrightarrow> length bs = n"
  by (cases t) (auto simp: IsNull_def GetNullBytes_def)

lemma decode_encode_fixed:
  assumes "wire_width t = Some (length bs)"
  shows "\<exists>v. ConvertBytesToInterface env bs t st = Ret v \<and>
    ConvertInterfaceToBytesSafe env v t st' req = Ret bs"
proof (cases "IsNull env t bs")
  case True
  have "t \<noteq> PT_NULL" "t \<noteq> PT_MAP" using assms by auto
  with True show ?thesis using null_roundtrip by blast
next
  case False
  consider "length bs = 4" "t \<in> {PT_INT32, PT_UINT32, PT_FLOAT, PT_TIMESTAMP}"
    | "length bs = 8" "t \<in> {PT_INT64, PT_UINT64, PT_DOUBLE, PT_DATETIME}"
    using assms by (cases t) auto
  then show ?thesis
  proof cases
    case 1
    with False show ?thesis
      by (auto simp: decode_scalar convert_scalar_def encode_scalar
          serialize_scalar_def ConvertInterfaceToBytes_def enc_dec_simps
          deref_timestamp_def NewTimeStamp_GetTimeStamp)
  next
    case 2
    then have "AsUint64 bs = 0 \<Longrightarrow> put_uint64 0 = bs"
      using as_uint64.enc_dec [of bs] by simp
    with 2 False show ?thesis
      by (auto simp: decode_scalar convert_scalar_def encode_scalar
          serialize_scalar_def ConvertInterfaceToBytes_def enc_dec_simps
          NewDateTime_Datetime Let_def)
  qed
qed

text \<open>
  The other direction: a buffer of the right width of a fixed-width type (any
  buffer for the strings) decodes to a value which encodes to the same bytes. So updating a
  row with the values it was read with leaves it unchanged, null sentinels and the zero
  date-time included.
\<close>


theorem bytes_roundtrip:
  assumes "wire_width t = Some (length bs) \<or> t = PT_STRING \<or> t = PT_TEXT"
  shows "\<exists>v. ConvertBytesToInterface env bs t st = Ret v \<and>
    ConvertInterfaceToBytesSafe env v t st' req = Ret bs"
proof (cases "wire_width t = Some (length bs)")
  case True
  then show ?thesis by (rule decode_encode_fixed)
next
  case False
  with assms have "t = PT_STRING \<or> t = PT_TEXT" by simp
  then show ?thesis
  proof (cases "IsNull env t bs")
    case True
    with \<open>t = PT_STRING \<or> t = PT_TEXT\<close> show ?thesis using null_roundtrip by blast
  next
    case False
    with \<open>t = PT_STRING \<or> t = PT_TEXT\<close> False show ?thesis
      by (auto simp: decode_scalar convert_scalar_def encode_scalar
          serialize_scalar_def ConvertInterfaceToBytes_def AsString_def)
  qed
qed

theorem bytes_roundtrip_witness:
  "\<exists>v. ConvertBytesToInterface toy_env (replicate 8 0) PT_DATETIME [] = Ret v \<and>
    ConvertInterfaceToBytesSafe toy_env v PT_DATETIME [] None = Ret (replicate 8 0)"
  by (rule bytes_roundtrip) simp

text \<open>
  A nil value is written as the null of its type and read back as nil, for every
  type but three: a map is refused, a nil blob reads back as an empty byte slice, and a nil set
  is written as no bytes, which are read as whatever an empty message decodes to.
\<close>

theorem nil_roundtrip:
  assumes "t \<noteq> PT_MAP" "t = PT_LIST \<Longrightarrow> is_ret (pb_marshal_list env \<lparr>pl_IsNull = True, pl_Values = []\<rparr>)"
  shows "\<exists>bs. ConvertInterfaceToBytesSafe env GNil t st req = Ret bs \<and>
    ConvertBytesToInterface env bs t st' =
      (if t = PT_BLOB then Ret (GBytes []) else if t = PT_SET then deserializeSet env [] st'
       else Ret GNil)"
  using assms
  by (cases t) (auto simp: encode_nil nil_bytes_def GetNullBytes_def
      ConvertBytesToInterface.simps IsNull_def convert_scalar_def getListNullValue_def is_ret_iff)

theorem nil_roundtrip_witness:
  "\<exists>bs. ConvertInterfaceToBytesSafe toy_env GNil PT_POINT [] None = Ret bs \<and>
    ConvertBytesToInterface toy_env bs PT_POINT [] = Ret GNil"
  using nil_roundtrip [of PT_POINT toy_env "[]" None "[]"] by simp

text \<open>
  A value of Go's own type \<open>int\<close> is written as its low 32 bits whatever the type
  of the property. In an int64 or uint64 property every such value, small or large, is stored
  in four bytes and reads back as 0; in an int32 property it reads back modulo 2^32 (nil for
  the sentinel).
\<close>

theorem go_int_value_lost:
  "\<exists>bs. ConvertInterfaceToBytesSafe env (GInt v) PT_INT64 st req = Ret bs \<and> length bs = 4 \<and>
     ConvertBytesToInterface env bs PT_INT64 st' = Ret (GInt64 0) \<and>
     ConvertBytesToInterface env bs PT_UINT64 st' = Ret (GUint64 0) \<and>
     ConvertBytesToInterface env bs PT_INT32 st'
       = Ret (if (ucast v :: 32 word) = 0x7FFFFFFF then GNil else GInt32 (ucast v))"
proof -
  have n: "\<not> IsNull env PT_INT64 (put_uint32 (ucast v))"
    "\<not> IsNull env PT_UINT64 (put_uint32 (ucast v))"
    using sentinel_width [of PT_INT64 8 env "put_uint32 (ucast v)"]
      sentinel_width [of PT_UINT64 8 env "put_uint32 (ucast v)"] by auto
  show ?thesis
    using n by (simp add: encode_scalar serialize_scalar_def ConvertInterfaceToBytes_def
        decode_scalar convert_scalar_def AsInt64_def AsUint64_def read_be_short)
      (simp add: ConvertBytesToInterface.simps IsNull_simps convert_scalar_def dec_enc_simps)
qed

section \<open>Lists\<close>

text \<open>
  What the encoder relies on in the protobuf package: a marshalled list message unmarshals to
  the message, and marshalling one does not fail.
\<close>

definition pb_list_laws :: "'a env_scheme \<Rightarrow> bool" where
  "pb_list_laws env \<longleftrightarrow>
     (\<forall>m. \<exists>bs. pb_marshal_list env m = Ret bs \<and> pb_unmarshal_list env bs = Ret m)"

lemma pb_list_lawsD:
  assumes "pb_list_laws env"
  obtains bs where "pb_marshal_list env m = Ret bs" "pb_unmarshal_list env bs = Ret m"
  using assms unfolding pb_list_laws_def by blast

lemma list_not_null:
  assumes "pb_list_laws env" "pb_unmarshal_list env bs = Ret m" "\<not> pl_IsNull m"
  shows "\<not> IsNull env PT_LIST bs"
proof
  assume n: "IsNull env PT_LIST bs"
  obtain nb where nb: "pb_marshal_list env \<lparr>pl_IsNull = True, pl_Values = []\<rparr> = Ret nb"
      "pb_unmarshal_list env nb = Ret \<lparr>pl_IsNull = True, pl_Values = []\<rparr>"
    using pb_list_lawsD [OF assms(1)] by metis
  with n have "bs = nb" by (simp add: IsNull_def GetNullBytes_def getListNullValue_def)
  with nb assms(2,3) show False by auto
qed

lemma encode_elements:
  assumes "list_all (\<lambda>v. has_go_type v s) vs"
  shows "\<exists>bss. go_map (\<lambda>v. ConvertInterfaceToBytesSafe env v s [] req) vs = Ret bss \<and>
    go_map (\<lambda>b. ConvertBytesToInterface env b s []) bss = Ret (map (\<lambda>v. read_back env v s) vs)"
  using assms
proof (induction vs)
  case Nil
  then show ?case by simp
next
  case (Cons v vs)
  then obtain bss where
    "go_map (\<lambda>v. ConvertInterfaceToBytesSafe env v s [] req) vs = Ret bss"
    "go_map (\<lambda>b. ConvertBytesToInterface env b s []) bss = Ret (map (\<lambda>v. read_back env v s) vs)"
    by auto
  moreover obtain bs where "ConvertInterfaceToBytesSafe env v s [] req = Ret bs"
    "ConvertBytesToInterface env bs s [] = Ret (read_back env v s)"
    using Cons.prems scalar_codec [of v s env "[]" req "[]"] by auto
  ultimately show ?case by (intro exI [of _ "bs # bss"]) simp
qed

text \<open>
  Property C12. A list whose elements are values of the subtype of the property, each as the
  statement on scalars has them (integers, floats, strings, texts, decimals, blobs, booleans,
  date-times, timestamps, or nil; no points and no lists in the list), is encoded element by
  element and decodes to a list of as many elements, each the same value as a scalar would be
  (a sentinel element becomes nil, the date-time 0 the number 0); an empty list stays an empty
  list and is not mistaken for the null list. Only the first subtype matters. It rests on the
  protobuf package: a marshalled list message unmarshals to the message.
\<close>

theorem list_roundtrip:
  assumes "pb_list_laws env" "list_all (\<lambda>v. has_go_type v s) vs"
  shows "\<exists>bs rs. ConvertInterfaceToBytesSafe env (GSlice vs) PT_LIST (s # ss) req = Ret bs \<and>
    ConvertBytesToInterface env bs PT_LIST (s # ss') = Ret (GSlice rs) \<and>
    list_all2 (\<lambda>v r. same_value v s r) vs rs"
proof -
  obtain bss where bss:
    "go_map (\<lambda>v. ConvertInterfaceToBytesSafe env v s [] req) vs = Ret bss"
    "go_map (\<lambda>b. ConvertBytesToInterface env b s []) bss = Ret (map (\<lambda>v. read_back env v s) vs)"
    using encode_elements [OF assms(2)] by blast
  obtain bs where bs: "pb_marshal_list env \<lparr>pl_IsNull = False, pl_Values = bss\<rparr> = Ret bs"
      "pb_unmarshal_list env bs = Ret \<lparr>pl_IsNull = False, pl_Values = bss\<rparr>"
    using pb_list_lawsD [OF assms(1)] by blast
  have "ConvertInterfaceToBytesSafe env (GSlice vs) PT_LIST (s # ss) req = Ret bs"
    by (subst ConvertInterfaceToBytesSafe.simps) (simp add: SerializeListData.simps bss(1) bs(1))
  moreover have "\<not> IsNull env PT_LIST bs" using list_not_null [OF assms(1) bs(2)] by simp
  then have "ConvertBytesToInterface env bs PT_LIST (s # ss')
      = Ret (GSlice (map (\<lambda>v. read_back env v s) vs))"
    using bss(2) by (subst ConvertBytesToInterface.simps)
      (auto simp: deserializeList.simps bs(2))
  moreover have "list_all2 (\<lambda>v r. same_value v s r) vs (map (\<lambda>v. read_back env v s) vs)"
    using assms(2) by (induction vs) (auto intro: read_back_same)
  ultimately show ?thesis by blast
qed

lemma takeWhile_replicate_ones: "takeWhile (\<lambda>b. b \<noteq> 0) (replicate n (1 :: byte) @ 0 # r) = replicate n 1"
  by (induction n) auto

lemma toy_values_concat:
  "length vs \<le> k \<Longrightarrow> toy_values k (concat (map (\<lambda>v. replicate (length v) 1 @ 0 # v) vs)) = vs"
proof (induction vs arbitrary: k)
  case Nil
  then show ?case by (cases k) auto
next
  case (Cons v vs)
  then obtain j where "k = Suc j" "length vs \<le> j" by (cases k) auto
  then show ?case using Cons.IH [of j]
    by (simp add: takeWhile_replicate_ones Let_def)
qed

lemma length_le_concat: "(\<And>v. v \<in> set vs \<Longrightarrow> f v \<noteq> []) \<Longrightarrow> length vs \<le> length (concat (map f vs))"
proof (induction vs)
  case Nil
  then show ?case by simp
next
  case (Cons v vs)
  then have "1 \<le> length (f v)" by (cases "f v") auto
  with Cons show ?case by simp
qed

lemma toy_laws: "pb_list_laws toy_env"
proof -
  have "toy_get (b # concat (map (\<lambda>v. replicate (length v) 1 @ 0 # v) vs))
      = Ret \<lparr>pl_IsNull = (b = 1), pl_Values = vs\<rparr>" for b :: byte and vs :: "bytes list"
  proof -
    have "length vs \<le> length (b # concat (map (\<lambda>v. replicate (length v) 1 @ 0 # v) vs))"
      using length_le_concat [of vs "\<lambda>v. replicate (length v) 1 @ 0 # v"] by simp
    from toy_values_concat [OF this] show ?thesis by (simp add: toy_get_def)
  qed
  then show ?thesis
    by (auto simp: pb_list_laws_def toy_env_def toy_put_def intro: pb_list.equality)
qed

theorem list_roundtrip_witness:
  "\<exists>bs. ConvertInterfaceToBytesSafe toy_env (GSlice [GInt32 7, GInt32 0x7FFFFFFF, GNil]) PT_LIST
      [PT_INT32] None = Ret bs \<and>
    ConvertBytesToInterface toy_env bs PT_LIST [PT_INT32] = Ret (GSlice [GInt32 7, GNil, GNil])"
  using list_roundtrip [OF toy_laws, of PT_INT32 "[GInt32 7, GInt32 0x7FFFFFFF, GNil]" "[]" None "[]"]
  by (auto simp: list_all2_Cons1)

section \<open>Decoding does not panic\<close>

definition no_panic :: "'a go \<Rightarrow> bool" where
  "no_panic m = (case m of Panic p \<Rightarrow> False | _ \<Rightarrow> True)"

lemma no_panic_simps [simp]:
  "no_panic (Ret x)" "no_panic (Fail e)" "\<not> no_panic (Panic p)"
  by (simp_all add: no_panic_def)

lemma no_panic_bind [intro]:
  "no_panic m \<Longrightarrow> (\<And>x. m = Ret x \<Longrightarrow> no_panic (f x)) \<Longrightarrow> no_panic (go_bind m f)"
  by (cases m) auto

lemma no_panic_lift [simp]: "no_panic (go_lift f m) \<longleftrightarrow> no_panic m"
  by (cases m) auto

lemma no_panic_err_val [simp]: "no_panic (err_val r)"
  by (cases r; cases "snd r") (auto simp: no_panic_def)

lemma no_panic_map: "(\<And>x. x \<in> set xs \<Longrightarrow> no_panic (f x)) \<Longrightarrow> no_panic (go_map f xs)"
  by (induction xs) (auto intro!: no_panic_bind)

lemma PointFromStr_no_panic [simp]: "no_panic (PointFromStr env s)"
  by (auto simp: PointFromStr_def intro!: no_panic_bind split: option.splits)

lemma convert_scalar_no_panic [simp]: "no_panic (convert_scalar env bs t)"
proof (cases t)
  case PT_POINT
  have "no_panic (AsPointString env bs)" by (simp add: AsPointString_def Let_def)
  then show ?thesis
    by (cases "AsPointString env bs") (simp_all add: convert_scalar_def PT_POINT)
qed (simp_all add: convert_scalar_def Let_def)

text \<open>
  Decoding the bytes of a property never panics, whatever the bytes are (short, long, or a
  malformed message), when the property is no list or set, or is one of a scalar subtype.
\<close>

definition subtypes_ok :: "property_type \<Rightarrow> property_type list \<Rightarrow> bool" where
  "subtypes_ok t st =
     ((t = PT_LIST \<or> t = PT_SET) \<longrightarrow> st \<noteq> [] \<and> hd st \<noteq> PT_LIST \<and> hd st \<noteq> PT_SET)"

definition decoders_ok :: "'a env_scheme \<Rightarrow> bool" where
  "decoders_ok env \<longleftrightarrow> (\<forall>bs. no_panic (pb_unmarshal_list env bs) \<and> no_panic (pb_unmarshal_set env bs))"

lemma ConvertBytesToInterface_no_panic:
  assumes "decoders_ok env" "subtypes_ok t st"
  shows "no_panic (ConvertBytesToInterface env bs t st)"
proof -
  have e: "no_panic (ConvertBytesToInterface env b s [])" if "s \<noteq> PT_LIST" "s \<noteq> PT_SET" for b s
    by (subst ConvertBytesToInterface.simps) (simp add: that)
  have els: "no_panic (go_map (\<lambda>b. ConvertBytesToInterface env b (hd st) []) bss)"
    if "t = PT_LIST \<or> t = PT_SET" for bss
    using assms(2) that e unfolding subtypes_ok_def by (intro no_panic_map) blast
  have st: "\<exists>s ss. st = s # ss" if "t = PT_LIST \<or> t = PT_SET"
    using assms(2) that by (cases st) (auto simp: subtypes_ok_def)
  have um: "no_panic (pb_unmarshal_list env bs)" "no_panic (pb_unmarshal_set env bs)"
    using assms(1) by (simp_all add: decoders_ok_def)
  consider "t = PT_LIST" | "t = PT_SET" | "t \<noteq> PT_LIST" "t \<noteq> PT_SET" by blast
  then show ?thesis
  proof cases
    case 1
    then show ?thesis using els st um(1)
      by (subst ConvertBytesToInterface.simps) (auto simp: deserializeList.simps)
  next
    case 2
    then show ?thesis using els st um(2)
      by (subst ConvertBytesToInterface.simps) (auto simp: deserializeSet.simps)
  next
    case 3
    then show ?thesis by (subst ConvertBytesToInterface.simps) simp
  qed
qed

lemma toy_decoders_ok: "decoders_ok toy_env"
  by (simp add: decoders_ok_def toy_env_def toy_get_def)

section \<open>Offsets of a request's time zone\<close>

definition two_digits :: "nat \<Rightarrow> gostring" where
  "two_digits n = [digit (n div 10), digit (n mod 10)]"

definition offset_string :: "char \<Rightarrow> nat \<Rightarrow> nat \<Rightarrow> gostring" where
  "offset_string sg h m = sg # two_digits h @ '':'' @ two_digits m"

lemma digit_neq:
  assumes "d < 10"
  shows "digit d \<noteq> CHR '':''" "digit d \<noteq> CHR ''-''" "digit d \<noteq> CHR ''+''"
  using is_digit_digit [OF assms] by (auto simp: is_digit_def)

lemma parse_two_digits:
  assumes "h < 100" "m < 100" "9999 \<le> mx"
  shows "parse_digits mx 0 (two_digits h @ two_digits m) = (h * 100 + m, None)"
proof -
  have "h div 10 * 10 + h mod 10 = h" "m div 10 * 10 + m mod 10 = m" by simp_all
  moreover have "h div 10 < 10" "m div 10 < 10" using assms by simp_all
  ultimately show ?thesis using assms
    by (simp add: two_digits_def of_char_digit Let_def)
qed

lemma parse_offset:
  assumes "h < 100" "m < 100" "sg = CHR ''+'' \<or> sg = CHR ''-''"
  shows "parse_int (sg # two_digits h @ two_digits m) 64
    = ((if sg = CHR ''-'' then - 1 else 1) * (int h * 100 + int m), None)"
proof -
  have "parse_uint (two_digits h @ two_digits m) 64 = (h * 100 + m, None)"
    using parse_two_digits [OF assms(1,2), of "2 ^ 64 - 1"]
    by (simp add: parse_uint_def two_digits_def)
  then show ?thesis using assms by (auto simp: parse_int_def Let_def)
qed

lemma remove_colon_offset:
  assumes "h < 100" "m < 100" "sg = CHR ''+'' \<or> sg = CHR ''-''"
  shows "remove_char (CHR '':'') (offset_string sg h m) = sg # two_digits h @ two_digits m"
proof -
  have "h div 10 < 10" "m div 10 < 10" "h mod 10 < 10" "m mod 10 < 10" using assms by simp_all
  then show ?thesis
    using assms(3) by (auto simp: remove_char_def offset_string_def two_digits_def digit_neq)
qed

text \<open>
  The offset a request's time zone \<open>+HH:MM\<close> or \<open>-HH:MM\<close> stands for: the number
  HHMM times 36 seconds, so HH hours and MM times 36 seconds. Whole hours are exact; with
  minutes the offset is short of the real one by 24 seconds a minute (\<open>+05:30\<close> is taken as
  5 h 18 min).
\<close>

theorem timezone_offset:
  assumes "h < 24" "m < 60" "h \<noteq> 0 \<or> m \<noteq> 0" "sg = CHR ''+'' \<or> sg = CHR ''-''"
  shows "getLocationFromTimezone env (offset_string sg h m)
    = Some (FixedZone ((if sg = CHR ''-'' then - 1 else 1)
        * (int h * 3600 + int m * 60 - int m * 24)))"
proof -
  have hm: "h < 100" "m < 100" using assms by simp_all
  have c: "IsTimezoneOffsetCandidate (offset_string sg h m)" "contains (offset_string sg h m) '':''"
    using assms(4) by (auto simp: IsTimezoneOffsetCandidate_def has_prefix_def offset_string_def
        contains_iff intro: exI [of _ "sg # two_digits h"])
  define k where "k = (if sg = CHR ''-'' then - 1 else 1) * (int h * 100 + int m)"
  have k: "k \<noteq> 0" "- 3000 < k" "k < 3000" using assms(1-3) by (auto simp: k_def)
  have w: "sint (word_of_int (k * 36) :: 64 word) = k * 36"
    using k(2,3) by (subst sint_sbintrunc') (simp add: signed_take_bit_int_eq_self)
  show ?thesis
    using c parse_offset [OF hm assms(4)] remove_colon_offset [OF hm assms(4)] k(1) w
    by (simp add: getLocationFromTimezone_def Let_def flip: k_def) (simp add: k_def algebra_simps)
qed

theorem timezone_offset_witness:
  "getLocationFromTimezone toy_env ''+05:30'' = Some (FixedZone 19080)"
proof -
  have "offset_string (CHR ''+'') 5 30 = ''+05:30''"
    by code_simp
  then show ?thesis using timezone_offset [of 5 30 "CHR ''+''" toy_env] by simp
qed

end
