(* ===== verification/Pool.thy ===== *)
theory Pool
  imports Serilizer
begin

text \<open>
  \<open>sdk/connection\<close>: the connection pool. Connections are named by their host; a connection that
  could not be dialled is stored as nil. The network is an argument: what dialling a host, its
  certificate lookup, and its answer to the greeting give. Refreshing the active connections
  runs one goroutine per connection without a lock on the list they all append to, so it is a
  step relation over the goroutines' program counters; the order in which Go enumerates the
  map of connections and the schedule are arguments. A second step relation lets a greeting keep its
  goroutine waiting, for ever unless its context has a deadline.
\<close>

section \<open>Connections\<close>

datatype credentials = SystemTLS | Insecure | CustomCA bytes

record connection =
  cn_Host :: gostring
  cn_Config :: ultipa_config

record network =
  nw_certificate :: "gostring \<Rightarrow> bool"
  nw_dial :: "gostring \<Rightarrow> credentials \<Rightarrow> int64 \<Rightarrow> go_error option"
  nw_close :: "gostring \<Rightarrow> go_error option"

text \<open>
  The certificate a host presents: the handshake gives the chain or fails, and the first certificate
  of the chain is taken. Of it \<open>NewConnection\<close> only asks whether there is one.
\<close>

definition GetCertificate :: "(gostring \<Rightarrow> 'c list go) \<Rightarrow> gostring \<Rightarrow> 'c option" where
  "GetCertificate handshake host =
     (case handshake host of
        Ret certs \<Rightarrow> (if length certs = 0 then None else Some (certs ! 0))
      | _ \<Rightarrow> None)"

text \<open>\<open>NewConnection\<close> also sets the default receive size in the shared configuration.\<close>

definition NewConnection ::
  "network \<Rightarrow> gostring \<Rightarrow> ultipa_config \<Rightarrow> ultipa_config \<times> connection go" where
  "NewConnection nw host config =
     (if length (uc_Hosts config) < 1 then (config, Fail (Err ''hosts can not be empty''))
      else
        let config = (if uc_MaxRecvSize config = 0
                      then config\<lparr>uc_MaxRecvSize := DefaultRecvSize\<rparr> else config);
            cred = (case uc_Crt config of
                None \<Rightarrow> if nw_certificate nw host then SystemTLS else Insecure
              | Some crt \<Rightarrow> CustomCA crt)
        in (config, case nw_dial nw host cred (uc_MaxRecvSize config) of
              Some e \<Rightarrow> Fail e
            | None \<Rightarrow> Ret \<lparr>cn_Host = host, cn_Config = config\<rparr>))"

text \<open>A context: the headers it carries and its deadline in seconds, if it has one.\<close>

record go_context =
  cx_headers :: "gostring list"
  cx_timeout :: "int option"

definition NewContext ::
  "'a env_scheme \<Rightarrow> int \<Rightarrow> ultipa_config \<Rightarrow> request_config option \<Rightarrow> go_context go" where
  "NewContext env zone cfg config =
     (let bad_zone = (case config of
            None \<Rightarrow> False
          | Some c \<Rightarrow> rc_Timezone c \<noteq> [] \<and> te_load_location env (rc_Timezone c) = None);
          config = (case config of None \<Rightarrow> empty_request_config | Some c \<Rightarrow> c)
      in if bad_zone then Fail (ErrLibrary ''time.LoadLocation'')
         else
           let timeout = rc_Timeout config;
               timeout = (if timeout = 0 then uc_Timeout cfg else timeout);
               timeout = (if timeout = 0 then DefaultTimeout else timeout)
           in Ret \<lparr>cx_headers = ToContextKV zone cfg (Some config),
                  cx_timeout = (if timeout <s 0 then None
                    else if timeout <s 10 then Some 10 else Some (sint timeout))\<rparr>)"

section \<open>The pool\<close>

datatype server_status = DEAD | ALIVE

record pool =
  cp_Config :: ultipa_config
  cp_Connections :: "gostring \<rightharpoonup> connection option"
  cp_RandomTick :: int64
  cp_Actives :: "gostring option list"
  cp_Status :: "gostring \<Rightarrow> server_status"
  cp_LastActivesTime :: int

fun create_connections ::
  "network \<Rightarrow> gostring list \<Rightarrow> pool \<Rightarrow> pool" where
  "create_connections nw [] pool = pool"
| "create_connections nw (host # hosts) pool =
     (let r = NewConnection nw host (cp_Config pool);
          conn = (case snd r of Ret c \<Rightarrow> Some c | _ \<Rightarrow> None)
      in create_connections nw hosts
           (pool\<lparr>cp_Config := fst r, cp_Connections := (cp_Connections pool)(host \<mapsto> conn)\<rparr>))"

definition CreateConnections :: "network \<Rightarrow> pool \<Rightarrow> pool" where
  "CreateConnections nw pool = create_connections nw (uc_Hosts (cp_Config pool)) pool"

section \<open>Refreshing the active connections\<close>

text \<open>The answer of a host to the greeting.\<close>

datatype hello =
    HelloError go_error
  | HelloNoStatus
  | HelloStatus error_code gostring

definition wrong_password :: gostring where
  "wrong_password = ''username does not exist or password is wrong''"

definition answers :: "hello \<Rightarrow> bool" where
  "answers h = (case h of HelloNoStatus \<Rightarrow> True | HelloStatus c m \<Rightarrow> c = SUCCESS | HelloError e \<Rightarrow> False)"

definition hello_error :: "hello \<Rightarrow> go_error" where
  "hello_error h = (case h of HelloError e \<Rightarrow> e | HelloStatus c m \<Rightarrow> Err m | HelloNoStatus \<Rightarrow> Err [])"

definition aborts :: "hello \<Rightarrow> bool" where
  "aborts h = (case h of HelloStatus c m \<Rightarrow> c = PERMISSION_DENIED \<and> contains m wrong_password
     | _ \<Rightarrow> False)"

text \<open>
  The loop starts one goroutine per connection; its variable \<open>idx\<close> is one variable for all
  iterations (the module is built with Go 1.13), which the goroutines read when they store
  their error. A goroutine greets its host; on success it reads the shared list of connections
  and later stores the list with its own appended, two steps between which others may run.
  A list is a value here: that two goroutines may also write the same slot of a shared backing
  array is not modelled.
\<close>

datatype pc = Greeting | Appending "gostring option list" | Finished

datatype actor = Loop | Goroutine nat

record refresh =
  rf_Actives :: "gostring option list"
  rf_Status :: "gostring \<Rightarrow> server_status"
  rf_Idx :: nat
  rf_Errors :: "nat \<Rightarrow> go_error option"
  rf_GroupError :: "go_error option"
  rf_Pc :: "nat \<Rightarrow> pc"

definition refresh_start :: "(gostring \<Rightarrow> server_status) \<Rightarrow> refresh" where
  "refresh_start st = \<lparr>rf_Actives = [], rf_Status = st, rf_Idx = 0, rf_Errors = (\<lambda>_. None),
     rf_GroupError = None, rf_Pc = (\<lambda>_. Greeting)\<rparr>"

definition greet_ok :: "gostring \<Rightarrow> nat \<Rightarrow> refresh \<Rightarrow> refresh" where
  "greet_ok host i s = s\<lparr>rf_Status := (rf_Status s)(host := ALIVE),
     rf_Pc := (rf_Pc s)(i := Appending (rf_Actives s))\<rparr>"

definition greet_failed :: "gostring \<Rightarrow> hello \<Rightarrow> nat \<Rightarrow> refresh \<Rightarrow> refresh" where
  "greet_failed host h i s = s\<lparr>rf_Status := (rf_Status s)(host := DEAD),
     rf_Errors := (rf_Errors s)(rf_Idx s := Some (hello_error h)),
     rf_GroupError := (if aborts h \<and> rf_GroupError s = None
                       then Some (hello_error h) else rf_GroupError s),
     rf_Pc := (rf_Pc s)(i := Finished)\<rparr>"

definition append_active :: "gostring \<Rightarrow> gostring option list \<Rightarrow> nat \<Rightarrow> refresh \<Rightarrow> refresh" where
  "append_active host seen i s = s\<lparr>rf_Actives := seen @ [Some host],
     rf_Errors := (rf_Errors s)(rf_Idx s := None), rf_Pc := (rf_Pc s)(i := Finished)\<rparr>"

inductive refresh_step ::
  "(gostring \<Rightarrow> hello) \<Rightarrow> gostring list \<Rightarrow> refresh \<Rightarrow> refresh \<Rightarrow> bool"
  for hello :: "gostring \<Rightarrow> hello" and hosts :: "gostring list"
  where
  next_iteration: "rf_Idx s + 1 < length hosts \<Longrightarrow>
     refresh_step hello hosts s (s\<lparr>rf_Idx := rf_Idx s + 1\<rparr>)"
| greeted: "i < length hosts \<Longrightarrow> i \<le> rf_Idx s \<Longrightarrow> rf_Pc s i = Greeting \<Longrightarrow>
     answers (hello (hosts ! i)) \<Longrightarrow> refresh_step hello hosts s (greet_ok (hosts ! i) i s)"
| failed: "i < length hosts \<Longrightarrow> i \<le> rf_Idx s \<Longrightarrow> rf_Pc s i = Greeting \<Longrightarrow>
     \<not> answers (hello (hosts ! i)) \<Longrightarrow>
     refresh_step hello hosts s (greet_failed (hosts ! i) (hello (hosts ! i)) i s)"
| stored: "i < length hosts \<Longrightarrow> rf_Pc s i = Appending seen \<Longrightarrow>
     refresh_step hello hosts s (append_active (hosts ! i) seen i s)"

text \<open>One step of an actor; an actor that has not started or has ended does nothing.\<close>

definition refresh_exec :: "(gostring \<Rightarrow> hello) \<Rightarrow> gostring list \<Rightarrow> actor \<Rightarrow> refresh \<Rightarrow> refresh" where
  "refresh_exec hello hosts a s =
     (case a of
        Loop \<Rightarrow> if rf_Idx s + 1 < length hosts then s\<lparr>rf_Idx := rf_Idx s + 1\<rparr> else s
      | Goroutine i \<Rightarrow>
          if length hosts \<le> i then s
          else case rf_Pc s i of
            Greeting \<Rightarrow>
              if rf_Idx s < i then s
              else if answers (hello (hosts ! i)) then greet_ok (hosts ! i) i s
              else greet_failed (hosts ! i) (hello (hosts ! i)) i s
          | Appending seen \<Rightarrow> append_active (hosts ! i) seen i s
          | Finished \<Rightarrow> s)"

text \<open>
  A schedule is followed first; then the loop runs to its end, and \<open>Wait\<close> lets every goroutine
  that is left run to its own, in the order of their numbers.
\<close>

definition complete :: "gostring list \<Rightarrow> actor list \<Rightarrow> actor list" where
  "complete hosts schedule = schedule @ replicate (length hosts) Loop
     @ concat (map (\<lambda>i. [Goroutine i, Goroutine i]) [0..<length hosts])"

definition refresh_run ::
  "(gostring \<Rightarrow> hello) \<Rightarrow> gostring list \<Rightarrow> actor list \<Rightarrow> refresh \<Rightarrow> refresh" where
  "refresh_run hello hosts schedule s = fold (refresh_exec hello hosts) schedule s"

fun connections_verdict :: "go_error option list \<Rightarrow> bool \<Rightarrow> unit go" where
  "connections_verdict [] isTcpErr =
     (if isTcpErr then Fail (Err (''transport: Error while dialing dial tcp with all hosts: ''
          @ ''No connection could be made because the target machine actively refused''))
      else Fail (Err ''failed to connect to all hosts''))"
| "connections_verdict (None # errs) isTcpErr = Ret ()"
| "connections_verdict (Some e # errs) isTcpErr =
     connections_verdict errs (isTcpErr \<and> contains
       (case e of Err m \<Rightarrow> m | ErrSyntax m \<Rightarrow> m | ErrRange m \<Rightarrow> m | ErrLibrary m \<Rightarrow> m)
       ''Error while dialing dial tcp'')"

text \<open>
  A nil connection is dereferenced by its goroutine, which ends the process. The deferred
  update of the time runs on every exit after the guard.
\<close>

definition RefreshActivesWithSeconds ::
  "int \<Rightarrow> int \<Rightarrow> (gostring \<Rightarrow> hello) \<Rightarrow> gostring list \<Rightarrow> actor list \<Rightarrow> pool \<Rightarrow> pool \<times> unit go" where
  "RefreshActivesWithSeconds now later hello hosts schedule pool =
     (if now - cp_LastActivesTime pool \<le> 5 * 1000000000
          \<and> card (dom (cp_Connections pool)) = length (cp_Actives pool)
      then (pool, Ret ())
      else if list_ex (\<lambda>h. cp_Connections pool h = Some None) hosts
      then (pool\<lparr>cp_Actives := []\<rparr>, Panic NilDeref)
      else
        let s = refresh_run hello hosts (complete hosts schedule) (refresh_start (cp_Status pool));
            pool' = pool\<lparr>cp_Actives := rf_Actives s, cp_Status := rf_Status s,
                         cp_LastActivesTime := later\<rparr>
        in (pool', case rf_GroupError s of
              Some e \<Rightarrow> Fail e
            | None \<Rightarrow> connections_verdict (map (rf_Errors s) [0..<length hosts]) True))"

definition doRefreshClusterInfo :: "pool \<Rightarrow> unit go" where
  "doRefreshClusterInfo pool =
     (if length (cp_Actives pool) < 1 then Fail (Err ''no active connection is found'')
      else if list_all (\<lambda>c. c = None) (cp_Actives pool)
      then Fail (Err ''no active connection exists'')
      else Ret ())"

text \<open>Its errors are never the leader error, so \<open>RefreshClusterInfo\<close> returns them at once.\<close>

definition RefreshClusterInfo :: "pool \<Rightarrow> unit go" where
  "RefreshClusterInfo pool = doRefreshClusterInfo pool"

text \<open>A pool before its connections are made; its time is the zero time.\<close>

definition fresh_pool :: "ultipa_config \<Rightarrow> pool" where
  "fresh_pool config = \<lparr>cp_Config = config, cp_Connections = Map.empty, cp_RandomTick = 0,
     cp_Actives = [], cp_Status = (\<lambda>_. DEAD), cp_LastActivesTime = - 62135596800 * 1000000000\<rparr>"

definition NewConnectionPool ::
  "network \<Rightarrow> int \<Rightarrow> int \<Rightarrow> (gostring \<Rightarrow> hello) \<Rightarrow> gostring list \<Rightarrow> actor list \<Rightarrow> ultipa_config
   \<Rightarrow> pool go" where
  "NewConnectionPool nw now later hello hosts schedule config =
     (if length (uc_Hosts config) < 1 then Fail (Err ''error Hosts can not by empty'')
      else
        let pool = CreateConnections nw (fresh_pool config);
            r = RefreshActivesWithSeconds now later hello hosts schedule pool
        in go_bind (snd r) (\<lambda>_. go_bind (RefreshClusterInfo (fst r)) (\<lambda>_. Ret (fst r))))"

section \<open>Choosing and closing connections\<close>

text \<open>
  The counter is a 64-bit \<open>int\<close> that wraps; Go's remainder has the sign of the dividend, and a
  negative index panics.
\<close>

definition go_rem :: "int \<Rightarrow> int \<Rightarrow> int" where
  "go_rem a b = sgn a * (\<bar>a\<bar> mod \<bar>b\<bar>)"

definition GetRandomConn :: "pool \<Rightarrow> pool \<times> gostring go" where
  "GetRandomConn pool =
     (if length (cp_Actives pool) < 1 then (pool, Fail (Err ''no active connection is found''))
      else
        let pool = pool\<lparr>cp_RandomTick := cp_RandomTick pool + 1\<rparr>;
            i = go_rem (sint (cp_RandomTick pool)) (int (length (cp_Actives pool)))
        in if i < 0 then (pool, Panic IndexOutOfRange)
           else (pool, go_bind (go_nth (cp_Actives pool) (nat i)) (\<lambda>c.
                  case c of None \<Rightarrow> Fail (Err ''Random Actived Connection is nil'')
                          | Some h \<Rightarrow> Ret h)))"

definition GetConn :: "pool \<Rightarrow> pool \<times> gostring go" where
  "GetConn pool = GetRandomConn pool"

definition ClosePool :: "network \<Rightarrow> (gostring \<times> connection option) list \<Rightarrow> unit go" where
  "ClosePool nw conns =
     go_fold (\<lambda>(host, c) u. go_bind (deref c) (\<lambda>x.
       case nw_close nw host of Some e \<Rightarrow> Fail e | None \<Rightarrow> Ret ())) conns ()"

section \<open>Invariants of the refresh\<close>

inductive_cases refresh_stepE: "refresh_step hello hosts s t"

lemma refresh_exec_step:
  "refresh_exec hello hosts a s = s \<or> refresh_step hello hosts s (refresh_exec hello hosts a s)"
proof (cases a)
  case Loop
  then show ?thesis using next_iteration [of s hosts hello] by (auto simp: refresh_exec_def)
next
  case (Goroutine i)
  then show ?thesis
    by (auto simp: refresh_exec_def not_le not_less split: pc.split intro: refresh_step.intros)
qed

lemma refresh_run_steps: "(refresh_step hello hosts)\<^sup>*\<^sup>* s (refresh_run hello hosts schedule s)"
proof (induction schedule arbitrary: s)
  case Nil
  then show ?case by (simp add: refresh_run_def)
next
  case (Cons a schedule)
  have "(refresh_step hello hosts)\<^sup>*\<^sup>* s (refresh_exec hello hosts a s)"
    using refresh_exec_step [of hello hosts a s] by (metis r_into_rtranclp rtranclp.rtrancl_refl)
  with Cons [of "refresh_exec hello hosts a s"] show ?case by (simp add: refresh_run_def)
qed

text \<open>
  The active connections, and every list a goroutine has read, hold hosts that answered, each
  at most once; a goroutine that still has to store its list is not yet on any.
\<close>

definition listed_ok ::
  "(gostring \<Rightarrow> hello) \<Rightarrow> gostring list \<Rightarrow> (nat \<Rightarrow> pc) \<Rightarrow> gostring option list \<Rightarrow> bool" where
  "listed_ok hello hosts pcs l \<longleftrightarrow> distinct l \<and>
     (\<forall>c \<in> set l. \<exists>i < length hosts. c = Some (hosts ! i) \<and> answers (hello (hosts ! i))
        \<and> pcs i = Finished)"

definition refresh_inv :: "(gostring \<Rightarrow> hello) \<Rightarrow> gostring list \<Rightarrow> refresh \<Rightarrow> bool" where
  "refresh_inv hello hosts s \<longleftrightarrow>
     listed_ok hello hosts (rf_Pc s) (rf_Actives s) \<and>
     (\<forall>i seen. rf_Pc s i = Appending seen \<longrightarrow>
        listed_ok hello hosts (rf_Pc s) seen \<and> answers (hello (hosts ! i)))"

lemma listed_ok_update:
  assumes "listed_ok hello hosts pcs l" "pcs i \<noteq> Finished"
  shows "listed_ok hello hosts (pcs(i := x)) l"
  using assms unfolding listed_ok_def by (metis fun_upd_apply)

lemma listed_ok_append:
  assumes "distinct hosts" "listed_ok hello hosts pcs l" "pcs i \<noteq> Finished" "i < length hosts"
    "answers (hello (hosts ! i))"
  shows "listed_ok hello hosts (pcs(i := Finished)) (l @ [Some (hosts ! i)])"
proof -
  have "Some (hosts ! i) \<notin> set l"
    using assms unfolding listed_ok_def by (metis nth_eq_iff_index_eq option.inject)
  moreover have "listed_ok hello hosts (pcs(i := Finished)) l"
    by (rule listed_ok_update [OF assms(2,3)])
  ultimately show ?thesis using assms(4,5) by (auto simp: listed_ok_def)
qed

lemma refresh_inv_step:
  assumes "refresh_step hello hosts s t" "distinct hosts" "refresh_inv hello hosts s"
  shows "refresh_inv hello hosts t"
  using assms(1)
proof cases
  case next_iteration
  then show ?thesis using assms(3) by (simp add: refresh_inv_def)
next
  case (greeted i)
  have "rf_Pc s i \<noteq> Finished" using greeted by simp
  note up = listed_ok_update [where pcs = "rf_Pc s" and i = i, OF _ this]
  show ?thesis using assms(3) greeted
    by (auto simp: refresh_inv_def greet_ok_def intro: up)
next
  case (failed i)
  have "rf_Pc s i \<noteq> Finished" using failed by simp
  note up = listed_ok_update [where pcs = "rf_Pc s" and i = i, OF _ this]
  show ?thesis using assms(3) failed
    by (auto simp: refresh_inv_def greet_failed_def intro: up)
next
  case (stored i seen)
  have nf: "rf_Pc s i \<noteq> Finished" using stored by simp
  note up = listed_ok_update [where pcs = "rf_Pc s" and i = i, OF _ nf]
  have "listed_ok hello hosts (rf_Pc s) seen" "answers (hello (hosts ! i))"
    using assms(3) stored by (auto simp: refresh_inv_def)
  from listed_ok_append [OF assms(2) this(1) nf stored(2) this(2)] show ?thesis
    using assms(3) stored by (auto simp: refresh_inv_def append_active_def intro: up)
qed

lemma refresh_inv_start: "refresh_inv hello hosts (refresh_start st)"
  by (simp add: refresh_inv_def refresh_start_def listed_ok_def)

text \<open>Every error that is recorded is the doing of a goroutine that failed, one each.\<close>

definition failures :: "(gostring \<Rightarrow> hello) \<Rightarrow> gostring list \<Rightarrow> refresh \<Rightarrow> nat set" where
  "failures hello hosts s = {i. i < length hosts \<and> rf_Pc s i = Finished \<and> \<not> answers (hello (hosts ! i))}"

definition errors_inv :: "(gostring \<Rightarrow> hello) \<Rightarrow> gostring list \<Rightarrow> refresh \<Rightarrow> bool" where
  "errors_inv hello hosts s \<longleftrightarrow> finite {j. rf_Errors s j \<noteq> None} \<and>
     card {j. rf_Errors s j \<noteq> None} \<le> card (failures hello hosts s) \<and>
     ((\<exists>i < length hosts. rf_Pc s i = Finished \<and> answers (hello (hosts ! i))) \<longrightarrow> rf_Actives s \<noteq> []) \<and>
     (\<forall>i seen. rf_Pc s i = Appending seen \<longrightarrow> answers (hello (hosts ! i)))"

lemma finite_failures: "finite (failures hello hosts s)"
  by (simp add: failures_def)

lemma errors_inv_step:
  assumes "refresh_step hello hosts s t" "errors_inv hello hosts s"
  shows "errors_inv hello hosts t"
  using assms(1)
proof cases
  case next_iteration
  then show ?thesis using assms(2) by (simp add: errors_inv_def failures_def)
next
  case (greeted i)
  then have "failures hello hosts t = failures hello hosts s"
    by (auto simp: failures_def greet_ok_def)
  then show ?thesis using assms(2) greeted by (auto simp: errors_inv_def greet_ok_def)
next
  case (failed i)
  have f: "failures hello hosts t = insert i (failures hello hosts s)" "i \<notin> failures hello hosts s"
    using failed by (auto simp: failures_def greet_failed_def)
  have e: "{j. rf_Errors t j \<noteq> None} = insert (rf_Idx s) {j. rf_Errors s j \<noteq> None}"
    using failed by (auto simp: greet_failed_def)
  have "card {j. rf_Errors t j \<noteq> None} \<le> Suc (card {j. rf_Errors s j \<noteq> None})"
    unfolding e by (rule card_insert_le_m1) (auto simp: card_insert_if assms(2))
  then show ?thesis using assms(2) failed f e finite_failures [of hello hosts s]
    by (auto simp: errors_inv_def greet_failed_def)
next
  case (stored i seen)
  have a: "answers (hello (hosts ! i))" using assms(2) stored by (auto simp: errors_inv_def)
  have f: "failures hello hosts t = failures hello hosts s"
    using stored a by (auto simp: failures_def append_active_def)
  have e: "{j. rf_Errors t j \<noteq> None} = {j. rf_Errors s j \<noteq> None} - {rf_Idx s}"
    using stored by (auto simp: append_active_def)
  have "card {j. rf_Errors t j \<noteq> None} \<le> card {j. rf_Errors s j \<noteq> None}"
    using assms(2) unfolding e by (auto simp: errors_inv_def intro: card_mono)
  then show ?thesis using assms(2) stored f e
    by (auto simp: errors_inv_def append_active_def)
qed

lemma errors_inv_start: "errors_inv hello hosts (refresh_start st)"
  by (simp add: errors_inv_def refresh_start_def failures_def)

lemma refresh_invariants:
  assumes "distinct hosts"
  shows "refresh_inv hello hosts (refresh_run hello hosts schedule (refresh_start st))"
    "errors_inv hello hosts (refresh_run hello hosts schedule (refresh_start st))"
proof -
  have "refresh_inv hello hosts t \<and> errors_inv hello hosts t"
    if "(refresh_step hello hosts)\<^sup>*\<^sup>* (refresh_start st) t" for t
    using that
  proof induction
    case base
    then show ?case using refresh_inv_start errors_inv_start by blast
  next
    case (step y z)
    then show ?case using refresh_inv_step [OF _ assms] errors_inv_step by blast
  qed
  then show "refresh_inv hello hosts (refresh_run hello hosts schedule (refresh_start st))"
    "errors_inv hello hosts (refresh_run hello hosts schedule (refresh_start st))"
    using refresh_run_steps by blast+
qed

section \<open>The refresh terminates\<close>

lemma exec_Finished:
  "rf_Pc s i = Finished \<Longrightarrow> rf_Pc (refresh_exec hello hosts a s) i = Finished"
  by (auto simp: refresh_exec_def greet_ok_def greet_failed_def append_active_def
      split: actor.split pc.split)

lemma exec_Idx: "rf_Idx s \<le> rf_Idx (refresh_exec hello hosts a s)"
  by (auto simp: refresh_exec_def greet_ok_def greet_failed_def append_active_def
      split: actor.split pc.split)

lemma run_Finished: "rf_Pc s i = Finished \<Longrightarrow> rf_Pc (refresh_run hello hosts as s) i = Finished"
  by (induction as arbitrary: s) (auto simp: refresh_run_def exec_Finished)

lemma run_Idx: "rf_Idx s \<le> rf_Idx (refresh_run hello hosts as s)"
proof (induction as arbitrary: s)
  case Nil
  then show ?case by (simp add: refresh_run_def)
next
  case (Cons a as)
  then show ?case using exec_Idx [of s hello hosts a]
    by (simp add: refresh_run_def) (metis le_trans)
qed

lemma run_append:
  "refresh_run hello hosts (as @ bs) s = refresh_run hello hosts bs (refresh_run hello hosts as s)"
  by (simp add: refresh_run_def)

lemma run_Loop:
  "min (rf_Idx s + k) (length hosts - 1) \<le> rf_Idx (refresh_run hello hosts (replicate k Loop) s)"
proof (induction k arbitrary: s)
  case 0
  then show ?case by (simp add: refresh_run_def)
next
  case (Suc k)
  have "min (rf_Idx s + Suc k) (length hosts - 1)
      \<le> min (rf_Idx (refresh_exec hello hosts Loop s) + k) (length hosts - 1)"
    by (auto simp: refresh_exec_def)
  also note Suc
  finally show ?case by (simp add: refresh_run_def)
qed

lemma exec_twice_Finished:
  assumes "i < length hosts" "i \<le> rf_Idx s"
  shows "rf_Pc (refresh_run hello hosts [Goroutine i, Goroutine i] s) i = Finished"
  using assms by (cases "rf_Pc s i")
    (auto simp: refresh_run_def refresh_exec_def greet_ok_def greet_failed_def append_active_def)

lemma run_all_Finished:
  assumes "m \<le> length hosts" "length hosts - 1 \<le> rf_Idx s" "i < m"
  shows "rf_Pc (refresh_run hello hosts (concat (map (\<lambda>i. [Goroutine i, Goroutine i]) [0..<m])) s) i
    = Finished"
  using assms
proof (induction m)
  case 0
  then show ?case by simp
next
  case (Suc m)
  let ?t = "refresh_run hello hosts (concat (map (\<lambda>i. [Goroutine i, Goroutine i]) [0..<m])) s"
  have e: "refresh_run hello hosts (concat (map (\<lambda>i. [Goroutine i, Goroutine i]) [0..<Suc m])) s
      = refresh_run hello hosts [Goroutine m, Goroutine m] ?t"
    by (simp add: run_append)
  show ?case
  proof (cases "i = m")
    case True
    have "m \<le> length hosts - 1" using Suc.prems(1) by simp
    also note Suc.prems(2)
    also note run_Idx
    finally have "rf_Pc (refresh_run hello hosts [Goroutine m, Goroutine m] ?t) m = Finished"
      using Suc.prems(1) by (intro exec_twice_Finished) simp_all
    then show ?thesis unfolding e using True by simp
  next
    case False
    then have "rf_Pc ?t i = Finished" using Suc by simp
    then show ?thesis unfolding e by (rule run_Finished)
  qed
qed

lemma complete_Finished:
  assumes "i < length hosts"
  shows "rf_Pc (refresh_run hello hosts (complete hosts schedule) s) i = Finished"
proof -
  let ?s1 = "refresh_run hello hosts schedule s"
  let ?s2 = "refresh_run hello hosts (replicate (length hosts) Loop) ?s1"
  have "length hosts - 1 \<le> rf_Idx ?s2"
    using run_Loop [of ?s1 "length hosts" hosts hello] by linarith
  from run_all_Finished [OF order_refl this assms] show ?thesis
    by (simp add: complete_def run_append)
qed

section \<open>A refresh ends\<close>

text \<open>How many steps are left: of the loop, and of every goroutine.\<close>

definition steps_left :: "pc \<Rightarrow> nat" where
  "steps_left p = (case p of Greeting \<Rightarrow> 2 | Appending seen \<Rightarrow> 1 | Finished \<Rightarrow> 0)"

definition refresh_rank :: "gostring list \<Rightarrow> refresh \<Rightarrow> nat" where
  "refresh_rank hosts s = (length hosts - rf_Idx s) + (\<Sum>i<length hosts. steps_left (rf_Pc s i))"

lemma rank_goroutine:
  assumes "i < length hosts" "steps_left x < steps_left (rf_Pc s i)" "rf_Idx t = rf_Idx s"
    "rf_Pc t = (rf_Pc s)(i := x)"
  shows "refresh_rank hosts t < refresh_rank hosts s"
proof -
  have "(\<Sum>j<length hosts. steps_left (rf_Pc t j)) < (\<Sum>j<length hosts. steps_left (rf_Pc s j))"
    using assms by (intro sum_strict_mono_ex1) auto
  then show ?thesis using assms(3) by (simp add: refresh_rank_def)
qed

lemma rank_decreases:
  "refresh_step hello hosts s t \<Longrightarrow> refresh_rank hosts t < refresh_rank hosts s"
proof (induction rule: refresh_step.induct)
  case (next_iteration s)
  then show ?case by (simp add: refresh_rank_def)
next
  case (greeted i s)
  show ?case by (rule rank_goroutine [OF greeted(1)]) (use greeted in \<open>auto simp: greet_ok_def steps_left_def\<close>)
next
  case (failed i s)
  show ?case by (rule rank_goroutine [OF failed(1)]) (use failed in \<open>auto simp: greet_failed_def steps_left_def\<close>)
next
  case (stored i s seen)
  show ?case by (rule rank_goroutine [OF stored(1)]) (use stored in \<open>auto simp: append_active_def steps_left_def\<close>)
qed

lemma step_is_exec: "refresh_step hello hosts s t \<Longrightarrow> \<exists>a. t = refresh_exec hello hosts a s"
proof (induction rule: refresh_step.induct)
  case (next_iteration s)
  then show ?case by (intro exI [of _ Loop]) (simp add: refresh_exec_def)
next
  case (greeted i s)
  then show ?case by (intro exI [of _ "Goroutine i"]) (simp add: refresh_exec_def)
next
  case (failed i s)
  then show ?case by (intro exI [of _ "Goroutine i"]) (simp add: refresh_exec_def)
next
  case (stored i s seen)
  then show ?case by (intro exI [of _ "Goroutine i"]) (simp add: refresh_exec_def)
qed

lemma steps_are_run:
  "(refresh_step hello hosts)\<^sup>*\<^sup>* s t \<Longrightarrow> \<exists>schedule. t = refresh_run hello hosts schedule s"
proof (induction rule: rtranclp_induct)
  case base
  then show ?case by (intro exI [of _ "[]"]) (simp add: refresh_run_def)
next
  case (step y z)
  then obtain schedule a where "y = refresh_run hello hosts schedule s" "z = refresh_exec hello hosts a y"
    using step_is_exec by blast
  then show ?case by (intro exI [of _ "schedule @ [a]"]) (simp add: refresh_run_def)
qed

lemma stuck_run:
  assumes "\<And>t. \<not> refresh_step hello hosts s t"
  shows "refresh_run hello hosts schedule s = s"
proof (induction schedule)
  case Nil
  then show ?case by (simp add: refresh_run_def)
next
  case (Cons a schedule)
  have "refresh_exec hello hosts a s = s" using refresh_exec_step [of hello hosts a s] assms by blast
  with Cons show ?case by (simp add: refresh_run_def)
qed

section \<open>Greetings that may not return\<close>

text \<open>
  The greeting is a call over the network, so it may not return. Its context comes from the pool, with
  the seconds of the refresh as its timeout. The call is an argument: with a context, what it returns
  for a host, if it ever returns. \<open>deadline_kept\<close> is what the context package and gRPC document: a call
  whose context has a deadline returns, with an error when the time is up.
\<close>

definition greeting_context ::
  "'a env_scheme \<Rightarrow> int \<Rightarrow> ultipa_config \<Rightarrow> int32 \<Rightarrow> go_context go" where
  "greeting_context env zone cfg seconds =
     (let seconds = (if seconds \<le>s 0 then 3 else seconds)
      in NewContext env zone cfg (Some (empty_request_config\<lparr>rc_Timeout := seconds\<rparr>)))"

type_synonym say_hello = "go_context \<Rightarrow> gostring \<Rightarrow> hello option"

definition deadline_kept :: "say_hello \<Rightarrow> bool" where
  "deadline_kept say \<longleftrightarrow> (\<forall>ctx host. cx_timeout ctx \<noteq> None \<longrightarrow> say ctx host \<noteq> None)"

text \<open>The steps of a refresh when a greeting may keep its goroutine waiting for ever.\<close>

inductive waiting_step ::
  "say_hello \<Rightarrow> go_context \<Rightarrow> gostring list \<Rightarrow> refresh \<Rightarrow> refresh \<Rightarrow> bool"
  for say :: say_hello and ctx :: go_context and hosts :: "gostring list"
  where
  loops_on: "rf_Idx s + 1 < length hosts \<Longrightarrow>
     waiting_step say ctx hosts s (s\<lparr>rf_Idx := rf_Idx s + 1\<rparr>)"
| is_answered: "i < length hosts \<Longrightarrow> i \<le> rf_Idx s \<Longrightarrow> rf_Pc s i = Greeting \<Longrightarrow>
     say ctx (hosts ! i) = Some h \<Longrightarrow> answers h \<Longrightarrow>
     waiting_step say ctx hosts s (greet_ok (hosts ! i) i s)"
| is_refused: "i < length hosts \<Longrightarrow> i \<le> rf_Idx s \<Longrightarrow> rf_Pc s i = Greeting \<Longrightarrow>
     say ctx (hosts ! i) = Some h \<Longrightarrow> \<not> answers h \<Longrightarrow>
     waiting_step say ctx hosts s (greet_failed (hosts ! i) h i s)"
| appends: "i < length hosts \<Longrightarrow> rf_Pc s i = Appending seen \<Longrightarrow>
     waiting_step say ctx hosts s (append_active (hosts ! i) seen i s)"

inductive_cases waiting_stepE: "waiting_step say ctx hosts s t"

lemma waiting_refresh_step:
  "waiting_step say ctx hosts s t \<Longrightarrow> refresh_step (\<lambda>h. the (say ctx h)) hosts s t"
proof (induction rule: waiting_step.induct)
  case (is_answered i s h)
  then show ?case using greeted [of i hosts s "\<lambda>h. the (say ctx h)"] by simp
next
  case (is_refused i s h)
  then show ?case using failed [of i hosts s "\<lambda>h. the (say ctx h)"] by simp
qed (blast intro: refresh_step.intros)+

lemma refresh_waiting_step:
  assumes "refresh_step hello hosts s t" "\<And>h. h \<in> set hosts \<Longrightarrow> say ctx h = Some (hello h)"
  shows "waiting_step say ctx hosts s t"
  using assms(1)
proof (cases rule: refresh_step.cases)
  case (greeted i)
  then show ?thesis using assms(2) by (metis is_answered nth_mem)
next
  case (failed i)
  then show ?thesis using assms(2) by (metis is_refused nth_mem)
qed (blast intro: waiting_step.intros)+

lemma waiting_steps_ends: "wfP (\<lambda>t s. waiting_step say ctx hosts s t)"
  unfolding wfp_def
  by (rule wf_subset [OF wf_measure [of "refresh_rank hosts"]])
    (auto dest!: waiting_refresh_step rank_decreases)

lemma greeting_deadline:
  "\<exists>ctx. greeting_context env zone cfg seconds = Ret ctx \<and>
    cx_timeout ctx = Some (if seconds \<le>s 0 then 10 else max 10 (sint seconds))"
proof -
  have "0 <s seconds" "seconds \<noteq> 0" if "\<not> seconds \<le>s 0"
    using that by (auto simp: word_sle_eq word_sless_alt)
  then show ?thesis
    by (auto simp: greeting_context_def NewContext_def empty_request_config_def Let_def word_sless_alt word_sle_eq)
qed

text \<open>
  A host that keeps a greeting without a deadline waiting keeps the whole refresh waiting.
\<close>

lemma silent_host_waits:
  assumes "(waiting_step say ctx hosts)\<^sup>*\<^sup>* (refresh_start st) s" "say ctx (hosts ! i) = None"
  shows "rf_Pc s i = Greeting"
  using assms(1)
proof (induction rule: rtranclp_induct)
  case base
  then show ?case by (simp add: refresh_start_def)
next
  case (step s t)
  from step(2) show ?case
    by (cases rule: waiting_step.cases) (use assms(2) step(3) in \<open>auto simp: greet_ok_def greet_failed_def append_active_def\<close>)
qed

text \<open>
  Property C11. A refresh ends however long its hosts are silent: its greetings have a deadline, of the seconds
  it is given (3 when they are not positive) but at least 10; so no execution of its loop and its goroutines
  goes on for ever, none stops while a goroutine still waits for an answer or has to store its list, and where
  an execution stops the refresh is the outcome of one of the schedules from which its result is computed,
  with the answers the calls returned. It rests on the context package and gRPC: a call whose context has a
  deadline returns.
\<close>

theorem refresh_settles:
  assumes "deadline_kept say"
  shows "\<exists>ctx. greeting_context env zone cfg seconds = Ret ctx \<and>
    cx_timeout ctx = Some (if seconds \<le>s 0 then 10 else max 10 (sint seconds)) \<and>
    wfP (\<lambda>t s. waiting_step say ctx hosts s t) \<and>
    (\<forall>s. (waiting_step say ctx hosts)\<^sup>*\<^sup>* (refresh_start st) s \<and> (\<forall>t. \<not> waiting_step say ctx hosts s t) \<longrightarrow>
       (\<forall>i < length hosts. rf_Pc s i = Finished) \<and>
       (\<exists>schedule. s = refresh_run (\<lambda>h. the (say ctx h)) hosts (complete hosts schedule) (refresh_start st)))"
proof -
  obtain ctx where ctx: "greeting_context env zone cfg seconds = Ret ctx"
    "cx_timeout ctx = Some (if seconds \<le>s 0 then 10 else max 10 (sint seconds))"
    using greeting_deadline by blast
  let ?hello = "\<lambda>h. the (say ctx h)"
  have say: "say ctx h = Some (?hello h)" for h
    using assms ctx(2) unfolding deadline_kept_def by fastforce
  have "(\<forall>i < length hosts. rf_Pc s i = Finished) \<and>
       (\<exists>schedule. s = refresh_run ?hello hosts (complete hosts schedule) (refresh_start st))"
    if steps: "(waiting_step say ctx hosts)\<^sup>*\<^sup>* (refresh_start st) s" and "\<forall>t. \<not> waiting_step say ctx hosts s t" for s
  proof -
    have stuck: "\<not> refresh_step ?hello hosts s t" for t
      using that(2) refresh_waiting_step [of ?hello hosts s t say ctx] say by blast
    have "(refresh_step ?hello hosts)\<^sup>*\<^sup>* (refresh_start st) s"
      using mono_rtranclp [of "waiting_step say ctx hosts" "refresh_step ?hello hosts"] steps waiting_refresh_step
      by blast
    then obtain schedule where r: "s = refresh_run ?hello hosts schedule (refresh_start st)"
      using steps_are_run by blast
    have c: "refresh_run ?hello hosts (complete hosts schedule) (refresh_start st) = s"
      using stuck_run [OF stuck] by (simp add: complete_def run_append flip: r)
    have "\<forall>i < length hosts. rf_Pc s i = Finished"
      using complete_Finished [of _ hosts ?hello schedule "refresh_start st"] by (simp add: c)
    with c show ?thesis by metis
  qed
  with ctx waiting_steps_ends show ?thesis by blast
qed

section \<open>What a refresh promises\<close>

text \<open>
  The hosts are those of the pool, each once, in the order of the enumeration; the refresh is
  not skipped and dereferences no nil connection.
\<close>

definition refreshes :: "int \<Rightarrow> gostring list \<Rightarrow> pool \<Rightarrow> bool" where
  "refreshes now hosts pool \<longleftrightarrow> distinct hosts \<and> set hosts = dom (cp_Connections pool) \<and>
     \<not> (now - cp_LastActivesTime pool \<le> 5 * 1000000000
        \<and> card (dom (cp_Connections pool)) = length (cp_Actives pool)) \<and>
     list_all (\<lambda>h. cp_Connections pool h \<noteq> Some None) hosts"

lemma refreshes_result:
  fixes hello :: "gostring \<Rightarrow> hello" and schedule :: "actor list"
  assumes "refreshes now hosts pool"
  defines "s \<equiv> refresh_run hello hosts (complete hosts schedule) (refresh_start (cp_Status pool))"
  shows "RefreshActivesWithSeconds now later hello hosts schedule pool
    = (pool\<lparr>cp_Actives := rf_Actives s, cp_Status := rf_Status s, cp_LastActivesTime := later\<rparr>,
       case rf_GroupError s of Some e \<Rightarrow> Fail e
         | None \<Rightarrow> connections_verdict (map (rf_Errors s) [0..<length hosts]) True)"
  unfolding RefreshActivesWithSeconds_def Let_def s_def [symmetric]
  using assms(1) by (auto simp: refreshes_def list_ex_iff list_all_iff)

lemma refreshed_actives:
  fixes hello :: "gostring \<Rightarrow> hello" and schedule :: "actor list" and later :: int
  assumes "refreshes now hosts pool"
  defines "pool' \<equiv> fst (RefreshActivesWithSeconds now later hello hosts schedule pool)"
  shows "distinct (cp_Actives pool') \<and>
    (\<forall>c \<in> set (cp_Actives pool'). \<exists>h \<in> set hosts. c = Some h \<and> answers (hello h)) \<and>
    ((\<exists>h \<in> set hosts. answers (hello h)) \<longrightarrow> cp_Actives pool' \<noteq> [])"
proof -
  let ?s = "refresh_run hello hosts (complete hosts schedule) (refresh_start (cp_Status pool))"
  have d: "distinct hosts" using assms(1) by (simp add: refreshes_def)
  have a: "cp_Actives pool' = rf_Actives ?s"
    unfolding pool'_def refreshes_result [OF assms(1)] by simp
  note inv = refresh_invariants [OF d, of hello "complete hosts schedule" "cp_Status pool"]
  have "rf_Actives ?s \<noteq> []" if "h \<in> set hosts" "answers (hello h)" for h
  proof -
    obtain i where "i < length hosts" "hosts ! i = h" using \<open>h \<in> set hosts\<close> by (auto simp: in_set_conv_nth)
    with that complete_Finished [of i hosts hello schedule] inv(2) show ?thesis
      by (auto simp: errors_inv_def)
  qed
  with inv(1) a show ?thesis by (auto simp: refresh_inv_def listed_ok_def)
qed

text \<open>
  Property C9. However the goroutines of a refresh interleave, the connections it makes active
  answered its greeting, each is listed once, and if any host answered at least one is listed.
\<close>

theorem refresh_actives_sound:
  fixes hello :: "gostring \<Rightarrow> hello" and schedule :: "actor list" and later :: int
  assumes "refreshes now hosts pool"
  defines "pool' \<equiv> fst (RefreshActivesWithSeconds now later hello hosts schedule pool)"
  shows "distinct (cp_Actives pool') \<and>
    (\<forall>c \<in> set (cp_Actives pool'). \<exists>h \<in> set hosts. c = Some h \<and> answers (hello h)) \<and>
    ((\<exists>h \<in> set hosts. answers (hello h)) \<longrightarrow> cp_Actives pool' \<noteq> [])"
  unfolding pool'_def by (rule refreshed_actives [OF assms(1)])

lemma verdict_Ret: "\<exists>e \<in> set errs. e = None \<Longrightarrow> connections_verdict errs tcp = Ret ()"
  by (induction errs tcp rule: connections_verdict.induct) auto

lemma verdict_Fail: "\<forall>e \<in> set errs. e \<noteq> None \<Longrightarrow> \<exists>e. connections_verdict errs tcp = Fail e"
  by (induction errs tcp rule: connections_verdict.induct) auto

lemma group_error_step:
  "refresh_step hello hosts s t \<Longrightarrow> rf_GroupError s = None \<Longrightarrow> \<forall>h \<in> set hosts. \<not> aborts (hello h)
   \<Longrightarrow> rf_GroupError t = None"
  by (erule refresh_step.cases) (auto simp: greet_ok_def greet_failed_def append_active_def)

lemma group_error_run:
  assumes "\<forall>h \<in> set hosts. \<not> aborts (hello h)"
  shows "rf_GroupError (refresh_run hello hosts schedule (refresh_start st)) = None"
proof -
  have "rf_GroupError t = None" if "(refresh_step hello hosts)\<^sup>*\<^sup>* (refresh_start st) t" for t
    using that
  proof induction
    case base
    then show ?case by (simp add: refresh_start_def)
  next
    case (step y z)
    then show ?case using group_error_step assms by blast
  qed
  then show ?thesis using refresh_run_steps by blast
qed

lemma all_errors_all_failed:
  assumes "errors_inv hello hosts s" "\<forall>j < length hosts. rf_Errors s j \<noteq> None" "h \<in> set hosts"
  shows "\<not> answers (hello h)"
proof -
  have "{..<length hosts} \<subseteq> {j. rf_Errors s j \<noteq> None}" using assms(2) by auto
  then have "length hosts \<le> card {j. rf_Errors s j \<noteq> None}"
    using assms(1) card_mono [of "{j. rf_Errors s j \<noteq> None}" "{..<length hosts}"]
    by (simp add: errors_inv_def)
  then have c: "length hosts \<le> card (failures hello hosts s)"
    using assms(1) by (simp add: errors_inv_def)
  have "failures hello hosts s \<subseteq> {..<length hosts}" by (auto simp: failures_def)
  with c have "failures hello hosts s = {..<length hosts}"
    by (intro card_seteq) simp_all
  moreover obtain i where "i < length hosts" "hosts ! i = h" using assms(3) by (auto simp: in_set_conv_nth)
  ultimately show ?thesis by (auto simp: failures_def)
qed

text \<open>
  Property C25. A refresh that reports that no host could be reached is right: when no answer
  aborted it, then no host answered, however the goroutines interleave. So if some host
  answers and none refuses the password, the refresh succeeds.
\<close>

theorem refresh_failure_right:
  assumes "refreshes now hosts pool" "\<forall>h \<in> set hosts. \<not> aborts (hello h)"
    "\<exists>h \<in> set hosts. answers (hello h)"
  shows "snd (RefreshActivesWithSeconds now later hello hosts schedule pool) = Ret ()"
proof (rule ccontr)
  assume f: "snd (RefreshActivesWithSeconds now later hello hosts schedule pool) \<noteq> Ret ()"
  let ?s = "refresh_run hello hosts (complete hosts schedule) (refresh_start (cp_Status pool))"
  have d: "distinct hosts" using assms(1) by (simp add: refreshes_def)
  have "connections_verdict (map (rf_Errors ?s) [0..<length hosts]) True \<noteq> Ret ()"
    using f group_error_run [OF assms(2)] unfolding refreshes_result [OF assms(1)] by simp
  then have "\<not> (\<exists>e \<in> set (map (rf_Errors ?s) [0..<length hosts]). e = None)"
    using verdict_Ret by metis
  then have all: "\<forall>j < length hosts. rf_Errors ?s j \<noteq> None"
    by (metis atLeast0LessThan imageI lessThan_iff list.set_map set_upt)
  obtain h where "h \<in> set hosts" "answers (hello h)" using assms(3) by auto
  with all_errors_all_failed [OF refresh_invariants(2) [OF d] all] show False by simp
qed

text \<open>A pool of two hosts that has never been refreshed.\<close>

definition sample_pool_config :: ultipa_config where
  "sample_pool_config = \<lparr>uc_Hosts = [''a'', ''b''], uc_Username = [], uc_Password = [],
     uc_PasswordEncrypt = [], uc_DefaultGraph = [], uc_Crt = None, uc_MaxRecvSize = 0,
     uc_Timeout = 5, uc_HeartBeat = 0\<rparr>"

definition sample_pool :: pool where
  "sample_pool = \<lparr>cp_Config = sample_pool_config, cp_Connections =
       [''a'' \<mapsto> Some \<lparr>cn_Host = ''a'', cn_Config = sample_pool_config\<rparr>,
        ''b'' \<mapsto> Some \<lparr>cn_Host = ''b'', cn_Config = sample_pool_config\<rparr>],
     cp_RandomTick = 0, cp_Actives = [], cp_Status = (\<lambda>_. DEAD), cp_LastActivesTime = 0\<rparr>"

lemma sample_refreshes: "refreshes 6000000000 [''a'', ''b''] sample_pool"
  by (auto simp: refreshes_def sample_pool_def)

lemma refresh_failure_right_witness:
  "snd (RefreshActivesWithSeconds 6000000000 0
      (\<lambda>h. if h = ''a'' then HelloNoStatus else HelloError (Err ''gone''))
      [''a'', ''b''] [Loop, Goroutine 1] sample_pool) = Ret ()"
  by (rule refresh_failure_right [OF sample_refreshes]) (simp_all add: aborts_def answers_def)

lemma refresh_actives_sound_witness:
  "distinct (cp_Actives (fst (RefreshActivesWithSeconds 6000000000 0 (\<lambda>h. HelloNoStatus)
      [''a'', ''b''] [Goroutine 0] sample_pool)))"
  using refresh_actives_sound [OF sample_refreshes] by blast

text \<open>
  The shared loop variable: once the loop has ended, every error goes to the last entry.
\<close>

lemma late_errors:
  assumes "rf_Idx s = n - 1" "length hosts = n" "rf_Errors s 0 = None" "2 \<le> n"
  shows "rf_Errors (refresh_run hello hosts as s) 0 = None"
  using assms
proof (induction as arbitrary: s)
  case Nil
  then show ?case by (simp add: refresh_run_def)
next
  case (Cons a as)
  have "rf_Idx (refresh_exec hello hosts a s) = n - 1" "rf_Errors (refresh_exec hello hosts a s) 0 = None"
    using Cons.prems
    by (auto simp: refresh_exec_def greet_ok_def greet_failed_def append_active_def
        split: actor.split pc.split)
  with Cons show ?case by (simp add: refresh_run_def)
qed

lemma loop_first:
  "rf_Idx (refresh_run hello hosts (replicate k Loop) (refresh_start st)) \<le> length hosts - 1 \<and>
   rf_Errors (refresh_run hello hosts (replicate k Loop) (refresh_start st)) = (\<lambda>_. None)"
proof -
  have "rf_Idx s \<le> length hosts - 1 \<Longrightarrow>
      rf_Idx (refresh_run hello hosts (replicate k Loop) s) \<le> length hosts - 1 \<and>
      rf_Errors (refresh_run hello hosts (replicate k Loop) s) = rf_Errors s" for s
    by (induction k arbitrary: s) (simp_all add: refresh_run_def refresh_exec_def)
  from this [of "refresh_start st"] show ?thesis by (simp add: refresh_start_def)
qed

text \<open>
  With two hosts or more, a refresh in which no host answers can still report
  success: the goroutines share the loop variable, so when they run after the loop has ended
  they all store their error in the last entry, the others stay nil, and a nil entry counts as
  a connection that works. The refresh then returns no error and leaves no active connection.
\<close>

theorem refresh_all_dead_succeeds:
  assumes "refreshes now hosts pool" "2 \<le> length hosts"
    "\<forall>h \<in> set hosts. \<not> answers (hello h) \<and> \<not> aborts (hello h)"
  shows "snd (RefreshActivesWithSeconds now later hello hosts [] pool) = Ret () \<and>
    cp_Actives (fst (RefreshActivesWithSeconds now later hello hosts [] pool)) = []"
proof -
  let ?s = "refresh_run hello hosts (complete hosts []) (refresh_start (cp_Status pool))"
  let ?l = "refresh_run hello hosts (replicate (length hosts) Loop) (refresh_start (cp_Status pool))"
  have d: "distinct hosts" using assms(1) by (simp add: refreshes_def)
  have "length hosts - 1 \<le> rf_Idx ?l"
    using run_Loop [of "refresh_start (cp_Status pool)" "length hosts" hosts hello] by linarith
  then have "rf_Idx ?l = length hosts - 1" "rf_Errors ?l 0 = None"
    using loop_first [of hello hosts "length hosts" "cp_Status pool"] by auto
  from late_errors [OF this(1) refl this(2) assms(2)] have "rf_Errors ?s 0 = None"
    by (simp add: complete_def run_append)
  then have "connections_verdict (map (rf_Errors ?s) [0..<length hosts]) True = Ret ()"
    using assms(2) by (intro verdict_Ret) (auto intro!: bexI [of _ "0 :: nat"] simp: image_iff)
  moreover have "rf_Actives ?s = []"
  proof (rule ccontr)
    assume "rf_Actives ?s \<noteq> []"
    then obtain c where "c \<in> set (rf_Actives ?s)" by (cases "rf_Actives ?s") auto
    with refresh_invariants(1) [OF d, of hello "complete hosts []" "cp_Status pool"] assms(3)
    show False unfolding refresh_inv_def listed_ok_def by (metis nth_mem)
  qed
  moreover have "rf_GroupError ?s = None" using assms(3) by (intro group_error_run) blast
  ultimately show ?thesis unfolding refreshes_result [OF assms(1)] by simp
qed

lemma refresh_all_dead_succeeds_witness:
  "snd (RefreshActivesWithSeconds 6000000000 0 (\<lambda>h. HelloError (Err ''gone''))
      [''a'', ''b''] [] sample_pool) = Ret ()"
  using refresh_all_dead_succeeds [OF sample_refreshes, of "\<lambda>h. HelloError (Err ''gone'')"]
  by (simp add: aborts_def answers_def)

section \<open>Refreshes without and with interleaving\<close>

text \<open>When each goroutine runs to its end before the next, nothing is lost.\<close>

lemma run_sequential:
  fixes hello :: "gostring \<Rightarrow> hello"
  assumes "m \<le> length hosts" "rf_Idx s = length hosts - 1" "rf_Actives s = []"
    "\<forall>i. rf_Pc s i = Greeting"
  defines "t \<equiv> refresh_run hello hosts (concat (map (\<lambda>i. [Goroutine i, Goroutine i]) [0..<m])) s"
  shows "rf_Actives t = map Some (filter (\<lambda>h. answers (hello h)) (take m hosts)) \<and>
    rf_Idx t = length hosts - 1 \<and> (\<forall>i \<ge> m. rf_Pc t i = Greeting)"
  using assms(1) unfolding t_def
proof (induction m)
  case 0
  then show ?case using assms(2-4) by (simp add: refresh_run_def)
next
  case (Suc m)
  let ?t = "refresh_run hello hosts (concat (map (\<lambda>i. [Goroutine i, Goroutine i]) [0..<m])) s"
  have e: "refresh_run hello hosts (concat (map (\<lambda>i. [Goroutine i, Goroutine i]) [0..<Suc m])) s
      = refresh_run hello hosts [Goroutine m, Goroutine m] ?t"
    by (simp add: run_append)
  have ih: "rf_Actives ?t = map Some (filter (\<lambda>h. answers (hello h)) (take m hosts))"
    "rf_Idx ?t = length hosts - 1" "\<forall>i \<ge> m. rf_Pc ?t i = Greeting"
    using Suc by simp_all
  have l: "m < length hosts" "\<not> length hosts \<le> m" "\<not> length hosts - 1 < m" using Suc.prems by auto
  have tk: "take (Suc m) hosts = take m hosts @ [hosts ! m]" using l by (simp add: take_Suc_conv_app_nth)
  show ?case unfolding e tk using ih l
    by (auto simp: refresh_run_def refresh_exec_def greet_ok_def greet_failed_def append_active_def)
qed

lemma run_Loops:
  "refresh_run hello hosts (replicate k Loop) s
    = s\<lparr>rf_Idx := (if rf_Idx s < length hosts then min (rf_Idx s + k) (length hosts - 1)
        else rf_Idx s)\<rparr>"
proof (induction k arbitrary: s)
  case 0
  then show ?case by (auto simp: refresh_run_def)
next
  case (Suc k)
  have "refresh_run hello hosts (replicate (Suc k) Loop) s
      = refresh_run hello hosts (replicate k Loop) (refresh_exec hello hosts Loop s)"
    by (simp add: refresh_run_def)
  then show ?case unfolding Suc by (auto simp: refresh_exec_def)
qed

text \<open>
  When the goroutines of a refresh do not interleave, the active connections are
  exactly those that answered, in the order of the enumeration.
\<close>

theorem refresh_sequential:
  assumes "refreshes now hosts pool"
  shows "cp_Actives (fst (RefreshActivesWithSeconds now later hello hosts [] pool))
    = map Some (filter (\<lambda>h. answers (hello h)) hosts)"
proof -
  let ?l = "refresh_run hello hosts (replicate (length hosts) Loop) (refresh_start (cp_Status pool))"
  have l: "?l = refresh_start (cp_Status pool)\<lparr>rf_Idx := length hosts - 1\<rparr>"
    unfolding run_Loops by (auto simp: refresh_start_def)
  have "rf_Actives (refresh_run hello hosts (complete hosts []) (refresh_start (cp_Status pool)))
      = map Some (filter (\<lambda>h. answers (hello h)) (take (length hosts) hosts))"
    using run_sequential [of "length hosts" hosts ?l hello] unfolding l
    by (simp add: refresh_start_def complete_def run_append l [unfolded refresh_start_def])
  then show ?thesis unfolding refreshes_result [OF assms] by simp
qed

lemma refresh_sequential_witness:
  "cp_Actives (fst (RefreshActivesWithSeconds 6000000000 0
      (\<lambda>h. if h = ''a'' then HelloNoStatus else HelloError (Err ''gone''))
      [''a'', ''b''] [] sample_pool)) = [Some ''a'']"
  by (simp add: refresh_sequential [OF sample_refreshes] answers_def)

text \<open>
  The list of active connections is shared without a lock: with two hosts that
  both answer there is an interleaving after which the refresh succeeds and only the second is
  active, because each goroutine appended to the list it had read before the other stored.
\<close>

theorem refresh_lost_update:
  assumes "refreshes now [a, b] pool" "answers (hello a)" "answers (hello b)"
  shows "cp_Actives (fst (RefreshActivesWithSeconds now later hello [a, b]
      [Loop, Goroutine 0, Goroutine 1, Goroutine 0, Goroutine 1] pool)) = [Some b]"
  unfolding refreshes_result [OF assms(1)] using assms(2,3)
  by (simp add: complete_def refresh_run_def refresh_exec_def refresh_start_def greet_ok_def
      append_active_def upt_rec)

lemma refresh_lost_update_witness:
  "cp_Actives (fst (RefreshActivesWithSeconds 6000000000 0 (\<lambda>h. HelloNoStatus)
      [''a'', ''b''] [Loop, Goroutine 0, Goroutine 1, Goroutine 0, Goroutine 1] sample_pool))
    = [Some ''b'']"
  by (rule refresh_lost_update [OF sample_refreshes]) (simp_all add: answers_def)

section \<open>Round robin\<close>

text \<open>The pool after \<open>k\<close> choices.\<close>

definition after_calls :: "nat \<Rightarrow> pool \<Rightarrow> pool" where
  "after_calls k pool = ((fst \<circ> GetRandomConn) ^^ k) pool"

lemma fst_GetRandomConn:
  "cp_Actives pool \<noteq> [] \<Longrightarrow>
    fst (GetRandomConn pool) = pool\<lparr>cp_RandomTick := cp_RandomTick pool + 1\<rparr>"
  by (simp add: GetRandomConn_def Let_def Suc_le_eq not_less)

lemma after_calls:
  "cp_Actives pool \<noteq> [] \<Longrightarrow>
    after_calls k pool = pool\<lparr>cp_RandomTick := cp_RandomTick pool + of_nat k\<rparr>"
  by (induction k) (simp_all add: after_calls_def fst_GetRandomConn algebra_simps)

lemma sint_add_nat:
  assumes "0 \<le> sint (t :: int64)" "sint t + int k < 2 ^ 63"
  shows "sint (t + of_nat k) = sint t + int k"
proof -
  have "sint (word_of_int (sint t + int k) :: int64) = sint t + int k"
    unfolding sint_sbintrunc' using assms by (intro signed_take_bit_int_eq_self) simp_all
  moreover have "word_of_int (sint t + int k) = t + of_nat k" by simp
  ultimately show ?thesis by metis
qed

lemma choice:
  assumes "cp_Actives pool = map Some hs" "hs \<noteq> []" "0 \<le> sint (cp_RandomTick pool)"
    "sint (cp_RandomTick pool) + int k + 1 < 2 ^ 63"
  shows "snd (GetRandomConn (after_calls k pool))
    = Ret (hs ! ((nat (sint (cp_RandomTick pool)) + k + 1) mod length hs))"
proof -
  let ?t = "cp_RandomTick pool"
  have "cp_RandomTick pool + of_nat k + 1 = ?t + of_nat (k + 1)" by simp
  moreover have "sint (?t + of_nat (k + 1)) = sint ?t + int (k + 1)"
    using assms(3,4) by (intro sint_add_nat) simp_all
  ultimately have s: "sint (?t + of_nat k + 1) = sint ?t + int k + 1"
    by (metis (no_types) add.assoc of_nat_1 of_nat_add)
  have m: "go_rem (sint ?t + int k + 1) (int (length hs))
      = int ((nat (sint ?t) + k + 1) mod length hs)"
    using assms(3) by (simp add: go_rem_def sgn_if zmod_int abs_of_nonneg ac_simps)
  have a: "after_calls k pool = pool\<lparr>cp_RandomTick := ?t + of_nat k\<rparr>"
    using assms(1,2) by (intro after_calls) simp
  have l: "(nat (sint ?t) + k + 1) mod length hs < length hs" using assms(2) by simp
  show ?thesis unfolding a GetRandomConn_def Let_def using assms(1,2) l
    by (simp add: s m go_nth_def)
qed

text \<open>
  While the counter does not overflow, as many calls of \<open>GetRandomConn\<close> as there
  are active connections return each of them once: the list rotated to the counter.
\<close>

theorem round_robin:
  assumes "cp_Actives pool = map Some hs" "hs \<noteq> []" "0 \<le> sint (cp_RandomTick pool)"
    "sint (cp_RandomTick pool) + int (length hs) < 2 ^ 63"
  shows "map (\<lambda>k. snd (GetRandomConn (after_calls k pool))) [0..<length hs]
    = map Ret (rotate (nat (sint (cp_RandomTick pool)) + 1) hs)"
proof (rule nth_equalityI)
  fix k assume "k < length (map (\<lambda>k. snd (GetRandomConn (after_calls k pool))) [0..<length hs])"
  then have k: "k < length hs" by simp
  then have "sint (cp_RandomTick pool) + int k + 1 < 2 ^ 63" using assms(4) by simp
  from choice [OF assms(1-3) this]
  show "map (\<lambda>k. snd (GetRandomConn (after_calls k pool))) [0..<length hs] ! k
      = map Ret (rotate (nat (sint (cp_RandomTick pool)) + 1) hs) ! k"
    using k by (simp add: nth_rotate add.commute add.left_commute del: rotate_Suc)
qed simp

lemma round_robin_witness:
  "map (\<lambda>k. snd (GetRandomConn (after_calls k
      (sample_pool\<lparr>cp_Actives := [Some ''a'', Some ''b'']\<rparr>)))) [0..<2] = [Ret ''b'', Ret ''a'']"
  using round_robin [of "sample_pool\<lparr>cp_Actives := [Some ''a'', Some ''b'']\<rparr>" "[''a'', ''b'']"]
  by (simp add: sample_pool_def upt_rec)

text \<open>
  When the counter has wrapped to a negative value that the number of active
  connections does not divide, choosing a connection panics on a negative index.
\<close>

theorem wrapped_counter_panics:
  assumes "cp_Actives pool \<noteq> []" "sint (cp_RandomTick pool + 1) < 0"
    "\<not> int (length (cp_Actives pool)) dvd sint (cp_RandomTick pool + 1)"
  shows "snd (GetRandomConn pool) = Panic IndexOutOfRange"
proof -
  let ?n = "int (length (cp_Actives pool))"
  have "0 < \<bar>sint (cp_RandomTick pool + 1)\<bar> mod ?n"
    using assms by (simp add: dvd_eq_mod_eq_0 [symmetric] order_less_le)
  then have "go_rem (sint (cp_RandomTick pool + 1)) ?n < 0"
    using assms(2) by (simp add: go_rem_def sgn_if)
  then show ?thesis using assms(1) by (simp add: GetRandomConn_def Let_def Suc_le_eq not_less)
qed

lemma wrapped_counter_panics_witness:
  "snd (GetRandomConn (sample_pool\<lparr>cp_Actives := [Some ''a'', Some ''b'', Some ''c''],
      cp_RandomTick := 2 ^ 63 - 1\<rparr>)) = Panic IndexOutOfRange"
  by (rule wrapped_counter_panics) (simp_all add: sample_pool_def)

lemma choice_at:
  assumes "cp_Actives pool = map Some hs" "hs \<noteq> []" "int (length hs) dvd sint (cp_RandomTick pool + 1)"
  shows "snd (GetRandomConn pool) = Ret (hs ! 0)"
proof -
  have "go_rem (sint (cp_RandomTick pool + 1)) (int (length hs)) = 0"
    using assms(3) by (simp add: go_rem_def)
  then show ?thesis using assms(1,2) by (simp add: GetRandomConn_def Let_def go_nth_def Suc_le_eq)
qed

text \<open>
  Property C40. The counter of a fresh pool lasts for exactly 2^63 - 1 choices: each of them returns
  the connection whose turn it is, and the next one, whose counter has overflowed to the least
  64-bit integer, panics on a negative index unless the number of active connections divides
  2^63.
\<close>

theorem counter_bounds:
  assumes "cp_Actives pool = map Some hs" "hs \<noteq> []" "cp_RandomTick pool = 0"
  shows "(\<forall>k < 2 ^ 63 - 1. snd (GetRandomConn (after_calls k pool)) = Ret (hs ! ((k + 1) mod length hs))) \<and>
    (snd (GetRandomConn (after_calls (2 ^ 63 - 1) pool)) = Panic IndexOutOfRange \<longleftrightarrow> \<not> length hs dvd 2 ^ 63)"
proof (intro conjI allI impI)
  fix k :: nat assume "k < 2 ^ 63 - 1"
  then have "sint (cp_RandomTick pool) + int k + 1 < 2 ^ 63" using assms(3) by simp
  from choice [OF assms(1,2) _ this] assms(3)
  show "snd (GetRandomConn (after_calls k pool)) = Ret (hs ! ((k + 1) mod length hs))" by simp
next
  define last where "last = after_calls (2 ^ 63 - 1) pool"
  have a: "last = pool\<lparr>cp_RandomTick := cp_RandomTick pool + of_nat (2 ^ 63 - 1)\<rparr>"
    unfolding last_def using assms(1,2) by (intro after_calls) simp
  have tick: "sint (cp_RandomTick last + 1) = - (2 ^ 63)" unfolding a assms(3) by simp
  have acts: "cp_Actives last = map Some hs" unfolding a using assms(1) by simp
  have d: "int (length hs) dvd sint (cp_RandomTick last + 1) \<longleftrightarrow> length hs dvd 2 ^ 63"
    unfolding tick dvd_minus_iff by (metis int_dvd_int_iff of_nat_numeral of_nat_power)
  show "snd (GetRandomConn last) = Panic IndexOutOfRange \<longleftrightarrow> \<not> length hs dvd 2 ^ 63"
    using choice_at [OF acts assms(2)] wrapped_counter_panics [of last] acts assms(2) d tick by auto
qed

lemma counter_bounds_witness:
  "snd (GetRandomConn (after_calls (2 ^ 63 - 1)
      (sample_pool\<lparr>cp_Actives := [Some ''a'', Some ''b'', Some ''c''], cp_RandomTick := 0\<rparr>)))
    = Panic IndexOutOfRange"
proof -
  have "\<not> (3::nat) dvd 2 ^ 63" by simp
  then have "\<not> length [''a'', ''b'', ''c''] dvd 2 ^ 63" by (simp add: numeral_3_eq_3)
  moreover have "cp_Actives (sample_pool\<lparr>cp_Actives := [Some ''a'', Some ''b'', Some ''c''], cp_RandomTick := 0\<rparr>)
      = map Some [''a'', ''b'', ''c'']" by simp
  ultimately show ?thesis using counter_bounds [of _ "[''a'', ''b'', ''c'']"] by simp
qed

section \<open>Contexts\<close>

text \<open>
  A context is refused only for a time zone that cannot be loaded; otherwise it
  carries the headers of its configuration, and has no deadline exactly when the first of the
  request's timeout, the client's and the default that is not zero is negative; a deadline is
  never under ten seconds.
\<close>

theorem context_deadline:
  fixes env :: "'a env_scheme" and cfg :: ultipa_config and c :: request_config
  defines "wanted \<equiv> (if rc_Timeout c \<noteq> 0 then rc_Timeout c
    else if uc_Timeout cfg \<noteq> 0 then uc_Timeout cfg else DefaultTimeout)"
  assumes "rc_Timezone c = [] \<or> te_load_location env (rc_Timezone c) \<noteq> None"
  shows "NewContext env zone cfg (Some c)
    = Ret \<lparr>cx_headers = ToContextKV zone cfg (Some c),
        cx_timeout = (if sint wanted < 0 then None else Some (max 10 (sint wanted)))\<rparr>"
proof -
  have "NewContext env zone cfg (Some c)
    = Ret \<lparr>cx_headers = ToContextKV zone cfg (Some c),
        cx_timeout = (if wanted <s 0 then None else if wanted <s 10 then Some 10
          else Some (sint wanted))\<rparr>"
    using assms(2) by (auto simp: NewContext_def Let_def wanted_def)
  then show ?thesis by (auto simp: word_sless_alt max_def)
qed

lemma context_deadline_witness:
  "NewContext toy_env 0 sample_pool_config (Some empty_request_config)
    = Ret \<lparr>cx_headers = ToContextKV 0 sample_pool_config (Some empty_request_config),
        cx_timeout = Some 10\<rparr>"
  using context_deadline [of empty_request_config toy_env 0 sample_pool_config]
  by (simp add: empty_request_config_def sample_pool_config_def)

section \<open>A silent host\<close>

text \<open>A network whose only host is silent until the deadline, and for ever without one.\<close>

definition silent :: say_hello where
  "silent ctx host = (if cx_timeout ctx = None then None else Some (HelloError (ErrLibrary ''DeadlineExceeded'')))"

lemma refresh_settles_witness:
  "\<exists>ctx. greeting_context toy_env 0 (cp_Config sample_pool) 3 = Ret ctx \<and> cx_timeout ctx = Some 10 \<and>
    wfP (\<lambda>t s. waiting_step silent ctx [''a''] s t) \<and>
    (\<forall>s. (waiting_step silent ctx [''a''])\<^sup>*\<^sup>* (refresh_start (\<lambda>_. DEAD)) s
       \<and> (\<forall>t. \<not> waiting_step silent ctx [''a''] s t) \<longrightarrow> rf_Pc s 0 = Finished)"
proof -
  have "deadline_kept silent" by (simp add: deadline_kept_def silent_def)
  from refresh_settles [OF this, of toy_env 0 "cp_Config sample_pool" 3 "[''a'']" "\<lambda>_. DEAD"]
  show ?thesis by (auto simp: word_sle_eq)
qed

lemma silent_without_deadline:
  assumes "cx_timeout ctx = None" "(waiting_step silent ctx [''a''])\<^sup>*\<^sup>* (refresh_start st) s"
  shows "rf_Pc s 0 = Greeting"
  using silent_host_waits [OF assms(2), of 0] assms(1) by (simp add: silent_def)

end
