(* ===== verification/Driver.thy ===== *)
theory Driver
  imports Pool
begin

text \<open>
  The entry point of a client: \<open>NewUltipaDriver\<close> of \<open>sdk/ultipa.go\<close>, which fills the configuration it
  is given, encrypts the password in it and makes a pool, and \<open>NewUltipaAPI\<close> of \<open>sdk/api/api.go\<close>. The
  configuration is shared: what it is afterwards is part of the result.
\<close>

section \<open>Opening a driver\<close>

record ultipa_api =
  ua_Pool :: pool
  ua_Config :: ultipa_config

definition NewUltipaAPI :: "pool \<Rightarrow> ultipa_api" where
  "NewUltipaAPI conn = \<lparr>ua_Pool = conn, ua_Config = cp_Config conn\<rparr>"

definition NewUltipaDriver ::
  "network \<Rightarrow> (bytes \<Rightarrow> bytes) \<Rightarrow> int \<Rightarrow> int \<Rightarrow> (gostring \<Rightarrow> hello) \<Rightarrow> gostring list \<Rightarrow> actor list
   \<Rightarrow> ultipa_config \<Rightarrow> ultipa_config \<times> ultipa_api go" where
  "NewUltipaDriver nw md5_sum now later hello hosts schedule config =
     (let config = FillDefault config in
      case Encrypt md5_sum (uc_PasswordEncrypt config) (uc_Password config) of
        Fail e \<Rightarrow> (config, Fail e)
      | Panic p \<Rightarrow> (config, Panic p)
      | Ret encryptedPwd \<Rightarrow>
          let config = config\<lparr>uc_Password := encryptedPwd\<rparr>
          in (cp_Config (CreateConnections nw (fresh_pool config)),
              go_lift NewUltipaAPI (NewConnectionPool nw now later hello hosts schedule config)))"

section \<open>The pool of a new driver\<close>

lemma create_connections_fields:
  assumes "uc_MaxRecvSize (cp_Config pool) \<noteq> 0"
  shows "cp_Config (create_connections nw hs pool) = cp_Config pool"
    "dom (cp_Connections (create_connections nw hs pool)) = dom (cp_Connections pool) \<union> set hs"
    "cp_Actives (create_connections nw hs pool) = cp_Actives pool"
    "cp_RandomTick (create_connections nw hs pool) = cp_RandomTick pool"
    "cp_LastActivesTime (create_connections nw hs pool) = cp_LastActivesTime pool"
  using assms
  by (induction hs arbitrary: pool) (auto simp: Let_def NewConnection_def)

text \<open>The time lies more than five seconds after the zero time, so the first refresh is not skipped.\<close>

definition after_zero_time :: "int \<Rightarrow> bool" where
  "after_zero_time now \<longleftrightarrow> 5 * 1000000000 < now + 62135596800 * 1000000000"

lemma new_pool:
  assumes "NewConnectionPool nw now later hello hosts schedule config = Ret pool"
    "uc_MaxRecvSize config \<noteq> 0" "distinct hosts" "set hosts = set (uc_Hosts config)" "after_zero_time now"
  shows "cp_Config pool = config" "dom (cp_Connections pool) = set (uc_Hosts config)"
    "cp_RandomTick pool = 0" "cp_Actives pool \<noteq> []" "distinct (cp_Actives pool)"
    "\<forall>c \<in> set (cp_Actives pool). \<exists>h \<in> set (uc_Hosts config). c = Some h \<and> answers (hello h)"
proof -
  let ?p = "CreateConnections nw (fresh_pool config)"
  have m: "uc_MaxRecvSize (cp_Config (fresh_pool config)) \<noteq> 0" using assms(2) by (simp add: fresh_pool_def)
  note f = create_connections_fields [OF m, of nw "uc_Hosts config"]
  have p: "cp_Config ?p = config" "dom (cp_Connections ?p) = set (uc_Hosts config)" "cp_RandomTick ?p = 0"
    "cp_Actives ?p = []" "cp_LastActivesTime ?p = - 62135596800 * 1000000000"
    using f by (simp_all add: CreateConnections_def fresh_pool_def)
  from assms(1) obtain r where r: "RefreshActivesWithSeconds now later hello hosts schedule ?p = (pool, Ret ())"
    and c: "RefreshClusterInfo pool = Ret ()"
    by (auto simp: NewConnectionPool_def Let_def go_simps prod_eq_iff split: if_splits)
  have skip: "\<not> (now - cp_LastActivesTime ?p \<le> 5 * 1000000000
      \<and> card (dom (cp_Connections ?p)) = length (cp_Actives ?p))"
    using assms(5) unfolding p(5) after_zero_time_def by simp
  have "\<not> list_ex (\<lambda>h. cp_Connections ?p h = Some None) hosts"
    using r unfolding RefreshActivesWithSeconds_def if_not_P [OF skip] by (auto split: if_splits)
  then have ok: "refreshes now hosts ?p"
    using skip assms(3,4) p(2) by (simp add: refreshes_def list_ex_iff list_all_iff)
  from refreshed_actives [OF ok, where hello = hello and later = later and schedule = schedule] r
  show "distinct (cp_Actives pool)"
    "\<forall>c \<in> set (cp_Actives pool). \<exists>h \<in> set (uc_Hosts config). c = Some h \<and> answers (hello h)"
    using assms(4) by simp_all
  show "cp_Actives pool \<noteq> []"
    using c by (auto simp: RefreshClusterInfo_def doRefreshClusterInfo_def)
  have "\<exists>a s t. pool = ?p\<lparr>cp_Actives := a, cp_Status := s, cp_LastActivesTime := t\<rparr>"
    using r unfolding refreshes_result [OF ok] by blast
  then show "cp_Config pool = config" "dom (cp_Connections pool) = set (uc_Hosts config)" "cp_RandomTick pool = 0"
    using p(1-3) by force+
qed

section \<open>What a new driver promises\<close>

lemma opened_driver:
  assumes "NewUltipaDriver nw md5_sum now later hello hosts schedule config = (config', Ret api)"
    "distinct hosts" "set hosts = set (uc_Hosts config)" "after_zero_time now"
  shows "dom (cp_Connections (ua_Pool api)) = set (uc_Hosts config)" "cp_Actives (ua_Pool api) \<noteq> []"
    "distinct (cp_Actives (ua_Pool api))"
    "\<forall>c \<in> set (cp_Actives (ua_Pool api)). \<exists>h \<in> set (uc_Hosts config). c = Some h \<and> answers (hello h)"
    "\<exists>h \<in> set (uc_Hosts config). answers (hello h) \<and> snd (GetRandomConn (ua_Pool api)) = Ret h"
    "config' = ua_Config api" "uc_MaxRecvSize config' \<noteq> 0" "uc_Timeout config' \<noteq> 0"
    "Encrypt md5_sum (uc_PasswordEncrypt config') (uc_Password config) = Ret (uc_Password config')"
proof -
  from assms(1) obtain pw pool where e:
    "Encrypt md5_sum (uc_PasswordEncrypt (FillDefault config)) (uc_Password (FillDefault config)) = Ret pw" and
    n: "NewConnectionPool nw now later hello hosts schedule ((FillDefault config)\<lparr>uc_Password := pw\<rparr>) = Ret pool" and
    api: "api = NewUltipaAPI pool" and
    c': "config' = cp_Config (CreateConnections nw (fresh_pool ((FillDefault config)\<lparr>uc_Password := pw\<rparr>)))"
    by (auto simp: NewUltipaDriver_def Let_def go_simps split: go.splits)
  let ?c = "(FillDefault config)\<lparr>uc_Password := pw\<rparr>"
  have h: "uc_Hosts ?c = uc_Hosts config" and m: "uc_MaxRecvSize ?c \<noteq> 0" and t: "uc_Timeout ?c \<noteq> 0"
    and p: "uc_Password (FillDefault config) = uc_Password config"
    using FillDefault_fields [of config] by (simp_all add: FillDefault_def Let_def)
  have d: "distinct hosts" "set hosts = set (uc_Hosts ?c)" using assms(2,3) h by simp_all
  note f = new_pool [OF n m d assms(4), unfolded h]
  show "dom (cp_Connections (ua_Pool api)) = set (uc_Hosts config)" "cp_Actives (ua_Pool api) \<noteq> []"
    "distinct (cp_Actives (ua_Pool api))"
    and live: "\<forall>c \<in> set (cp_Actives (ua_Pool api)). \<exists>h \<in> set (uc_Hosts config). c = Some h \<and> answers (hello h)"
    using f by (simp_all add: api NewUltipaAPI_def)
  have "config' = ?c" using create_connections_fields(1) [of "fresh_pool ?c" nw] m
    by (simp add: c' CreateConnections_def fresh_pool_def)
  then show "config' = ua_Config api" "uc_MaxRecvSize config' \<noteq> 0" "uc_Timeout config' \<noteq> 0"
    "Encrypt md5_sum (uc_PasswordEncrypt config') (uc_Password config) = Ret (uc_Password config')"
    using f(1) m t e p by (simp_all add: api NewUltipaAPI_def)
  show "\<exists>h \<in> set (uc_Hosts config). answers (hello h) \<and> snd (GetRandomConn (ua_Pool api)) = Ret h"
  proof -
    let ?as = "cp_Actives pool"
    have i: "nat (1 mod int (length ?as)) < length ?as" using f(4) by (simp add: nat_less_iff)
    with f(6) obtain h where "h \<in> set (uc_Hosts config)" "?as ! nat (1 mod int (length ?as)) = Some h" "answers (hello h)"
      using nth_mem by blast
    moreover have "\<not> 1 mod int (length ?as) < 0" using f(4) by (simp add: not_less)
    ultimately show ?thesis using f(3,4) i
      by (auto simp: api NewUltipaAPI_def GetRandomConn_def Let_def go_rem_def go_nth_def)
  qed
qed

text \<open>
  Property C10. A driver that opens has a pool with exactly the configured hosts, whose first refresh has
  found some of them alive: every active connection belongs to a configured host that answered, each
  once, so the first choice of a connection succeeds with such a host. The limits of the configuration
  it shares are set and the password in it is the encrypted one.
\<close>

theorem driver_opens:
  assumes "NewUltipaDriver nw md5_sum now later hello hosts schedule config = (config', Ret api)"
    "distinct hosts" "set hosts = set (uc_Hosts config)" "after_zero_time now"
  shows "dom (cp_Connections (ua_Pool api)) = set (uc_Hosts config) \<and> cp_Actives (ua_Pool api) \<noteq> [] \<and>
    distinct (cp_Actives (ua_Pool api)) \<and>
    (\<forall>c \<in> set (cp_Actives (ua_Pool api)). \<exists>h \<in> set (uc_Hosts config). c = Some h \<and> answers (hello h)) \<and>
    (\<exists>h \<in> set (uc_Hosts config). answers (hello h) \<and> snd (GetRandomConn (ua_Pool api)) = Ret h) \<and>
    config' = ua_Config api \<and> uc_MaxRecvSize config' \<noteq> 0 \<and> uc_Timeout config' \<noteq> 0 \<and>
    Encrypt md5_sum (uc_PasswordEncrypt config') (uc_Password config) = Ret (uc_Password config')"
  by (intro conjI opened_driver [OF assms])

text \<open>
  The password is encrypted in the configuration of the caller, so a second driver opened
  with the same configuration encrypts it again: with the default encryptor, or \<open>MD5\<close>, its password
  is the digest of the digest.
\<close>

theorem second_driver_encrypts_twice:
  fixes nw :: network and md5_sum :: "bytes \<Rightarrow> bytes" and now later :: int
    and hello :: "gostring \<Rightarrow> hello" and hosts :: "gostring list" and schedule :: "actor list"
  assumes "uc_PasswordEncrypt config \<in> {[], ''MD5''}"
  defines "again \<equiv> \<lambda>c. fst (NewUltipaDriver nw md5_sum now later hello hosts schedule c)"
  shows "uc_Password (again config) = MD5Encrypt md5_sum (uc_Password config) \<and>
    uc_Password (again (again config)) = MD5Encrypt md5_sum (MD5Encrypt md5_sum (uc_Password config))"
proof -
  have one: "uc_Password (again c) = MD5Encrypt md5_sum (uc_Password c) \<and> uc_PasswordEncrypt (again c) = ''MD5''"
    if "uc_PasswordEncrypt c \<in> {[], ''MD5''}" for c
  proof -
    let ?c = "FillDefault c"
    have m: "uc_MaxRecvSize ?c \<noteq> 0" "uc_PasswordEncrypt ?c = ''MD5''" "uc_Password ?c = uc_Password c"
      using that by (auto simp: FillDefault_def Let_def DefaultRecvSize_def)
    have "Encrypt md5_sum ''MD5'' pw = Ret (MD5Encrypt md5_sum pw)" for pw
      by (simp add: Encrypt_def passwordEncryptMethodMap_def to_upper_def is_lower_def)
    then show ?thesis
      using m create_connections_fields(1) [of "fresh_pool (?c\<lparr>uc_Password := pw\<rparr>)" nw for pw]
      by (simp add: again_def NewUltipaDriver_def Let_def CreateConnections_def fresh_pool_def)
  qed
  from one [OF assms(1)] one [of "again config"] show ?thesis by simp
qed

text \<open>Two hosts of which the second is gone.\<close>

definition open_network :: network where
  "open_network = \<lparr>nw_certificate = (\<lambda>_. False), nw_dial = (\<lambda>_ _ _. None), nw_close = (\<lambda>_. None)\<rparr>"

definition one_answers :: "gostring \<Rightarrow> hello" where
  "one_answers h = (if h = ''a'' then HelloNoStatus else HelloError (Err ''gone''))"

lemma sample_driver:
  "is_ret (snd (NewUltipaDriver open_network id 0 0 one_answers [''b'', ''a''] [] sample_pool_config))"
  by (simp add: NewUltipaDriver_def Let_def sample_pool_config_def FillDefault_def DefaultRecvSize_def
        Encrypt_def passwordEncryptMethodMap_def to_upper_def is_lower_def NewConnectionPool_def
        CreateConnections_def fresh_pool_def NewConnection_def open_network_def
        RefreshActivesWithSeconds_def refresh_run_def complete_def refresh_exec_def refresh_start_def
        greet_ok_def greet_failed_def append_active_def one_answers_def answers_def aborts_def
        hello_error_def upt_rec RefreshClusterInfo_def doRefreshClusterInfo_def)

lemma driver_opens_witness:
  "\<exists>api. snd (NewUltipaDriver open_network id 0 0 one_answers [''b'', ''a''] [] sample_pool_config) = Ret api
    \<and> cp_Actives (ua_Pool api) \<noteq> [] \<and> dom (cp_Connections (ua_Pool api)) = {''a'', ''b''}"
proof -
  let ?r = "NewUltipaDriver open_network id 0 0 one_answers [''b'', ''a''] [] sample_pool_config"
  obtain api where "?r = (fst ?r, Ret api)" using sample_driver by (metis is_ret_iff prod.collapse)
  then show ?thesis
    using driver_opens [OF \<open>?r = (fst ?r, Ret api)\<close>]
    by (auto simp: sample_pool_config_def after_zero_time_def prod_eq_iff)
qed

lemma second_driver_encrypts_twice_witness:
  "uc_Password (fst (NewUltipaDriver open_network (\<lambda>bs. take 1 bs) 0 0 one_answers [] []
      (fst (NewUltipaDriver open_network (\<lambda>bs. take 1 bs) 0 0 one_answers [] []
        (sample_pool_config\<lparr>uc_Password := ''pw''\<rparr>)))))
    = MD5Encrypt (\<lambda>bs. take 1 bs) (MD5Encrypt (\<lambda>bs. take 1 bs) ''pw'')"
  using second_driver_encrypts_twice [of "sample_pool_config\<lparr>uc_Password := ''pw''\<rparr>"]
  by (simp add: sample_pool_config_def)

end
