(* ===== verification/Containers.thy ===== *)
theory Containers
  imports GoValue PropertyTypes
begin

text \<open>
  The key-value containers a row carries: \<open>Values\<close> (\<open>sdk/structs/values.go\<close>), the ordered map
  of \<open>sdk/utils/orderedmap\<close>, the search helpers of \<open>sdk/utils/find.go\<close> and \<open>slice.go\<close>, and the
  key-value view of a table (\<open>sdk/structs/table.go\<close>). A missing key of a Go map reads as nil.
  The order in which Go enumerates a map is an argument of the operations that enumerate one.
\<close>

section \<open>The contract of a store\<close>

text \<open>
  What the clients of a keyed store rely on: reading a key after a write gives the value
  written, and the other keys are not touched.
\<close>

locale keyed_store =
  fixes get :: "'s \<Rightarrow> gostring \<Rightarrow> gval" and put :: "'s \<Rightarrow> gostring \<Rightarrow> gval \<Rightarrow> 's"
  assumes get_put: "get (put s k v) k' = (if k' = k then v else get s k')"
begin

fun put_all :: "'s \<Rightarrow> (gostring \<times> gval) list \<Rightarrow> 's" where
  "put_all s [] = s"
| "put_all s ((k, v) # kvs) = put_all (put s k v) kvs"

text \<open>After a sequence of writes a key holds its last write.\<close>

lemma get_put_all:
  "get (put_all s kvs) k = (case map_of (rev kvs) k of Some v \<Rightarrow> v | None \<Rightarrow> get s k)"
proof (induction kvs arbitrary: s)
  case Nil
  then show ?case by simp
next
  case (Cons kv kvs)
  then show ?case
    by (cases kv) (auto simp: get_put map_add_def split: option.splits)
qed

lemma get_put_all_distinct:
  assumes "distinct (map fst kvs)" "i < length kvs"
  shows "get (put_all s kvs) (fst (kvs ! i)) = snd (kvs ! i)"
proof -
  have "distinct (map fst (rev kvs))" using assms(1) by (simp add: rev_map [symmetric])
  moreover have "kvs ! i \<in> set (rev kvs)" using assms(2) by simp
  ultimately have "map_of (rev kvs) (fst (kvs ! i)) = Some (snd (kvs ! i))"
    by (metis map_of_eq_Some_iff prod.collapse)
  then show ?thesis by (simp add: get_put_all)
qed

lemma get_put_all_other: "k \<notin> fst ` set kvs \<Longrightarrow> get (put_all s kvs) k = get s k"
proof -
  assume "k \<notin> fst ` set kvs"
  then have "map_of (rev kvs) k = None" by (simp add: map_of_eq_None_iff)
  then show ?thesis by (simp add: get_put_all)
qed

end

section \<open>Values\<close>

type_synonym values_map = "gostring \<rightharpoonup> gval"

definition NewValues :: values_map where
  "NewValues = Map.empty"

definition Values_Set :: "values_map \<Rightarrow> gostring \<Rightarrow> gval \<Rightarrow> values_map" where
  "Values_Set v key value = v(key \<mapsto> value)"

definition Values_Get :: "values_map \<Rightarrow> gostring \<Rightarrow> gval" where
  "Values_Get v key = (case v key of Some x \<Rightarrow> x | None \<Rightarrow> GNil)"

definition Values_Has :: "values_map \<Rightarrow> gostring \<Rightarrow> bool" where
  "Values_Has v key = (Values_Get v key \<noteq> GNil)"

definition Values_Contain :: "values_map \<Rightarrow> gostring \<Rightarrow> bool" where
  "Values_Contain v key = (v key \<noteq> None)"

text \<open>
  \<open>ForEach\<close> with a callback on a state. Without an order the map is enumerated, in the order
  \<open>enum\<close>; with one, a key that reads as nil is an error.
\<close>

fun Values_ForEach_order ::
  "(gval \<Rightarrow> gostring \<Rightarrow> 's \<Rightarrow> 's go) \<Rightarrow> values_map \<Rightarrow> gostring list \<Rightarrow> 's \<Rightarrow> 's go" where
  "Values_ForEach_order cb v [] s = Ret s"
| "Values_ForEach_order cb v (key # keys) s =
     (if Values_Get v key = GNil then Fail (Err (''Key : '' @ key @ ''does not exist!''))
      else go_bind (cb (Values_Get v key) key s) (Values_ForEach_order cb v keys))"

definition Values_ForEach ::
  "gostring list \<Rightarrow> (gval \<Rightarrow> gostring \<Rightarrow> 's \<Rightarrow> 's go) \<Rightarrow> values_map \<Rightarrow> gostring list option
   \<Rightarrow> 's \<Rightarrow> 's go" where
  "Values_ForEach enum cb v order s =
     (case order of
        None \<Rightarrow> go_fold (\<lambda>key. cb (Values_Get v key) key) enum s
      | Some keys \<Rightarrow> Values_ForEach_order cb v keys s)"

interpretation vals: keyed_store Values_Get Values_Set
  by unfold_locales (simp add: Values_Get_def Values_Set_def)

lemma Values_Get_NewValues [store_simps]: "Values_Get NewValues k = GNil"
  by (simp add: Values_Get_def NewValues_def)

section \<open>Ordered map\<close>

record ordered_map =
  om_Keys :: "gostring list"
  om_Data :: "gostring \<rightharpoonup> gval"

definition NewOrderedMap :: ordered_map where
  "NewOrderedMap = \<lparr>om_Keys = [], om_Data = Map.empty\<rparr>"

definition OM_Get :: "ordered_map \<Rightarrow> gostring \<Rightarrow> gval" where
  "OM_Get om key = (case om_Data om key of Some x \<Rightarrow> x | None \<Rightarrow> GNil)"

definition OM_HasKey :: "ordered_map \<Rightarrow> gostring \<Rightarrow> bool" where
  "OM_HasKey om key = (OM_Get om key \<noteq> GNil)"

definition OM_Set :: "ordered_map \<Rightarrow> gostring \<Rightarrow> gval \<Rightarrow> ordered_map" where
  "OM_Set om key value =
     (let om' = (if OM_Get om key = GNil then om\<lparr>om_Keys := om_Keys om @ [key]\<rparr> else om)
      in om'\<lparr>om_Data := (om_Data om')(key \<mapsto> value)\<rparr>)"

fun key_index :: "gostring list \<Rightarrow> gostring \<Rightarrow> nat option" where
  "key_index [] key = None"
| "key_index (k # ks) key = (if k = key then Some 0 else map_option Suc (key_index ks key))"

definition OM_GetKeyIndex :: "ordered_map \<Rightarrow> gostring \<Rightarrow> nat option" where
  "OM_GetKeyIndex om key = key_index (om_Keys om) key"

text \<open>\<open>Delete\<close> cuts the key out of the key list; the data keep the entry.\<close>

definition OM_Delete :: "ordered_map \<Rightarrow> gostring \<Rightarrow> ordered_map" where
  "OM_Delete om key =
     (if OM_Get om key = GNil then om
      else case OM_GetKeyIndex om key of
             None \<Rightarrow> om
           | Some index \<Rightarrow>
               om\<lparr>om_Keys := take index (om_Keys om) @ drop (index + 1) (om_Keys om)\<rparr>)"

definition OM_ForEach :: "(gostring \<Rightarrow> gval \<Rightarrow> nat \<Rightarrow> 's \<Rightarrow> 's) \<Rightarrow> ordered_map \<Rightarrow> 's \<Rightarrow> 's" where
  "OM_ForEach cb om s =
     fold (\<lambda>(index, key). cb key (OM_Get om key) index)
       (zip [0..<length (om_Keys om)] (om_Keys om)) s"

interpretation om: keyed_store OM_Get OM_Set
  by unfold_locales (auto simp: OM_Get_def OM_Set_def Let_def)

section \<open>Search in a list\<close>

definition Find :: "'a list option \<Rightarrow> (nat \<Rightarrow> bool) \<Rightarrow> 'a option" where
  "Find xs it =
     (case xs of
        None \<Rightarrow> None
      | Some ys \<Rightarrow> (case List.find it [0..<length ys] of None \<Rightarrow> None | Some i \<Rightarrow> Some (ys ! i)))"

fun IndexOf :: "gostring list \<Rightarrow> gostring \<Rightarrow> int" where
  "IndexOf [] target = - 1"
| "IndexOf (x # xs) target =
     (if x = target then 0 else let i = IndexOf xs target in if i < 0 then i else i + 1)"

definition Contains :: "gostring list \<Rightarrow> gostring \<Rightarrow> bool" where
  "Contains xs target = list_ex (\<lambda>x. x = target) xs"

section \<open>Tables\<close>

record header =
  hd_Name :: gostring
  hd_PropertyType :: property_type

record table =
  tb_Name :: gostring
  tb_Headers :: "header list"
  tb_Rows :: "gval list list"

definition NewTable :: table where
  "NewTable = \<lparr>tb_Name = [], tb_Headers = [], tb_Rows = []\<rparr>"

fun row_to_kv :: "header list \<Rightarrow> nat \<Rightarrow> gval list \<Rightarrow> values_map \<Rightarrow> values_map go" where
  "row_to_kv [] i row v = Ret v"
| "row_to_kv (h # hs) i row v =
     go_bind (go_nth row i) (\<lambda>f. row_to_kv hs (i + 1) row (Values_Set v (hd_Name h) f))"

definition ToKV :: "table \<Rightarrow> values_map list go" where
  "ToKV t = go_map (\<lambda>row. row_to_kv (tb_Headers t) 0 row NewValues) (tb_Rows t)"

section \<open>Facts on the ordered map\<close>

definition om_ok :: "ordered_map \<Rightarrow> bool" where
  "om_ok om \<longleftrightarrow> distinct (om_Keys om) \<and> (\<forall>k. k \<in> set (om_Keys om) \<longleftrightarrow> OM_Get om k \<noteq> GNil)"

text \<open>The keys of a sequence of writes, each once, in the order of first insertion.\<close>

fun first_keys :: "gostring list \<Rightarrow> gostring list \<Rightarrow> gostring list" where
  "first_keys seen [] = seen"
| "first_keys seen (k # ks) = first_keys (if k \<in> set seen then seen else seen @ [k]) ks"

lemma OM_Set_ok:
  assumes "om_ok om" "v \<noteq> GNil"
  shows "om_ok (OM_Set om k v)"
    "om_Keys (OM_Set om k v) = (if k \<in> set (om_Keys om) then om_Keys om else om_Keys om @ [k])"
proof -
  show keys: "om_Keys (OM_Set om k v)
      = (if k \<in> set (om_Keys om) then om_Keys om else om_Keys om @ [k])"
    using assms(1) by (auto simp: om_ok_def OM_Set_def Let_def)
  show "om_ok (OM_Set om k v)"
    using assms unfolding om_ok_def keys om.get_put by auto
qed

lemma OM_Set_keys_seq:
  assumes "om_ok om" "list_all (\<lambda>kv. snd kv \<noteq> GNil) kvs"
  shows "om_ok (om.put_all om kvs)"
    "om_Keys (om.put_all om kvs) = first_keys (om_Keys om) (map fst kvs)"
  using assms
proof (induction kvs arbitrary: om)
  case Nil
  { case 1 then show ?case by simp next case 2 then show ?case by simp }
next
  case (Cons kv kvs)
  obtain k v where kv: "kv = (k, v)" by (cases kv)
  { case 1
    with Cons.IH(1) [of "OM_Set om k v"] OM_Set_ok(1) show ?case by (simp add: kv)
  next
    case 2
    with Cons.IH(2) [of "OM_Set om k v"] OM_Set_ok show ?case by (simp add: kv) }
qed

lemma om_ok_New: "om_ok NewOrderedMap"
  by (simp add: om_ok_def NewOrderedMap_def OM_Get_def)

lemma key_index_Some: "key_index ks k = Some i \<Longrightarrow> i < length ks \<and> ks ! i = k"
  by (induction ks arbitrary: i) (auto split: if_splits)

lemma key_index_None: "key_index ks k = None \<longleftrightarrow> k \<notin> set ks"
  by (induction ks) auto

lemma drop_key:
  assumes "distinct ks" "i < length ks"
  shows "set (take i ks @ drop (i + 1) ks) = set ks - {ks ! i}"
proof -
  obtain a x b where "a = take i ks" "x = ks ! i" "b = drop (i + 1) ks" by blast
  then have ab: "ks = a @ x # b" "take i ks = a" "drop (i + 1) ks = b" "ks ! i = x"
    using assms(2) by (simp_all add: id_take_nth_drop [symmetric])
  have "x \<notin> set a" "x \<notin> set b" using assms(1) unfolding ab(1) by simp_all
  moreover have "set ks = insert x (set a \<union> set b)" unfolding ab(1) by simp
  ultimately show ?thesis unfolding ab(2-4) by auto
qed

text \<open>
  After any sequence of writes of non-nil values into an empty ordered map, its
  key list has every key written exactly once, in the order of first insertion, and every key
  reads as its last write.
\<close>

theorem ordered_map_writes:
  assumes "list_all (\<lambda>kv. snd kv \<noteq> GNil) kvs"
  shows "om_Keys (om.put_all NewOrderedMap kvs) = first_keys [] (map fst kvs) \<and>
    distinct (om_Keys (om.put_all NewOrderedMap kvs)) \<and>
    (\<forall>k. OM_Get (om.put_all NewOrderedMap kvs) k
       = (case map_of (rev kvs) k of Some v \<Rightarrow> v | None \<Rightarrow> GNil))"
proof -
  note ok = OM_Set_keys_seq [OF om_ok_New assms]
  have n: "OM_Get NewOrderedMap k = GNil" "om_Keys NewOrderedMap = []" for k
    by (simp_all add: OM_Get_def NewOrderedMap_def)
  have "OM_Get (om.put_all NewOrderedMap kvs) k
      = (case map_of (rev kvs) k of Some v \<Rightarrow> v | None \<Rightarrow> GNil)" for k
    by (cases "map_of (rev kvs) k") (simp_all add: om.get_put_all n)
  then show ?thesis using ok by (simp add: om_ok_def n)
qed

theorem ordered_map_writes_witness:
  "om_Keys (om.put_all NewOrderedMap [(''b'', GBool True), (''a'', GInt 1), (''b'', GInt 2)])
    = [''b'', ''a'']"
  using ordered_map_writes [of "[(''b'', GBool True), (''a'', GInt 1), (''b'', GInt 2)]"] by simp

text \<open>
  \<open>Delete\<close> takes the key off the key list but keeps its value: reads are unchanged,
  so the deleted key still reads as present, and writing it again does not put it back on the
  list, so an enumeration never visits it again.
\<close>

theorem ordered_map_delete:
  assumes "om_ok om" "k \<in> set (om_Keys om)" "v \<noteq> GNil"
  shows "set (om_Keys (OM_Delete om k)) = set (om_Keys om) - {k} \<and>
    (\<forall>k'. OM_Get (OM_Delete om k) k' = OM_Get om k') \<and> OM_HasKey (OM_Delete om k) k \<and>
    k \<notin> set (om_Keys (OM_Set (OM_Delete om k) k v))"
proof -
  obtain i where i: "OM_GetKeyIndex om k = Some i"
    using assms(2) key_index_None by (cases "OM_GetKeyIndex om k") (auto simp: OM_GetKeyIndex_def)
  then have ik: "i < length (om_Keys om)" "om_Keys om ! i = k"
    using key_index_Some by (auto simp: OM_GetKeyIndex_def)
  have g: "OM_Get om k \<noteq> GNil" using assms(1,2) by (auto simp: om_ok_def)
  then have d: "OM_Delete om k
      = om\<lparr>om_Keys := take i (om_Keys om) @ drop (i + 1) (om_Keys om)\<rparr>"
    using i by (simp add: OM_Delete_def)
  have get: "OM_Get (OM_Delete om k) k' = OM_Get om k'" for k' by (simp add: d OM_Get_def)
  have keys: "set (om_Keys (OM_Delete om k)) = set (om_Keys om) - {k}"
    using drop_key [of "om_Keys om" i] assms(1) ik by (simp add: d om_ok_def)
  then have "k \<notin> set (om_Keys (OM_Set (OM_Delete om k) k v))"
    using g by (simp add: OM_Set_def Let_def get)
  then show ?thesis using keys get g by (simp add: OM_HasKey_def)
qed

theorem ordered_map_delete_witness:
  "OM_HasKey (OM_Delete (OM_Set NewOrderedMap ''a'' (GInt 1)) ''a'') ''a'' \<and>
    om_Keys (OM_Delete (OM_Set NewOrderedMap ''a'' (GInt 1)) ''a'') = []"
  using ordered_map_delete [of "OM_Set NewOrderedMap ''a'' (GInt 1)" "''a''" "GInt 1"]
    OM_Set_ok [OF om_ok_New, of "GInt 1" "''a''"]
  by (simp add: NewOrderedMap_def)

section \<open>Facts on the key-value view of a table\<close>

lemma row_to_kv_Ret:
  "i + length hs \<le> length row \<Longrightarrow> row_to_kv hs i row v
     = Ret (vals.put_all v (map (\<lambda>j. (hd_Name (hs ! j), row ! (i + j))) [0..<length hs]))"
proof (induction hs arbitrary: i v)
  case Nil
  then show ?case by simp
next
  case (Cons h hs)
  have "[0..<length (h # hs)] = 0 # map Suc [0..<length hs]"
    by (simp add: upt_conv_Cons map_Suc_upt del: upt_Suc)
  with Cons show ?case by (simp add: go_nth_def comp_def del: upt_Suc)
qed

lemma row_to_kv_short:
  "length row < i + length hs \<Longrightarrow> i \<le> length row \<Longrightarrow> row_to_kv hs i row v = Panic IndexOutOfRange"
  by (induction hs arbitrary: i v) (auto simp: go_nth_def)

text \<open>
  The key-value view of a table whose rows are at least as wide as its headers
  succeeds, keeps the rows in order, and each column reads as its field under its header's
  name when the names are distinct; one row narrower than the headers makes it panic.
\<close>

theorem table_to_kv:
  assumes "distinct (map hd_Name (tb_Headers t))"
  shows "if list_all (\<lambda>row. length (tb_Headers t) \<le> length row) (tb_Rows t)
    then \<exists>kvs. ToKV t = Ret kvs \<and> length kvs = length (tb_Rows t) \<and>
      (\<forall>r < length kvs. \<forall>c < length (tb_Headers t).
         Values_Get (kvs ! r) (hd_Name (tb_Headers t ! c)) = tb_Rows t ! r ! c)
    else ToKV t = Panic IndexOutOfRange"
proof (cases "list_all (\<lambda>row. length (tb_Headers t) \<le> length row) (tb_Rows t)")
  case True
  let ?hs = "tb_Headers t"
  define kv where
    "kv row = map (\<lambda>j. (hd_Name (?hs ! j), row ! j)) [0..<length ?hs]" for row :: "gval list"
  have r: "ToKV t = Ret (map (\<lambda>row. vals.put_all NewValues (kv row)) (tb_Rows t))"
    unfolding ToKV_def kv_def using True row_to_kv_Ret [of 0 ?hs _ NewValues]
    by (intro go_map_all_Ret) (auto simp: list_all_iff)
  have "map fst (kv row) = map hd_Name (map (\<lambda>j. ?hs ! j) [0..<length ?hs])" for row
    by (simp add: kv_def)
  then have d: "distinct (map fst (kv row))" for row unfolding map_nth using assms by simp
  have "Values_Get (vals.put_all NewValues (kv row)) (hd_Name (?hs ! c)) = row ! c"
    if "c < length ?hs" for row c
    using vals.get_put_all_distinct [OF d, of c row NewValues] that by (simp add: kv_def)
  with r True show ?thesis by simp
next
  case False
  have "ToKV t = Panic IndexOutOfRange"
  proof -
    have "go_map (\<lambda>row. row_to_kv (tb_Headers t) 0 row NewValues) rows = Panic IndexOutOfRange"
      if "\<not> list_all (\<lambda>row. length (tb_Headers t) \<le> length row) rows" for rows
      using that
    proof (induction rows)
      case Nil
      then show ?case by simp
    next
      case (Cons row rows)
      then show ?case
        using row_to_kv_short [of row 0 "tb_Headers t" NewValues]
          row_to_kv_Ret [of 0 "tb_Headers t" row NewValues]
        by (cases "length (tb_Headers t) \<le> length row") auto
    qed
    with False show ?thesis by (simp add: ToKV_def)
  qed
  with False show ?thesis by simp
qed

definition sample_table :: table where
  "sample_table = \<lparr>tb_Name = ''t'',
     tb_Headers = [\<lparr>hd_Name = ''a'', hd_PropertyType = PT_INT32\<rparr>,
                   \<lparr>hd_Name = ''b'', hd_PropertyType = PT_BOOL\<rparr>],
     tb_Rows = [[GInt32 5, GBool True]]\<rparr>"

theorem table_to_kv_witness:
  "\<exists>kvs. ToKV sample_table = Ret kvs \<and> length kvs = 1 \<and>
    Values_Get (kvs ! 0) ''b'' = GBool True"
proof -
  have "\<exists>kvs. ToKV sample_table = Ret kvs \<and> length kvs = length (tb_Rows sample_table) \<and>
      (\<forall>r < length kvs. \<forall>c < length (tb_Headers sample_table).
         Values_Get (kvs ! r) (hd_Name (tb_Headers sample_table ! c)) = tb_Rows sample_table ! r ! c)"
    using table_to_kv [of sample_table] by (simp add: sample_table_def)
  then obtain kvs where "ToKV sample_table = Ret kvs" and l: "length kvs = length (tb_Rows sample_table)"
    and g: "\<And>r c. r < length kvs \<Longrightarrow> c < length (tb_Headers sample_table) \<Longrightarrow>
       Values_Get (kvs ! r) (hd_Name (tb_Headers sample_table ! c)) = tb_Rows sample_table ! r ! c"
    by blast
  moreover have "Values_Get (kvs ! 0) ''b'' = GBool True" "length kvs = 1"
    using g [of 0 1] l by (simp_all add: sample_table_def)
  ultimately show ?thesis by blast
qed

end
