(* ===== verification/Structs.thy ===== *)
theory Structs
  imports Containers Serilizer
begin

text \<open>
  The data structures of \<open>sdk/structs\<close>: nodes, edges and their conversion from and to rows,
  schemas and their comparison, paths and graphs. A pointer that the source may leave nil is an
  option; a nil slice and an empty one are both the empty list. The order of a map enumeration
  is an argument.
\<close>

section \<open>Schemas\<close>

record schema_stat =
  ss_DBType :: db_type
  ss_Schema :: gostring
  ss_FromSchema :: gostring
  ss_ToSchema :: gostring
  ss_Count :: uint64

record graph_count =
  gc_Type :: gostring
  gc_Schema :: gostring
  gc_Stat :: schema_stat

record schema =
  sc_Name :: gostring
  sc_Description :: gostring
  sc_Properties :: "property list"
  sc_DBType :: db_type
  sc_Total :: uint64
  sc_Id :: gostring
  sc_Stats :: "schema_stat list"

definition NewSchema :: "gostring \<Rightarrow> schema" where
  "NewSchema name = \<lparr>sc_Name = name, sc_Description = [], sc_Properties = [], sc_DBType = DBNODE,
     sc_Total = 0, sc_Id = [], sc_Stats = []\<rparr>"

definition GetProperty :: "schema \<Rightarrow> gostring \<Rightarrow> property option" where
  "GetProperty s name =
     Find (Some (sc_Properties s)) (\<lambda>index. prop_name (sc_Properties s ! index) = name)"

text \<open>The schema messages of the protocol.\<close>

record proto_property =
  pp_PropertyName :: gostring
  pp_PropertyType :: property_type
  pp_SubTypes :: "property_type list"

record proto_schema =
  ps_SchemaName :: gostring
  ps_Properties :: "proto_property list"

definition property_of_proto :: "proto_property \<Rightarrow> property" where
  "property_of_proto h = empty_property\<lparr>prop_name := pp_PropertyName h,
     prop_type := pp_PropertyType h, prop_subtypes := pp_SubTypes h\<rparr>"

definition ConvertProtoSchemaToSdkSchema :: "proto_schema \<Rightarrow> db_type \<Rightarrow> schema" where
  "ConvertProtoSchemaToSdkSchema pSchema DBType =
     (NewSchema (ps_SchemaName pSchema))
       \<lparr>sc_DBType := DBType, sc_Properties := map property_of_proto (ps_Properties pSchema)\<rparr>"

definition NewSchemaMapFromProtoSchema ::
  "proto_schema list \<Rightarrow> db_type \<Rightarrow> gostring \<rightharpoonup> schema" where
  "NewSchemaMapFromProtoSchema schemas DBType =
     fold (\<lambda>s m. m(ps_SchemaName s \<mapsto> ConvertProtoSchemaToSdkSchema s DBType)) schemas Map.empty"

definition GetDBTypeByString :: "gostring \<Rightarrow> db_type \<times> go_error option" where
  "GetDBTypeByString str =
     (if to_lower str = ''node'' then (DBNODE, None)
      else if to_lower str = ''edge'' then (DBEDGE, None)
      else (DBNODE, Some (Err (''DBType is not Exist : '' @ str))))"

definition DBTypeToString :: "db_type \<Rightarrow> gostring" where
  "DBTypeToString t = (case t of DBNODE \<Rightarrow> ''node'' | DBEDGE \<Rightarrow> ''edge'' | _ \<Rightarrow> [])"

text \<open>The error of \<open>GetDBTypeByString\<close> is dropped, so an unknown type counts as a node's.\<close>

definition SetStatsByGraphCount :: "schema \<Rightarrow> graph_count list \<Rightarrow> schema" where
  "SetStatsByGraphCount s g =
     fold (\<lambda>gc s.
       let dbType = fst (GetDBTypeByString (gc_Type gc))
       in if \<not> (gc_Schema gc = sc_Name s \<and> dbType = sc_DBType s) then s
          else s\<lparr>sc_Stats := sc_Stats s @ [\<lparr>ss_DBType = dbType, ss_Schema = gc_Schema gc,
                   ss_FromSchema = ss_FromSchema (gc_Stat gc),
                   ss_ToSchema = ss_ToSchema (gc_Stat gc), ss_Count = ss_Count (gc_Stat gc)\<rparr>],
                 sc_Total := sc_Total s + ss_Count (gc_Stat gc)\<rparr>) g s"

section \<open>Comparison of schemas\<close>

definition property_map :: "property list \<Rightarrow> gostring \<rightharpoonup> property" where
  "property_map ps = fold (\<lambda>p m. m(prop_name p \<mapsto> p)) ps Map.empty"

text \<open>The loop over the first map, in the enumeration order given.\<close>

fun compare_loop ::
  "bool \<Rightarrow> gostring \<Rightarrow> (gostring \<rightharpoonup> property) \<Rightarrow> (gostring \<times> property) list \<Rightarrow> property list
   \<Rightarrow> go_error option \<times> property list" where
  "compare_loop fit name1 m2 [] acc = (None, acc)"
| "compare_loop fit name1 m2 ((name, prop1) # rest) acc =
     (if IsIDType prop1 \<or> IsIgnore prop1 then compare_loop fit name1 m2 rest acc
      else let prop2 = m2 name in
        if fit \<and> (case prop2 of None \<Rightarrow> False | Some p2 \<Rightarrow> prop_type p2 \<noteq> prop_type prop1)
        then (Some (Err (''schema compare failed, property : @'' @ name1 @ ''.''
                @ prop_name prop1 @ '' mismatch'')), [])
        else if \<not> fit \<and> (case prop2 of None \<Rightarrow> True | Some p2 \<Rightarrow> prop_type p2 \<noteq> prop_type prop1)
        then (Some (Err (''schema compare failed, property : @'' @ name1 @ ''.''
                @ prop_name prop1 @ '' not exist'')), [])
        else if fit \<and> prop2 = None \<and> \<not> IsIDType prop1
        then compare_loop fit name1 m2 rest (acc @ [prop1])
        else compare_loop fit name1 m2 rest acc)"

definition CompareSchemas ::
  "((gostring \<rightharpoonup> property) \<Rightarrow> (gostring \<times> property) list) \<Rightarrow> schema option \<Rightarrow> schema option
   \<Rightarrow> bool \<Rightarrow> go_error option \<times> property list" where
  "CompareSchemas enum schema1 schema2 fit =
     (case schema1 of
        None \<Rightarrow> (Some (Err ''schema compare failed, schema1 is required''), [])
      | Some s1 \<Rightarrow>
        (case schema2 of
           None \<Rightarrow>
             if fit then (None, [])
             else (Some (Err
                 ''schema compare failed, schema2 is required or set fit to true''), [])
         | Some s2 \<Rightarrow>
             compare_loop fit (sc_Name s1) (property_map (sc_Properties s2))
               (enum (property_map (sc_Properties s1))) []))"

section \<open>Nodes and edges\<close>

type_synonym uuid = "64 word"

record node =
  nd_ID :: gostring
  nd_UUID :: uuid
  nd_Schema :: gostring
  nd_Values :: "values_map option"

record edge =
  ed_UUID :: uuid
  ed_FromUUID :: uuid
  ed_ToUUID :: uuid
  ed_From :: gostring
  ed_To :: gostring
  ed_Schema :: gostring
  ed_Values :: "values_map option"

record meta_data =
  md_ID :: gostring
  md_UUID :: uuid
  md_From :: gostring
  md_To :: gostring
  md_Schema :: gostring
  md_Values :: "values_map option"

record entity_row =
  er_Id :: gostring
  er_Uuid :: uuid
  er_FromId :: gostring
  er_FromUuid :: uuid
  er_ToId :: gostring
  er_ToUuid :: uuid
  er_SchemaName :: gostring
  er_Values :: "bytes list"
  er_IsNull :: bool

definition NewNode :: node where
  "NewNode = \<lparr>nd_ID = [], nd_UUID = 0, nd_Schema = [], nd_Values = Some NewValues\<rparr>"

definition NewEdge :: edge where
  "NewEdge = \<lparr>ed_UUID = 0, ed_FromUUID = 0, ed_ToUUID = 0, ed_From = [], ed_To = [],
     ed_Schema = [], ed_Values = Some NewValues\<rparr>"

definition NewEdgeFromMetaData :: "meta_data \<Rightarrow> edge" where
  "NewEdgeFromMetaData md = \<lparr>ed_UUID = md_UUID md, ed_FromUUID = 0, ed_ToUUID = 0,
     ed_From = md_From md, ed_To = md_To md, ed_Schema = md_Schema md, ed_Values = md_Values md\<rparr>"

definition Node_Get :: "node \<Rightarrow> gostring \<Rightarrow> gval go" where
  "Node_Get n propName = go_lift (\<lambda>v. Values_Get v propName) (deref (nd_Values n))"

definition Node_GetBytes :: "node \<Rightarrow> gostring \<Rightarrow> bytes go" where
  "Node_GetBytes n key = go_bind (Node_Get n key) ConvertInterfaceToBytes"

definition Node_GetBytesSafe ::
  "'a env_scheme \<Rightarrow> node \<Rightarrow> gostring \<Rightarrow> property_type \<Rightarrow> property_type list
   \<Rightarrow> request_config option \<Rightarrow> bytes go" where
  "Node_GetBytesSafe env n key t subTypes req =
     go_bind (Node_Get n key) (\<lambda>v. ConvertInterfaceToBytesSafe env v t subTypes req)"

definition Node_Set :: "node \<Rightarrow> gostring \<Rightarrow> gval \<Rightarrow> node go" where
  "Node_Set n propName value =
     go_lift (\<lambda>v. n\<lparr>nd_Values := Some (Values_Set v propName value)\<rparr>) (deref (nd_Values n))"

definition Edge_Get :: "edge \<Rightarrow> gostring \<Rightarrow> gval go" where
  "Edge_Get e propName = go_lift (\<lambda>v. Values_Get v propName) (deref (ed_Values e))"

definition Edge_GetBytes :: "edge \<Rightarrow> gostring \<Rightarrow> bytes go" where
  "Edge_GetBytes e key = go_bind (Edge_Get e key) ConvertInterfaceToBytes"

definition Edge_GetBytesSafe ::
  "'a env_scheme \<Rightarrow> edge \<Rightarrow> gostring \<Rightarrow> property_type \<Rightarrow> property_type list
   \<Rightarrow> request_config option \<Rightarrow> bytes go" where
  "Edge_GetBytesSafe env e key t subTypes req =
     go_bind (Edge_Get e key) (\<lambda>v. ConvertInterfaceToBytesSafe env v t subTypes req)"

definition Edge_Set :: "edge \<Rightarrow> gostring \<Rightarrow> gval \<Rightarrow> edge go" where
  "Edge_Set e propName value =
     go_lift (\<lambda>v. e\<lparr>ed_Values := Some (Values_Set v propName value)\<rparr>) (deref (ed_Values e))"

text \<open>A type assertion \<open>.(string)\<close> on a value of another type panics.\<close>

fun as_string :: "gval \<Rightarrow> gostring go" where
  "as_string (GString s) = Ret s"
| "as_string _ = Panic TypeAssertion"

definition UpdateByValueID :: "node \<Rightarrow> node go" where
  "UpdateByValueID n =
     go_bind (Node_Get n ''_id'') (\<lambda>v.
       if v \<noteq> GNil then go_lift (\<lambda>s. n\<lparr>nd_ID := s\<rparr>) (as_string v) else Ret n)"

text \<open>
  The loop that decodes the values of a row: value number \<open>i\<close> with the property number \<open>i\<close> of
  the schema of the row. The schema is dereferenced at the first value only.
\<close>

fun set_row_values ::
  "'a env_scheme \<Rightarrow> schema option \<Rightarrow> nat \<Rightarrow> bytes list \<Rightarrow> values_map \<Rightarrow> values_map go" where
  "set_row_values env sch i [] vals = Ret vals"
| "set_row_values env sch i (v # vs) vals =
     go_bind (deref sch) (\<lambda>s.
     go_bind (go_nth (sc_Properties s) i) (\<lambda>p.
     go_bind (ConvertBytesToInterface env v (prop_type p) (prop_subtypes p)) (\<lambda>value.
       set_row_values env sch (i + 1) vs (Values_Set vals (prop_name p) value))))"

definition NewNodeFromNodeRow :: "'a env_scheme \<Rightarrow> schema \<Rightarrow> entity_row \<Rightarrow> node go" where
  "NewNodeFromNodeRow env sch row =
     go_lift (\<lambda>vals. \<lparr>nd_ID = er_Id row, nd_UUID = er_Uuid row, nd_Schema = sc_Name sch,
         nd_Values = Some vals\<rparr>)
       (set_row_values env (Some sch) 0 (er_Values row) NewValues)"

definition NewEdgeFromEdgeRow :: "'a env_scheme \<Rightarrow> schema \<Rightarrow> entity_row \<Rightarrow> edge go" where
  "NewEdgeFromEdgeRow env sch row =
     go_lift (\<lambda>vals. \<lparr>ed_UUID = er_Uuid row, ed_FromUUID = er_FromUuid row,
         ed_ToUUID = er_ToUuid row, ed_From = er_FromId row, ed_To = er_ToId row,
         ed_Schema = er_SchemaName row, ed_Values = Some vals\<rparr>)
       (set_row_values env (Some sch) 0 (er_Values row) NewValues)"

text \<open>
  \<open>ConvertStringNodes\<close> parses every property of the schema from its string. For a value that is
  no string the source formats the empty string it has just declared, so the text is empty.
  A conversion error leaves the value as it was.
\<close>

definition convert_string_value ::
  "'a env_scheme \<Rightarrow> location option \<Rightarrow> property \<Rightarrow> gostring \<Rightarrow> values_map \<Rightarrow> values_map go" where
  "convert_string_value env location p str vals =
     (case StringAsInterface env str (prop_type p) location of
        Ret v \<Rightarrow> Ret (Values_Set vals (prop_name p) v)
      | Fail e \<Rightarrow> Ret vals
      | Panic x \<Rightarrow> Panic x)"

definition ConvertStringNodes ::
  "'a env_scheme \<Rightarrow> schema \<Rightarrow> node list \<Rightarrow> request_config option \<Rightarrow> node list go" where
  "ConvertStringNodes env sch nodes req =
     (let location = GetLocationFromConfig env req in
      go_map (\<lambda>n.
        go_fold (\<lambda>p n.
          go_bind (deref (nd_Values n)) (\<lambda>vals.
            let stri = Values_Get vals (prop_name p);
                str = (if stri = GNil then GetDefaultNilString (prop_type p)
                       else case stri of GString s \<Rightarrow> s | _ \<Rightarrow> [])
            in go_lift (\<lambda>vals'. n\<lparr>nd_Values := Some vals'\<rparr>)
                 (convert_string_value env location p str vals)))
          (sc_Properties sch) n) nodes)"

definition ConvertStringEdges ::
  "'a env_scheme \<Rightarrow> schema \<Rightarrow> edge list \<Rightarrow> request_config option \<Rightarrow> edge list go" where
  "ConvertStringEdges env sch edges req =
     (let location = GetLocationFromConfig env req in
      go_map (\<lambda>e.
        go_fold (\<lambda>p e.
          go_bind (deref (ed_Values e)) (\<lambda>vals.
            let stri = Values_Get vals (prop_name p)
            in go_bind (if stri = GNil then Ret (GetDefaultNilString (prop_type p))
                        else as_string stri) (\<lambda>str.
                 go_lift (\<lambda>vals'. e\<lparr>ed_Values := Some vals'\<rparr>)
                   (convert_string_value env location p str vals))))
          (sc_Properties sch) e) edges)"

text \<open>
  \<open>GetSchemasOfNodeList\<close>: the property names of each schema in the order they are first met,
  then one schema per name. \<open>enum\<close> is the order in which the values of a row are enumerated.
\<close>

definition add_property_names :: "gostring list \<Rightarrow> gostring list \<Rightarrow> gostring list" where
  "add_property_names names propertyList =
     fold (\<lambda>p ps. if \<not> Contains ps p then ps @ [p] else ps) names propertyList"

fun schema_properties_map ::
  "(values_map \<Rightarrow> gostring list) \<Rightarrow> (gostring \<times> values_map option) list
   \<Rightarrow> (gostring \<rightharpoonup> gostring list) \<Rightarrow> (gostring \<rightharpoonup> gostring list) go" where
  "schema_properties_map enum [] m = Ret m"
| "schema_properties_map enum ((sname, values) # rest) m =
     go_bind (deref values) (\<lambda>vals.
       let propertyList = (case m sname of Some ps \<Rightarrow> ps | None \<Rightarrow> [])
       in schema_properties_map enum rest
            (m(sname \<mapsto> add_property_names (enum vals) propertyList)))"

definition schemas_of_map :: "db_type \<Rightarrow> (gostring \<rightharpoonup> gostring list) \<Rightarrow> gostring \<rightharpoonup> schema" where
  "schemas_of_map t m = (\<lambda>schemaName. map_option (\<lambda>propertyList.
     (NewSchema schemaName)\<lparr>sc_DBType := t,
       sc_Properties := map (\<lambda>propertyName. empty_property\<lparr>prop_name := propertyName,
          prop_schema := schemaName\<rparr>) propertyList\<rparr>) (m schemaName))"

definition GetSchemasOfNodeList ::
  "(values_map \<Rightarrow> gostring list) \<Rightarrow> node list \<Rightarrow> (gostring \<rightharpoonup> schema) go" where
  "GetSchemasOfNodeList enum nodes =
     go_lift (schemas_of_map DBNODE)
       (schema_properties_map enum (map (\<lambda>n. (nd_Schema n, nd_Values n)) nodes) Map.empty)"

definition GetSchemasOfEdgeList ::
  "(values_map \<Rightarrow> gostring list) \<Rightarrow> edge list \<Rightarrow> (gostring \<rightharpoonup> schema) go" where
  "GetSchemasOfEdgeList enum edges =
     go_lift (schemas_of_map DBEDGE)
       (schema_properties_map enum (map (\<lambda>e. (ed_Schema e, ed_Values e)) edges) Map.empty)"

section \<open>Paths and graphs\<close>

record path =
  pa_NodeUUIDs :: "uuid list"
  pa_EdgeUUIDs :: "uuid list"
  pa_Nodes :: "uuid \<rightharpoonup> node"
  pa_Edges :: "uuid \<rightharpoonup> edge"

definition GetLastNode :: "path \<Rightarrow> uuid go" where
  "GetLastNode p =
     (if pa_NodeUUIDs p = [] then Panic IndexOutOfRange
      else go_nth (pa_NodeUUIDs p) (length (pa_NodeUUIDs p) - 1))"

definition Path_Length :: "path \<Rightarrow> nat" where
  "Path_Length p = length (pa_EdgeUUIDs p)"

record graph =
  gr_Paths :: "path list"
  gr_Nodes :: "uuid \<rightharpoonup> node"
  gr_Edges :: "uuid \<rightharpoonup> edge"

definition NewGraph :: graph where
  "NewGraph = \<lparr>gr_Paths = [], gr_Nodes = Map.empty, gr_Edges = Map.empty\<rparr>"

definition AddNodes :: "graph \<Rightarrow> node option \<Rightarrow> graph" where
  "AddNodes g n =
     (case n of None \<Rightarrow> g | Some x \<Rightarrow> g\<lparr>gr_Nodes := (gr_Nodes g)(nd_UUID x \<mapsto> x)\<rparr>)"

definition AddEdges :: "graph \<Rightarrow> edge option \<Rightarrow> graph" where
  "AddEdges g e =
     (case e of None \<Rightarrow> g | Some x \<Rightarrow> g\<lparr>gr_Edges := (gr_Edges g)(ed_UUID x \<mapsto> x)\<rparr>)"

section \<open>Attributes\<close>

text \<open>
  An attribute and its values: a decoded scalar, the data of a list of nodes, edges or paths, a
  row of values, a key-value pair, or one of the three grouped results. The flag of \<open>Attr\<close>
  says whether the \<open>Values\<close> slice is non-nil.
\<close>

datatype attr =
  Attr (at_Name: gostring) (at_PropertyType: property_type) (at_ResultType: result_type)
    (at_Values: "attr_value list option")
and attr_value =
    AV gval
  | AVListData result_type "node list" "edge list" "path list"
  | AVRow "attr_value list"
  | AVMap attr attr
  | AVNodes "node list list"
  | AVEdges "edge list list"
  | AVPaths result_type "path list list"

record attr_nodes =
  an_Name :: gostring
  an_ResultType :: result_type
  an_NodesList :: "node list list"

record attr_edges =
  ae_Name :: gostring
  ae_ResultType :: result_type
  ae_EdgesList :: "edge list list"

record attr_paths =
  ap_Name :: gostring
  ap_ResultType :: result_type
  ap_PathsList :: "path list list"

definition NewAttr :: attr where
  "NewAttr = Attr [] PT_UNSET RT_UNSET (Some [])"

fun list_nodes :: "attr_value \<Rightarrow> node list go" where
  "list_nodes (AVListData t ns es ps) = Ret ns"
| "list_nodes _ = Panic TypeAssertion"

fun list_edges :: "attr_value \<Rightarrow> edge list go" where
  "list_edges (AVListData t ns es ps) = Ret es"
| "list_edges _ = Panic TypeAssertion"

fun list_paths :: "attr_value \<Rightarrow> path list go" where
  "list_paths (AVListData t ns es ps) = Ret ps"
| "list_paths _ = Panic TypeAssertion"

definition ListAttrAsAttrNodes :: "attr \<Rightarrow> attr_nodes option go" where
  "ListAttrAsAttrNodes a =
     (if at_PropertyType a \<noteq> PT_LIST
      then Fail (Err (''value of this '' @ at_Name a @ '' is not a LIST type''))
      else case at_Values a of
        None \<Rightarrow> Ret None
      | Some rows \<Rightarrow>
          if rows = []
          then Ret (Some \<lparr>an_Name = [], an_ResultType = RT_UNSET, an_NodesList = []\<rparr>)
          else if at_ResultType a \<noteq> RT_NODE
          then Fail (Err (''value of this '' @ at_Name a @ '' is not a LIST Node type''))
          else go_lift (\<lambda>nss. Some \<lparr>an_Name = [], an_ResultType = RT_UNSET, an_NodesList = nss\<rparr>)
                 (go_map list_nodes rows))"

definition ListAttrAsAttrEdges :: "attr \<Rightarrow> attr_edges option go" where
  "ListAttrAsAttrEdges a =
     (if at_PropertyType a \<noteq> PT_LIST
      then Fail (Err (''value of this '' @ at_Name a @ '' is not a LIST type''))
      else case at_Values a of
        None \<Rightarrow> Ret None
      | Some rows \<Rightarrow>
          if rows = []
          then Ret (Some \<lparr>ae_Name = [], ae_ResultType = RT_UNSET, ae_EdgesList = []\<rparr>)
          else if at_ResultType a \<noteq> RT_EDGE
          then Fail (Err (''value of this '' @ at_Name a @ '' is not a LIST Edge type''))
          else go_lift (\<lambda>ess. Some \<lparr>ae_Name = [], ae_ResultType = RT_UNSET, ae_EdgesList = ess\<rparr>)
                 (go_map list_edges rows))"

definition ListAttrAsAttrPaths :: "attr \<Rightarrow> attr_paths option go" where
  "ListAttrAsAttrPaths a =
     (if at_PropertyType a \<noteq> PT_LIST
      then Fail (Err (''value of this '' @ at_Name a @ '' is not a LIST type''))
      else case at_Values a of
        None \<Rightarrow> Ret None
      | Some rows \<Rightarrow>
          if rows = []
          then Ret (Some \<lparr>ap_Name = [], ap_ResultType = RT_UNSET, ap_PathsList = []\<rparr>)
          else if at_ResultType a \<noteq> RT_PATH
          then Fail (Err (''value of this '' @ at_Name a @ '' is not a LIST Path type''))
          else go_lift (\<lambda>pss. Some \<lparr>ap_Name = [], ap_ResultType = at_ResultType a,
                   ap_PathsList = pss\<rparr>)
                 (go_map list_paths rows))"

text \<open>
  The grouped result becomes the single value of a new attribute; a nil group is impossible
  there, since the values are not empty. A result type outside the switch gives a nil result.
\<close>

definition ListAttrAsAttr :: "attr \<Rightarrow> attr option go" where
  "ListAttrAsAttr a =
     (if at_PropertyType a \<noteq> PT_LIST \<and> at_PropertyType a \<noteq> PT_SET
      then Fail (Err (''value of this '' @ at_Name a @ '' is not a LIST or SET type''))
      else case at_Values a of
        None \<Rightarrow> Ret (Some (Attr (at_Name a) PT_UNSET RT_UNSET None))
      | Some rows \<Rightarrow>
          if rows = [] then Ret (Some (Attr (at_Name a) PT_UNSET RT_UNSET (Some [])))
          else
            let wrap = (\<lambda>v. Some (Attr (at_Name a) (at_PropertyType a) (at_ResultType a) (Some [v])))
            in case at_ResultType a of
              RT_ATTR \<Rightarrow> Ret (Some a)
            | RT_PATH \<Rightarrow> go_bind (ListAttrAsAttrPaths a) (\<lambda>r. go_lift (\<lambda>p.
                 wrap (AVPaths (ap_ResultType p) (ap_PathsList p))) (deref r))
            | RT_NODE \<Rightarrow> go_bind (ListAttrAsAttrNodes a) (\<lambda>r. go_lift (\<lambda>n.
                 wrap (AVNodes (an_NodesList n))) (deref r))
            | RT_EDGE \<Rightarrow> go_bind (ListAttrAsAttrEdges a) (\<lambda>r. go_lift (\<lambda>e.
                 wrap (AVEdges (ae_EdgesList e))) (deref r))
            | _ \<Rightarrow> Ret None)"

section \<open>What the comparison of schemas decides\<close>

definition compared :: "property \<Rightarrow> bool" where
  "compared p = (\<not> IsIDType p \<and> \<not> IsIgnore p)"

definition property_fits :: "bool \<Rightarrow> (gostring \<rightharpoonup> property) \<Rightarrow> gostring \<times> property \<Rightarrow> bool" where
  "property_fits fit m2 np =
     (compared (snd np) \<longrightarrow>
       (case m2 (fst np) of None \<Rightarrow> fit | Some p2 \<Rightarrow> prop_type p2 = prop_type (snd np)))"

definition property_missing :: "(gostring \<rightharpoonup> property) \<Rightarrow> gostring \<times> property \<Rightarrow> bool" where
  "property_missing m2 np = (compared (snd np) \<and> m2 (fst np) = None)"

lemma compare_loop_spec:
  "(fst (compare_loop fit n m2 l acc) = None \<longleftrightarrow> list_all (property_fits fit m2) l) \<and>
   (list_all (property_fits fit m2) l \<longrightarrow>
     snd (compare_loop fit n m2 l acc) = acc @ map snd (filter (property_missing m2) l))"
proof (induction l arbitrary: acc)
  case Nil
  then show ?case by simp
next
  case (Cons np l)
  obtain name p where np: "np = (name, p)" by (cases np)
  show ?case
  proof (cases "compared p")
    case False
    then show ?thesis using Cons.IH
      by (auto simp: np compared_def property_fits_def property_missing_def)
  next
    case True
    then show ?thesis using Cons.IH
      by (cases "m2 name"; cases fit)
        (auto simp: np compared_def property_fits_def property_missing_def Let_def)
  qed
qed

text \<open>An enumeration of a map: every entry once.\<close>

definition enumerates :: "('k \<times> 'v) list \<Rightarrow> ('k \<rightharpoonup> 'v) \<Rightarrow> bool" where
  "enumerates l m \<longleftrightarrow> distinct (map fst l) \<and> map_of l = m"

lemma enumerates_iff: "enumerates l m \<Longrightarrow> (k, v) \<in> set l \<longleftrightarrow> m k = Some v"
  unfolding enumerates_def using map_of_eq_Some_iff [of l k v] by metis

text \<open>A property stands in the map under its own name, so the missing ones are listed once each.\<close>

lemma property_map_name: "property_map ps name = Some p \<Longrightarrow> prop_name p = name"
proof -
  have "fold (\<lambda>p m. m(prop_name p \<mapsto> p)) ps m name = Some p \<Longrightarrow>
      (\<forall>k q. m k = Some q \<longrightarrow> prop_name q = k) \<Longrightarrow> prop_name p = name" for m
    by (induction ps arbitrary: m) (auto split: if_splits)
  then show "property_map ps name = Some p \<Longrightarrow> prop_name p = name" by (simp add: property_map_def)
qed

lemma enumerated_names:
  assumes "enumerates l (property_map ps)"
  shows "distinct (map prop_name (map snd (filter P l)))"
proof -
  have e: "map prop_name (map snd (filter P l)) = map fst (filter P l)"
    using enumerates_iff [OF assms] property_map_name [of ps] by (auto simp: comp_def)
  show ?thesis unfolding e using assms by (simp add: enumerates_def distinct_map_filter)
qed

text \<open>
  Property C27. Whatever the order in which Go enumerates the properties, the comparison of two
  schemas succeeds exactly when every property of the first that is no id and not ignored has,
  in the second, a property of its name and type, or, if the schema may be fitted, none of its
  name; and then it returns exactly those of them whose name the second lacks, no name twice.
  Both schemas are given, and of two properties of a schema with one name the later counts.
\<close>

theorem compare_schemas_spec:
  fixes s1 s2 :: schema and fit :: bool
  assumes "enumerates (enum (property_map (sc_Properties s1))) (property_map (sc_Properties s1))"
  defines "m1 \<equiv> property_map (sc_Properties s1)" and "m2 \<equiv> property_map (sc_Properties s2)"
    and "r \<equiv> CompareSchemas enum (Some s1) (Some s2) fit"
  shows "(fst r = None \<longleftrightarrow> (\<forall>name p. m1 name = Some p \<longrightarrow> \<not> IsIDType p \<longrightarrow> \<not> IsIgnore p \<longrightarrow>
      (case m2 name of None \<Rightarrow> fit | Some p2 \<Rightarrow> prop_type p2 = prop_type p))) \<and>
    (fst r = None \<longrightarrow> distinct (map prop_name (snd r)) \<and> set (snd r)
      = {p. \<exists>name. m1 name = Some p \<and> \<not> IsIDType p \<and> \<not> IsIgnore p \<and> m2 name = None})"
proof -
  let ?l = "enum m1"
  have e: "(k, v) \<in> set ?l \<longleftrightarrow> m1 k = Some v" for k v
    using enumerates_iff [OF assms(1)] by (simp add: m1_def)
  have r: "r = compare_loop fit (sc_Name s1) m2 ?l []"
    by (simp add: r_def CompareSchemas_def m1_def m2_def)
  note sp = compare_loop_spec [of fit "sc_Name s1" m2 ?l "[]", folded r]
  have ok: "list_all (property_fits fit m2) ?l \<longleftrightarrow>
      (\<forall>name p. m1 name = Some p \<longrightarrow> \<not> IsIDType p \<longrightarrow> \<not> IsIgnore p \<longrightarrow>
        (case m2 name of None \<Rightarrow> fit | Some p2 \<Rightarrow> prop_type p2 = prop_type p))"
    unfolding list_all_iff Ball_def split_paired_All property_fits_def compared_def e
      fst_conv snd_conv by blast
  have mi: "set (map snd (filter (property_missing m2) ?l))
      = {p. \<exists>name. m1 name = Some p \<and> \<not> IsIDType p \<and> \<not> IsIgnore p \<and> m2 name = None}"
    by (force simp: property_missing_def compared_def simp flip: e)
  have d: "distinct (map prop_name (map snd (filter (property_missing m2) ?l)))"
    using enumerated_names [OF assms(1), folded m1_def] .
  show ?thesis using sp mi d by (simp only: ok [symmetric]) simp
qed

definition int_property :: "gostring \<Rightarrow> property" where
  "int_property name = empty_property\<lparr>prop_name := name, prop_type := PT_INT32\<rparr>"

theorem compare_schemas_spec_witness:
  "(let cmp = CompareSchemas (\<lambda>_. [(''age'', int_property ''age'')])
      (Some ((NewSchema ''s'')\<lparr>sc_Properties := [int_property ''age'']\<rparr>)) (Some (NewSchema ''s''))
    in fst (cmp False) \<noteq> None \<and> fst (cmp True) = None
      \<and> distinct (map prop_name (snd (cmp True))) \<and> set (snd (cmp True)) = {int_property ''age''})"
proof -
  let ?enum = "\<lambda>_. [(''age'', int_property ''age'')]"
  let ?s1 = "(NewSchema ''s'')\<lparr>sc_Properties := [int_property ''age'']\<rparr>"
  let ?s2 = "NewSchema ''s''"
  have m: "property_map (sc_Properties ?s1) = [''age'' \<mapsto> int_property ''age'']"
    "property_map (sc_Properties ?s2) = Map.empty"
    by (simp_all add: property_map_def int_property_def NewSchema_def)
  have c: "\<not> IsIDType (int_property ''age'')" "\<not> IsIgnore (int_property ''age'')"
    by (simp_all add: IsIDType_def id_types_def IsIgnore_def int_property_def)
  have "enumerates (?enum (property_map (sc_Properties ?s1))) (property_map (sc_Properties ?s1))"
    unfolding m by (simp add: enumerates_def fun_eq_iff)
  note spec = compare_schemas_spec [OF this, of ?s2, unfolded m]
  have no: "fst (CompareSchemas ?enum (Some ?s1) (Some ?s2) False) \<noteq> None" using spec [of False] c by auto
  have yes: "fst (CompareSchemas ?enum (Some ?s1) (Some ?s2) True) = None" using spec [of True] by auto
  have "{p. \<exists>name. [''age'' \<mapsto> int_property ''age''] name = Some p \<and> \<not> IsIDType p \<and> \<not> IsIgnore p
      \<and> Map.empty name = (None :: property option)} = {int_property ''age''}" using c by (auto split: if_splits)
  with no yes spec [of True] show ?thesis unfolding Let_def by (metis (no_types, lifting))
qed

section \<open>Decoded rows\<close>

text \<open>The decoding of value number \<open>i\<close> with property number \<open>i\<close>.\<close>

definition decode_at :: "'a env_scheme \<Rightarrow> property list \<Rightarrow> bytes list \<Rightarrow> nat \<Rightarrow> gval go" where
  "decode_at env ps vs i =
     ConvertBytesToInterface env (vs ! i) (prop_type (ps ! i)) (prop_subtypes (ps ! i))"

lemma set_row_values_Ret:
  assumes "set_row_values env (Some s) i vs vals = Ret vals'"
  shows "i + length vs \<le> length (sc_Properties s) \<or> vs = []"
    "\<exists>xs. length xs = length vs \<and>
      (\<forall>j < length vs. ConvertBytesToInterface env (vs ! j) (prop_type (sc_Properties s ! (i + j)))
          (prop_subtypes (sc_Properties s ! (i + j))) = Ret (xs ! j)) \<and>
      vals' = vals.put_all vals (zip (map prop_name (drop i (sc_Properties s))) xs)"
proof -
  have "(i + length vs \<le> length (sc_Properties s) \<or> vs = []) \<and>
    (\<exists>xs. length xs = length vs \<and>
      (\<forall>j < length vs. ConvertBytesToInterface env (vs ! j) (prop_type (sc_Properties s ! (i + j)))
          (prop_subtypes (sc_Properties s ! (i + j))) = Ret (xs ! j)) \<and>
      vals' = vals.put_all vals (zip (map prop_name (drop i (sc_Properties s))) xs))"
    using assms
  proof (induction vs arbitrary: i vals)
    case Nil
    then show ?case by simp
  next
    case (Cons v vs)
    from Cons.prems obtain x where
      i: "i < length (sc_Properties s)" and
      x: "ConvertBytesToInterface env v (prop_type (sc_Properties s ! i))
            (prop_subtypes (sc_Properties s ! i)) = Ret x" and
      r: "set_row_values env (Some s) (i + 1) vs
            (Values_Set vals (prop_name (sc_Properties s ! i)) x) = Ret vals'"
      by (auto simp: go_simps)
    from Cons.IH [OF r] obtain xs where xs: "length xs = length vs"
      "\<forall>j < length vs. ConvertBytesToInterface env (vs ! j) (prop_type (sc_Properties s ! (i + 1 + j)))
          (prop_subtypes (sc_Properties s ! (i + 1 + j))) = Ret (xs ! j)"
      "vals' = vals.put_all (Values_Set vals (prop_name (sc_Properties s ! i)) x)
          (zip (map prop_name (drop (i + 1) (sc_Properties s))) xs)"
      and le: "i + 1 + length vs \<le> length (sc_Properties s) \<or> vs = []" by blast
    have d: "drop i (sc_Properties s) = sc_Properties s ! i # drop (i + 1) (sc_Properties s)"
      using i by (simp add: Cons_nth_drop_Suc)
    have "\<forall>j < length (v # vs). ConvertBytesToInterface env ((v # vs) ! j)
        (prop_type (sc_Properties s ! (i + j))) (prop_subtypes (sc_Properties s ! (i + j)))
        = Ret ((x # xs) ! j)"
      using xs(2) x by (auto simp: less_Suc_eq_0_disj)
    then show ?case using xs(1,3) d i le by (intro conjI exI [of _ "x # xs"]) auto
  qed
  then show "i + length vs \<le> length (sc_Properties s) \<or> vs = []"
    "\<exists>xs. length xs = length vs \<and>
      (\<forall>j < length vs. ConvertBytesToInterface env (vs ! j) (prop_type (sc_Properties s ! (i + j)))
          (prop_subtypes (sc_Properties s ! (i + j))) = Ret (xs ! j)) \<and>
      vals' = vals.put_all vals (zip (map prop_name (drop i (sc_Properties s))) xs)" by blast+
qed

text \<open>With distinct property names, each reads as its own decoded value.\<close>

lemma set_row_values_get:
  assumes "set_row_values env (Some s) 0 vs NewValues = Ret vals'"
    and "distinct (map prop_name (sc_Properties s))" and "j < length vs"
  shows "decode_at env (sc_Properties s) vs j
    = Ret (Values_Get vals' (prop_name (sc_Properties s ! j)))"
proof -
  from set_row_values_Ret [OF assms(1)] assms(3) obtain xs where
    le: "length vs \<le> length (sc_Properties s)" and xs: "length xs = length vs"
    "\<forall>j < length vs. ConvertBytesToInterface env (vs ! j) (prop_type (sc_Properties s ! j))
        (prop_subtypes (sc_Properties s ! j)) = Ret (xs ! j)"
    "vals' = vals.put_all NewValues (zip (map prop_name (sc_Properties s)) xs)" by auto
  let ?kvs = "zip (map prop_name (sc_Properties s)) xs"
  have "map fst ?kvs = take (length xs) (map prop_name (sc_Properties s))"
    using le xs(1) by (simp add: map_fst_zip_take min_def)
  then have "distinct (map fst ?kvs)" using assms(2) by (simp add: distinct_take)
  moreover have "j < length ?kvs" using assms(3) le xs(1) by simp
  ultimately have "Values_Get vals' (fst (?kvs ! j)) = snd (?kvs ! j)"
    unfolding xs(3) by (rule vals.get_put_all_distinct)
  with xs(1,2) le assms(3) show ?thesis by (simp add: decode_at_def)
qed

end
