(* ===== verification/DataItem.thy ===== *)
theory DataItem
  imports Structs
begin

text \<open>
  \<open>sdk/http/dataitem.go\<close>, first part: the tables of nodes and edges, paths, graphs, tables and
  attributes a reply carries, and their decoding into the structures of \<open>sdk/structs\<close>. The
  payload of a data item is one of five messages; asserting another one panics. The nested
  protobuf messages of attributes come from a decoder that is an argument (\<open>attr_env\<close>); the
  depth of the recursion over them is bounded by a stack depth, and running out of it is the
  outcome \<open>StackOverflow\<close>.
\<close>

section \<open>Messages\<close>

record entity_table =
  et_Schemas :: "proto_schema list"
  et_EntityRows :: "entity_row list"

record node_alias =
  na_Alias :: gostring
  na_NodeTable :: "entity_table option"

record edge_alias =
  ea_Alias :: gostring
  ea_EdgeTable :: "entity_table option"

record proto_path =
  pt_NodeTable :: "entity_table option"
  pt_EdgeTable :: "entity_table option"

record path_alias =
  pl_Alias :: gostring
  pl_Paths :: "proto_path list"

record proto_table =
  tt_TableName :: gostring
  tt_Headers :: "proto_property list"
  tt_TableRows :: "bytes list list"

record proto_attr =
  pa_ValueType :: property_type
  pa_Values :: "bytes list option"

record attr_alias =
  aa_Alias :: gostring
  aa_Attr :: "proto_attr option"

datatype item_data =
    DNil
  | DNodes node_alias
  | DEdges edge_alias
  | DPaths path_alias
  | DTable proto_table
  | DAttr attr_alias

record data_item =
  di_Alias :: gostring
  di_Type :: result_type
  di_Data :: item_data

record proto_attr_list =
  al_IsNull :: bool
  al_Type :: result_type
  al_Nodes :: "entity_table option"
  al_Edges :: "entity_table option"
  al_Paths :: "proto_path list"
  al_Attrs :: "proto_attr list"

record proto_attr_map =
  am_Key :: "proto_attr option"
  am_Value :: "proto_attr option"

record attr_env = env +
  pb_unmarshal_attr_list :: "bytes \<Rightarrow> proto_attr_list go"
  pb_unmarshal_attr_map :: "bytes \<Rightarrow> proto_attr_map go"

text \<open>The type assertions on the payload.\<close>

fun data_nodes :: "item_data \<Rightarrow> node_alias go" where
  "data_nodes (DNodes x) = Ret x" | "data_nodes _ = Panic TypeAssertion"

fun data_edges :: "item_data \<Rightarrow> edge_alias go" where
  "data_edges (DEdges x) = Ret x" | "data_edges _ = Panic TypeAssertion"

fun data_paths :: "item_data \<Rightarrow> path_alias go" where
  "data_paths (DPaths x) = Ret x" | "data_paths _ = Panic TypeAssertion"

fun data_table :: "item_data \<Rightarrow> proto_table go" where
  "data_table (DTable x) = Ret x" | "data_table _ = Panic TypeAssertion"

fun data_attr :: "item_data \<Rightarrow> attr_alias go" where
  "data_attr (DAttr x) = Ret x" | "data_attr _ = Panic TypeAssertion"

section \<open>Nodes and edges\<close>

definition table_schemas :: "db_type \<Rightarrow> proto_schema list \<Rightarrow> gostring \<rightharpoonup> schema" where
  "table_schemas t schemas =
     fold (\<lambda>oSchema m. let s = NewSchema (ps_SchemaName oSchema) in
        m(sc_Name s \<mapsto> s\<lparr>sc_DBType := t,
            sc_Properties := map property_of_proto (ps_Properties oSchema)\<rparr>)) schemas Map.empty"

definition row_to_node :: "'a env_scheme \<Rightarrow> (gostring \<rightharpoonup> schema) \<Rightarrow> entity_row \<Rightarrow> node go" where
  "row_to_node env schemas oNode =
     go_lift (\<lambda>vals. \<lparr>nd_ID = er_Id oNode, nd_UUID = er_Uuid oNode,
         nd_Schema = er_SchemaName oNode, nd_Values = Some vals\<rparr>)
       (set_row_values env (schemas (er_SchemaName oNode)) 0 (er_Values oNode) NewValues)"

definition row_to_edge :: "'a env_scheme \<Rightarrow> (gostring \<rightharpoonup> schema) \<Rightarrow> entity_row \<Rightarrow> edge go" where
  "row_to_edge env schemas oEdge =
     go_lift (\<lambda>vals. \<lparr>ed_UUID = er_Uuid oEdge, ed_FromUUID = er_FromUuid oEdge,
         ed_ToUUID = er_ToUuid oEdge, ed_From = er_FromId oEdge, ed_To = er_ToId oEdge,
         ed_Schema = er_SchemaName oEdge, ed_Values = Some vals\<rparr>)
       (set_row_values env (schemas (er_SchemaName oEdge)) 0 (er_Values oEdge) NewValues)"

fun node_rows ::
  "'a env_scheme \<Rightarrow> (gostring \<rightharpoonup> schema) \<Rightarrow> entity_row list \<Rightarrow> node list \<times> (uuid \<rightharpoonup> node)
   \<Rightarrow> (node list \<times> (uuid \<rightharpoonup> node)) go" where
  "node_rows env schemas [] acc = Ret acc"
| "node_rows env schemas (oNode # rows) (nodes, nodesMap) =
     (if er_IsNull oNode then node_rows env schemas rows (nodes, nodesMap)
      else go_bind (row_to_node env schemas oNode) (\<lambda>n.
        node_rows env schemas rows (nodes @ [n], nodesMap(nd_UUID n \<mapsto> n))))"

fun edge_rows ::
  "'a env_scheme \<Rightarrow> (gostring \<rightharpoonup> schema) \<Rightarrow> entity_row list \<Rightarrow> edge list \<times> (uuid \<rightharpoonup> edge)
   \<Rightarrow> (edge list \<times> (uuid \<rightharpoonup> edge)) go" where
  "edge_rows env schemas [] acc = Ret acc"
| "edge_rows env schemas (oEdge # rows) (edges, edgesMap) =
     (if er_IsNull oEdge then edge_rows env schemas rows (edges, edgesMap)
      else go_bind (row_to_edge env schemas oEdge) (\<lambda>e.
        edge_rows env schemas rows (edges @ [e], edgesMap(ed_UUID e \<mapsto> e))))"

definition NodeTableToNodes ::
  "'a env_scheme \<Rightarrow> entity_table option \<Rightarrow> gostring
   \<Rightarrow> (node list \<times> (uuid \<rightharpoonup> node) \<times> (gostring \<rightharpoonup> schema)) go" where
  "NodeTableToNodes env nt alias =
     go_bind (deref nt) (\<lambda>t.
       let schemas = table_schemas DBNODE (et_Schemas t)
       in go_lift (\<lambda>(nodes, nodesMap). (nodes, nodesMap, schemas))
            (node_rows env schemas (et_EntityRows t) ([], Map.empty)))"

definition NodeTableToUUIDs :: "entity_table option \<Rightarrow> uuid list go" where
  "NodeTableToUUIDs nt =
     go_lift (\<lambda>t. map er_Uuid (filter (\<lambda>r. \<not> er_IsNull r) (et_EntityRows t))) (deref nt)"

definition EdgeTableToEdges ::
  "'a env_scheme \<Rightarrow> entity_table option \<Rightarrow> gostring
   \<Rightarrow> (edge list \<times> (uuid \<rightharpoonup> edge) \<times> (gostring \<rightharpoonup> schema)) go" where
  "EdgeTableToEdges env et alias =
     go_bind (deref et) (\<lambda>t.
       let schemas = table_schemas DBEDGE (et_Schemas t)
       in go_lift (\<lambda>(edges, edgesMap). (edges, edgesMap, schemas))
            (edge_rows env schemas (et_EntityRows t) ([], Map.empty)))"

text \<open>A nil map of schemas and an empty one are both the empty map.\<close>

definition AsNodes :: "'a env_scheme \<Rightarrow> data_item \<Rightarrow> (node list \<times> (gostring \<rightharpoonup> schema)) go" where
  "AsNodes env di =
     (if di_Data di = DNil then Ret ([], Map.empty)
      else if di_Type di = RT_UNSET then Ret ([], Map.empty)
      else if di_Type di \<noteq> RT_NODE \<and> di_Type di \<noteq> RT_ATTR
      then Fail (Err (''dataItem '' @ di_Alias di @ '' is not either Node type or LIST Node type''))
      else go_bind (data_nodes (di_Data di)) (\<lambda>oNodes.
        go_lift (\<lambda>(nodes, _, schemas). (nodes, schemas))
          (NodeTableToNodes env (na_NodeTable oNodes) (na_Alias oNodes))))"

definition AsEdges :: "'a env_scheme \<Rightarrow> data_item \<Rightarrow> (edge list \<times> (gostring \<rightharpoonup> schema)) go" where
  "AsEdges env di =
     (if di_Data di = DNil then Ret ([], Map.empty)
      else if di_Type di = RT_UNSET then Ret ([], Map.empty)
      else if di_Type di \<noteq> RT_EDGE \<and> di_Type di \<noteq> RT_ATTR
      then Fail (Err (''dataItem '' @ di_Alias di @ '' is not either Edge type or LIST Edge type''))
      else go_bind (data_edges (di_Data di)) (\<lambda>oEdges.
        go_lift (\<lambda>(edges, _, schemas). (edges, schemas))
          (EdgeTableToEdges env (ea_EdgeTable oEdges) (ea_Alias oEdges))))"

section \<open>Paths and graphs\<close>

definition parse_path :: "'a env_scheme \<Rightarrow> proto_path \<Rightarrow> path go" where
  "parse_path env oPath =
     go_bind (NodeTableToNodes env (pt_NodeTable oPath) []) (\<lambda>(_, nodesMap, _).
     go_bind (NodeTableToUUIDs (pt_NodeTable oPath)) (\<lambda>nodeUUIDs.
     go_bind (EdgeTableToEdges env (pt_EdgeTable oPath) []) (\<lambda>(_, edgesMap, _).
     go_bind (NodeTableToUUIDs (pt_EdgeTable oPath)) (\<lambda>edgeUUIDs.
       Ret \<lparr>pa_NodeUUIDs = nodeUUIDs, pa_EdgeUUIDs = edgeUUIDs, pa_Nodes = nodesMap,
           pa_Edges = edgesMap\<rparr>))))"

definition parsePaths :: "'a env_scheme \<Rightarrow> proto_path list \<Rightarrow> path list go" where
  "parsePaths env oPaths = go_map (parse_path env) oPaths"

definition AsPaths :: "'a env_scheme \<Rightarrow> data_item \<Rightarrow> path list go" where
  "AsPaths env di =
     (if di_Data di = DNil then Ret []
      else if di_Type di = RT_UNSET then Ret []
      else if di_Type di \<noteq> RT_PATH
      then Fail (Err (''dataItem '' @ di_Alias di @ '' is not either Path type ''))
      else go_bind (data_paths (di_Data di)) (\<lambda>pathAlias. parsePaths env (pl_Paths pathAlias)))"

definition add_path_to_graph :: "'a env_scheme \<Rightarrow> proto_path \<Rightarrow> graph \<Rightarrow> graph go" where
  "add_path_to_graph env oPath g =
     go_bind (NodeTableToNodes env (pt_NodeTable oPath) []) (\<lambda>(nodes, _, _).
       let g = fold (\<lambda>n g. g\<lparr>gr_Nodes := (gr_Nodes g)(nd_UUID n \<mapsto> n)\<rparr>) nodes g
       in go_bind (EdgeTableToEdges env (pt_EdgeTable oPath) []) (\<lambda>(edges, _, _).
            Ret (fold (\<lambda>e g. g\<lparr>gr_Edges := (gr_Edges g)(ed_UUID e \<mapsto> e)\<rparr>) edges g)))"

definition parseGraphs :: "'a env_scheme \<Rightarrow> proto_path list \<Rightarrow> graph go" where
  "parseGraphs env oPaths = go_fold (add_path_to_graph env) oPaths NewGraph"

text \<open>A nil list of paths is an error, so a graph without a path is one too.\<close>

definition AsGraph :: "'a env_scheme \<Rightarrow> data_item \<Rightarrow> graph option go" where
  "AsGraph env di =
     (if di_Data di = DNil then Ret None
      else go_bind (AsPaths env di) (\<lambda>paths.
        if paths = [] then Fail (Err ''empty graphs'')
        else go_bind (data_paths (di_Data di)) (\<lambda>pathAlias.
          go_lift (\<lambda>g. Some (g\<lparr>gr_Paths := paths\<rparr>)) (parseGraphs env (pl_Paths pathAlias)))))"

section \<open>Tables\<close>

fun table_fields ::
  "'a env_scheme \<Rightarrow> header list \<Rightarrow> nat \<Rightarrow> bytes list \<Rightarrow> gval list go" where
  "table_fields env headers i [] = Ret []"
| "table_fields env headers i (fld # flds) =
     go_bind (go_nth headers i) (\<lambda>h.
     go_bind (ConvertBytesToInterface env fld (hd_PropertyType h) []) (\<lambda>value.
     go_bind (table_fields env headers (i + 1) flds) (\<lambda>r. Ret (value # r))))"

definition AsTable :: "'a env_scheme \<Rightarrow> data_item \<Rightarrow> table option go" where
  "AsTable env di =
     (if di_Data di = DNil then Ret None
      else if di_Type di = RT_UNSET then Ret None
      else if di_Type di \<noteq> RT_TABLE
      then Fail (Err (''DataItem '' @ di_Alias di @ '' should be a table as pre-condition''))
      else go_bind (data_table (di_Data di)) (\<lambda>oTable.
        let headers = map (\<lambda>h. \<lparr>hd_Name = pp_PropertyName h,
                               hd_PropertyType = pp_PropertyType h\<rparr>) (tt_Headers oTable)
        in go_lift (\<lambda>rows. Some \<lparr>tb_Name = tt_TableName oTable, tb_Headers = headers,
                tb_Rows = rows\<rparr>)
             (go_map (table_fields env headers 0) (tt_TableRows oTable))))"

section \<open>Attributes\<close>

text \<open>
  One value of a list attribute. \<open>parse\<close> is the recursive \<open>parseAttr\<close>; the state is the values
  appended so far and the result type, set by the first value that has one. A type outside the
  switch appends nothing.
\<close>

definition first_type :: "result_type \<Rightarrow> result_type \<Rightarrow> result_type" where
  "first_type rt t = (if rt = RT_UNSET then t else rt)"

definition parse_list_value ::
  "'a attr_env_scheme \<Rightarrow> (proto_attr option \<Rightarrow> gostring \<Rightarrow> attr go) \<Rightarrow> bytes
   \<Rightarrow> attr_value list \<times> result_type \<Rightarrow> (attr_value list \<times> result_type) go" where
  "parse_list_value env parse v st =
     (let values = fst st; resultType = snd st in
      go_bind (pb_unmarshal_attr_list env v) (\<lambda>oA.
        if al_IsNull oA then Ret (values @ [AV GNil], resultType)
        else case al_Type oA of
          RT_NODE \<Rightarrow> go_bind (NodeTableToNodes env (al_Nodes oA) []) (\<lambda>(nodes, _, _).
            Ret (values @ [AVListData RT_NODE nodes [] []], first_type resultType RT_NODE))
        | RT_EDGE \<Rightarrow> go_bind (EdgeTableToEdges env (al_Edges oA) []) (\<lambda>(edges, _, _).
            Ret (values @ [AVListData RT_EDGE [] edges []], first_type resultType RT_EDGE))
        | RT_PATH \<Rightarrow> go_bind (parsePaths env (al_Paths oA)) (\<lambda>paths.
            Ret (values @ [AVListData RT_PATH [] [] paths], first_type resultType RT_PATH))
        | RT_ATTR \<Rightarrow>
            go_bind (go_map (\<lambda>subOAttr. parse (Some subOAttr) []) (al_Attrs oA)) (\<lambda>subAttrs.
              Ret (values @ [AVRow (concat (map (\<lambda>a. case at_Values a of None \<Rightarrow> [] | Some vs \<Rightarrow> vs)
                      subAttrs))], first_type resultType RT_ATTR))
        | _ \<Rightarrow> Ret (values, resultType)))"

definition parseAttrList ::
  "'a attr_env_scheme \<Rightarrow> (proto_attr option \<Rightarrow> gostring \<Rightarrow> attr go) \<Rightarrow> bytes list
   \<Rightarrow> (attr_value list \<times> result_type) go" where
  "parseAttrList env parse vs =
     go_lift (\<lambda>(values, rt). (values, first_type rt RT_ATTR))
       (go_fold (parse_list_value env parse) vs ([], RT_UNSET))"

definition parseAttrMap ::
  "'a attr_env_scheme \<Rightarrow> (proto_attr option \<Rightarrow> gostring \<Rightarrow> attr go) \<Rightarrow> bytes list
   \<Rightarrow> attr_value list go" where
  "parseAttrMap env parse vs =
     go_map (\<lambda>v. go_bind (pb_unmarshal_attr_map env v) (\<lambda>oA.
       go_bind (parse (am_Key oA) []) (\<lambda>key.
       go_bind (parse (am_Value oA) []) (\<lambda>value. Ret (AVMap key value))))) vs"

definition handleAttrValues ::
  "'a attr_env_scheme \<Rightarrow> (proto_attr option \<Rightarrow> gostring \<Rightarrow> attr go) \<Rightarrow> property_type \<Rightarrow> bytes list
   \<Rightarrow> (attr_value list \<times> result_type) go" where
  "handleAttrValues env parse t vs =
     (if t = PT_SET \<or> t = PT_LIST then parseAttrList env parse vs
      else if t = PT_MAP then go_lift (\<lambda>rows. (rows, RT_UNSET)) (parseAttrMap env parse vs)
      else go_lift (\<lambda>xs. (map AV xs, RT_ATTR))
             (go_map (\<lambda>v. ConvertBytesToInterface env v t []) vs))"

text \<open>
  \<open>parseAttr\<close> with the depth of the stack. The type of the attribute is read before its pointer
  is tested, so a nil attribute panics.
\<close>

fun parseAttr ::
  "'a attr_env_scheme \<Rightarrow> nat \<Rightarrow> proto_attr option \<Rightarrow> gostring \<Rightarrow> attr go" where
  "parseAttr env 0 oAttr name = Panic StackOverflow"
| "parseAttr env (Suc depth) oAttr name =
     go_bind (deref oAttr) (\<lambda>oA.
       case pa_Values oA of
         None \<Rightarrow> Ret (Attr name (pa_ValueType oA) RT_UNSET (Some []))
       | Some vs \<Rightarrow>
           go_lift (\<lambda>(values, rt). Attr name (pa_ValueType oA) rt (Some values))
             (handleAttrValues env (parseAttr env depth) (pa_ValueType oA) vs))"

definition attr_item ::
  "data_item \<Rightarrow> gostring \<Rightarrow> (attr_alias \<Rightarrow> 'b option go) \<Rightarrow> 'b option go" where
  "attr_item di what f =
     (if di_Data di = DNil then Ret None
      else if di_Type di = RT_UNSET then Ret None
      else if di_Type di \<noteq> RT_ATTR then Fail (Err (''DataItem '' @ di_Alias di @ what))
      else go_bind (data_attr (di_Data di)) f)"

definition AsAttr :: "'a attr_env_scheme \<Rightarrow> nat \<Rightarrow> data_item \<Rightarrow> attr option go" where
  "AsAttr env depth di =
     attr_item di '' is not Type Attribute list'' (\<lambda>attrAlias.
       go_bind (parseAttr env depth (aa_Attr attrAlias) (aa_Alias attrAlias)) (\<lambda>midAttr.
         if at_PropertyType midAttr = PT_LIST \<or> at_PropertyType midAttr = PT_SET
         then ListAttrAsAttr midAttr
         else if at_PropertyType midAttr = PT_MAP
         then Fail (Err (''DataItem '' @ di_Alias di
             @ '' is not either Type Attr or LIST Attr, but MAP, not supported yet.''))
         else Ret (Some midAttr)))"

definition AsAttrNodes :: "'a attr_env_scheme \<Rightarrow> nat \<Rightarrow> data_item \<Rightarrow> attr_nodes option go" where
  "AsAttrNodes env depth di =
     attr_item di '' is not Type Attr'' (\<lambda>attrAlias.
       go_bind (parseAttr env depth (aa_Attr attrAlias) (aa_Alias attrAlias))
         ListAttrAsAttrNodes)"

definition AsAttrEdges :: "'a attr_env_scheme \<Rightarrow> nat \<Rightarrow> data_item \<Rightarrow> attr_edges option go" where
  "AsAttrEdges env depth di =
     attr_item di '' is not Type Attr'' (\<lambda>attrAlias.
       go_bind (parseAttr env depth (aa_Attr attrAlias) (aa_Alias attrAlias))
         ListAttrAsAttrEdges)"

definition AsAttrPaths :: "'a attr_env_scheme \<Rightarrow> nat \<Rightarrow> data_item \<Rightarrow> attr_paths option go" where
  "AsAttrPaths env depth di =
     attr_item di '' is not Type Attr'' (\<lambda>attrAlias.
       go_bind (parseAttr env depth (aa_Attr attrAlias) (aa_Alias attrAlias))
         ListAttrAsAttrPaths)"

datatype any_value =
    AnyAttr "attr option"
  | AnyEdges "edge list"
  | AnyNodes "node list"
  | AnyTable "table option"
  | AnyData item_data

definition AsAny :: "'a attr_env_scheme \<Rightarrow> nat \<Rightarrow> data_item \<Rightarrow> any_value go" where
  "AsAny env depth di =
     (case di_Type di of
        RT_ATTR \<Rightarrow> go_lift AnyAttr (AsAttr env depth di)
      | RT_EDGE \<Rightarrow> go_lift (\<lambda>r. AnyEdges (fst r)) (AsEdges env di)
      | RT_NODE \<Rightarrow> go_lift (\<lambda>r. AnyNodes (fst r)) (AsNodes env di)
      | RT_TABLE \<Rightarrow> go_lift AnyTable (AsTable env di)
      | _ \<Rightarrow> Ret (AnyData (di_Data di)))"

section \<open>Facts on decoded tables\<close>

definition live_rows :: "entity_table \<Rightarrow> entity_row list" where
  "live_rows t = filter (\<lambda>r. \<not> er_IsNull r) (et_EntityRows t)"

lemma node_rows_eq:
  "node_rows env schemas rows (ns, last_by nd_UUID ns)
   = go_lift (\<lambda>new. (ns @ new, last_by nd_UUID (ns @ new)))
       (go_map (row_to_node env schemas) (filter (\<lambda>r. \<not> er_IsNull r) rows))"
proof (induction rows arbitrary: ns)
  case Nil
  then show ?case by simp
next
  case (Cons r rows)
  show ?case
  proof (cases "er_IsNull r")
    case True
    then show ?thesis using Cons.IH [of ns] by simp
  next
    case False
    show ?thesis
    proof (cases "row_to_node env schemas r")
      case (Ret n)
      have "node_rows env schemas (r # rows) (ns, last_by nd_UUID ns)
          = node_rows env schemas rows (ns @ [n], last_by nd_UUID (ns @ [n]))"
        unfolding last_by_snoc using False Ret by simp
      also note Cons.IH
      finally show ?thesis using False Ret
        by (cases "go_map (row_to_node env schemas) (filter (\<lambda>r. \<not> er_IsNull r) rows)")
          (simp_all del: last_by_snoc)
    qed (use False in simp_all)
  qed
qed

lemma edge_rows_eq:
  "edge_rows env schemas rows (es, last_by ed_UUID es)
   = go_lift (\<lambda>new. (es @ new, last_by ed_UUID (es @ new)))
       (go_map (row_to_edge env schemas) (filter (\<lambda>r. \<not> er_IsNull r) rows))"
proof (induction rows arbitrary: es)
  case Nil
  then show ?case by simp
next
  case (Cons r rows)
  show ?case
  proof (cases "er_IsNull r")
    case True
    then show ?thesis using Cons.IH [of es] by simp
  next
    case False
    show ?thesis
    proof (cases "row_to_edge env schemas r")
      case (Ret e)
      have "edge_rows env schemas (r # rows) (es, last_by ed_UUID es)
          = edge_rows env schemas rows (es @ [e], last_by ed_UUID (es @ [e]))"
        unfolding last_by_snoc using False Ret by simp
      also note Cons.IH
      finally show ?thesis using False Ret
        by (cases "go_map (row_to_edge env schemas) (filter (\<lambda>r. \<not> er_IsNull r) rows)")
          (simp_all del: last_by_snoc)
    qed (use False in simp_all)
  qed
qed

lemma NodeTableToNodes_eq:
  "NodeTableToNodes env (Some t) alias
   = go_lift (\<lambda>ns. (ns, last_by nd_UUID ns,
         table_schemas DBNODE (et_Schemas t)))
       (go_map (row_to_node env (table_schemas DBNODE (et_Schemas t))) (live_rows t))"
  using node_rows_eq [of env "table_schemas DBNODE (et_Schemas t)" "et_EntityRows t" "[]"]
  by (cases "go_map (row_to_node env (table_schemas DBNODE (et_Schemas t))) (live_rows t)")
    (simp_all add: NodeTableToNodes_def Let_def live_rows_def)

lemma EdgeTableToEdges_eq:
  "EdgeTableToEdges env (Some t) alias
   = go_lift (\<lambda>es. (es, last_by ed_UUID es,
         table_schemas DBEDGE (et_Schemas t)))
       (go_map (row_to_edge env (table_schemas DBEDGE (et_Schemas t))) (live_rows t))"
  using edge_rows_eq [of env "table_schemas DBEDGE (et_Schemas t)" "et_EntityRows t" "[]"]
  by (cases "go_map (row_to_edge env (table_schemas DBEDGE (et_Schemas t))) (live_rows t)")
    (simp_all add: EdgeTableToEdges_def Let_def live_rows_def)

lemma row_to_node_fields:
  "row_to_node env schemas r = Ret n \<Longrightarrow>
   nd_ID n = er_Id r \<and> nd_UUID n = er_Uuid r \<and> nd_Schema n = er_SchemaName r"
  by (auto simp: row_to_node_def go_simps)

lemma row_to_edge_fields:
  "row_to_edge env schemas r = Ret e \<Longrightarrow>
   ed_UUID e = er_Uuid r \<and> ed_From e = er_FromId r \<and> ed_FromUUID e = er_FromUuid r \<and>
   ed_To e = er_ToId r \<and> ed_ToUUID e = er_ToUuid r \<and> ed_Schema e = er_SchemaName r"
  by (auto simp: row_to_edge_def go_simps)

lemma map_fields_of_go_map:
  assumes "go_map f xs = Ret ys" "\<And>x y. f x = Ret y \<Longrightarrow> g y = h x"
  shows "map g ys = map h xs"
  using assms by (auto simp: go_map_Ret_iff list_eq_iff_nth_eq list_all2_conv_all_nth)

text \<open>A table of three rows: a node, a null row, a node with the same uuid.\<close>

definition sample_row :: "bool \<Rightarrow> gostring \<Rightarrow> 32 word \<Rightarrow> entity_row" where
  "sample_row null name age = \<lparr>er_Id = name, er_Uuid = 7, er_FromId = ''f'', er_FromUuid = 1,
     er_ToId = ''t'', er_ToUuid = 2, er_SchemaName = ''person'', er_Values = [put_uint32 age],
     er_IsNull = null\<rparr>"

definition sample_entities :: entity_table where
  "sample_entities = \<lparr>et_Schemas = [\<lparr>ps_SchemaName = ''person'',
       ps_Properties = [\<lparr>pp_PropertyName = ''age'', pp_PropertyType = PT_INT32, pp_SubTypes = []\<rparr>]\<rparr>],
     et_EntityRows = [sample_row False ''a'' 30, sample_row True ''b'' 31, sample_row False ''c'' 32]\<rparr>"

lemma sample_live: "live_rows sample_entities = [sample_row False ''a'' 30, sample_row False ''c'' 32]"
  by (simp add: live_rows_def sample_entities_def sample_row_def)

lemma sample_schemas:
  "table_schemas t (et_Schemas sample_entities) = [''person'' \<mapsto> (NewSchema ''person'')
     \<lparr>sc_DBType := t, sc_Properties := [int_property ''age'']\<rparr>]"
  by (simp add: table_schemas_def sample_entities_def NewSchema_def property_of_proto_def
      int_property_def empty_property_def)

lemma decode_int32:
  "ConvertBytesToInterface env (put_uint32 v) PT_INT32 st
     = Ret (if v = 0x7FFFFFFF then GNil else GInt32 v)"
  by (subst ConvertBytesToInterface.simps)
    (simp add: IsNull_simps convert_scalar_def dec_enc_simps)

lemma sample_nodes_decode:
  "\<exists>nodes. NodeTableToNodes toy_env (Some sample_entities) [] =
     Ret (nodes, last_by nd_UUID nodes, table_schemas DBNODE (et_Schemas sample_entities))
     \<and> length nodes = 2"
  by (simp add: NodeTableToNodes_eq sample_live sample_schemas row_to_node_def sample_row_def
      int_property_def decode_int32 empty_property_def)

lemma sample_edges_decode:
  "\<exists>edges. EdgeTableToEdges toy_env (Some sample_entities) [] =
     Ret (edges, last_by ed_UUID edges, table_schemas DBEDGE (et_Schemas sample_entities))
     \<and> length edges = 2"
  by (simp add: EdgeTableToEdges_eq sample_live sample_schemas row_to_edge_def sample_row_def
      int_property_def decode_int32 empty_property_def)

text \<open>
  Decoding a node table yields one node per row that is not null, in the order of
  the rows, with the row's id, uuid and schema name; the list of uuids taken from the same
  table is the list of the nodes' uuids; and the map holds, under each uuid, the last node that
  has it.
\<close>

theorem node_table_rows:
  assumes "NodeTableToNodes env (Some t) alias = Ret (nodes, nodesMap, schemas)"
  shows "map nd_UUID nodes = map er_Uuid (live_rows t) \<and> map nd_ID nodes = map er_Id (live_rows t) \<and>
    map nd_Schema nodes = map er_SchemaName (live_rows t) \<and>
    NodeTableToUUIDs (Some t) = Ret (map nd_UUID nodes) \<and>
    nodesMap = last_by nd_UUID nodes \<and>
    dom nodesMap = set (map nd_UUID nodes)"
proof -
  let ?s = "table_schemas DBNODE (et_Schemas t)"
  from assms have m: "go_map (row_to_node env ?s) (live_rows t) = Ret nodes"
    and mp: "nodesMap = last_by nd_UUID nodes"
    by (auto simp: NodeTableToNodes_eq go_simps)
  note f = map_fields_of_go_map [OF m]
  have "map nd_UUID nodes = map er_Uuid (live_rows t)" "map nd_ID nodes = map er_Id (live_rows t)"
    "map nd_Schema nodes = map er_SchemaName (live_rows t)"
    by (rule f; use row_to_node_fields in blast)+
  moreover from this have "NodeTableToUUIDs (Some t) = Ret (map nd_UUID nodes)"
    by (simp add: NodeTableToUUIDs_def live_rows_def)
  moreover have "dom nodesMap = set (map nd_UUID nodes)"
    unfolding mp by simp
  ultimately show ?thesis using mp by simp
qed


theorem node_table_rows_witness:
  "\<exists>nodes m sc. NodeTableToNodes toy_env (Some sample_entities) [] = Ret (nodes, m, sc) \<and>
    map nd_ID nodes = [''a'', ''c''] \<and> dom m = {7}"
proof -
  obtain nodes where n: "NodeTableToNodes toy_env (Some sample_entities) [] =
     Ret (nodes, last_by nd_UUID nodes, table_schemas DBNODE (et_Schemas sample_entities))"
    using sample_nodes_decode by blast
  from node_table_rows [OF n] have u: "map nd_UUID nodes = [7, 7]" and i: "map nd_ID nodes = [''a'', ''c'']"
    by (simp_all add: sample_live sample_row_def)
  have "dom (last_by nd_UUID nodes) = set (map nd_UUID nodes)" by simp
  then have "dom (last_by nd_UUID nodes) = {7}" unfolding u by simp
  with n i show ?thesis by (intro exI conjI)
qed

text \<open>
  The same for edges: one edge per row that is not null, in order, with the row's
  uuid, its end points (ids and uuids, from and to not exchanged) and schema name, and the map
  by uuid.
\<close>

theorem edge_table_rows:
  assumes "EdgeTableToEdges env (Some t) alias = Ret (edges, edgesMap, schemas)"
  shows "map ed_UUID edges = map er_Uuid (live_rows t) \<and>
    map (\<lambda>e. (ed_From e, ed_FromUUID e)) edges = map (\<lambda>r. (er_FromId r, er_FromUuid r)) (live_rows t) \<and>
    map (\<lambda>e. (ed_To e, ed_ToUUID e)) edges = map (\<lambda>r. (er_ToId r, er_ToUuid r)) (live_rows t) \<and>
    map ed_Schema edges = map er_SchemaName (live_rows t) \<and>
    edgesMap = last_by ed_UUID edges \<and>
    dom edgesMap = set (map ed_UUID edges)"
proof -
  let ?s = "table_schemas DBEDGE (et_Schemas t)"
  from assms have m: "go_map (row_to_edge env ?s) (live_rows t) = Ret edges"
    and mp: "edgesMap = last_by ed_UUID edges"
    by (auto simp: EdgeTableToEdges_eq go_simps)
  note f = map_fields_of_go_map [OF m]
  have "map ed_UUID edges = map er_Uuid (live_rows t)"
    "map (\<lambda>e. (ed_From e, ed_FromUUID e)) edges = map (\<lambda>r. (er_FromId r, er_FromUuid r)) (live_rows t)"
    "map (\<lambda>e. (ed_To e, ed_ToUUID e)) edges = map (\<lambda>r. (er_ToId r, er_ToUuid r)) (live_rows t)"
    "map ed_Schema edges = map er_SchemaName (live_rows t)"
    by (rule f; use row_to_edge_fields in fastforce)+
  moreover have "dom edgesMap = set (map ed_UUID edges)"
    unfolding mp by simp
  ultimately show ?thesis using mp by simp
qed


theorem edge_table_rows_witness:
  "\<exists>edges m sc. EdgeTableToEdges toy_env (Some sample_entities) [] = Ret (edges, m, sc) \<and>
    map (\<lambda>e. (ed_From e, ed_FromUUID e)) edges = [(''f'', 1), (''f'', 1)]"
proof -
  obtain edges where e: "EdgeTableToEdges toy_env (Some sample_entities) [] =
     Ret (edges, last_by ed_UUID edges, table_schemas DBEDGE (et_Schemas sample_entities))"
    using sample_edges_decode by blast
  from edge_table_rows [OF e] e show ?thesis by (simp add: sample_live sample_row_def)
qed

lemma table_schemas_dom:
  "dom (table_schemas t ss) = set (map ps_SchemaName ss)"
proof -
  have "dom (fold (\<lambda>oSchema m. let s = NewSchema (ps_SchemaName oSchema) in
        m(sc_Name s \<mapsto> s\<lparr>sc_DBType := t,
            sc_Properties := map property_of_proto (ps_Properties oSchema)\<rparr>)) ss m)
      = set (map ps_SchemaName ss) \<union> dom m" for m
    by (induction ss arbitrary: m) (auto simp: Let_def NewSchema_def)
  then show ?thesis by (simp add: table_schemas_def)
qed

text \<open>
  Property C16. Every value of a decoded node reads as the decoding of its bytes with the type
  and subtypes of its property, under the property's name, when the property names of the
  node's schema are distinct.
\<close>

theorem node_table_values:
  assumes "NodeTableToNodes env (Some t) alias = Ret (nodes, nodesMap, schemas)"
    and "i < length nodes" "schemas (nd_Schema (nodes ! i)) = Some s"
    and "distinct (map prop_name (sc_Properties s))" "j < length (er_Values (live_rows t ! i))"
  shows "\<exists>x. decode_at env (sc_Properties s) (er_Values (live_rows t ! i)) j = Ret x \<and>
    Node_Get (nodes ! i) (prop_name (sc_Properties s ! j)) = Ret x"
proof -
  let ?s = "table_schemas DBNODE (et_Schemas t)"
  from assms(1) have m: "go_map (row_to_node env ?s) (live_rows t) = Ret nodes" and sc: "schemas = ?s"
    by (auto simp: NodeTableToNodes_eq go_simps)
  have i: "i < length (live_rows t)" using assms(2) go_map_length [OF m] by simp
  have n: "row_to_node env ?s (live_rows t ! i) = Ret (nodes ! i)" by (rule go_map_nth [OF m i])
  then have "nd_Schema (nodes ! i) = er_SchemaName (live_rows t ! i)" by (simp add: row_to_node_fields)
  with n assms(3) sc obtain vals where
    v: "set_row_values env (Some s) 0 (er_Values (live_rows t ! i)) NewValues = Ret vals"
      "nd_Values (nodes ! i) = Some vals"
    by (auto simp: row_to_node_def go_simps)
  from set_row_values_get [OF v(1) assms(4,5)] show ?thesis by (simp add: Node_Get_def v(2))
qed


theorem node_table_values_witness:
  "\<exists>nodes m sc. NodeTableToNodes toy_env (Some sample_entities) [] = Ret (nodes, m, sc) \<and>
    Node_Get (nodes ! 1) ''age'' = Ret (GInt32 32)"
proof -
  let ?sc = "table_schemas DBNODE (et_Schemas sample_entities)"
  let ?s = "(NewSchema ''person'')\<lparr>sc_DBType := DBNODE, sc_Properties := [int_property ''age'']\<rparr>"
  obtain nodes where n: "NodeTableToNodes toy_env (Some sample_entities) []
      = Ret (nodes, last_by nd_UUID nodes, ?sc)" "length nodes = 2"
    using sample_nodes_decode by blast
  have "map nd_Schema nodes = map er_SchemaName (live_rows sample_entities)"
    using n(1) by (auto simp: NodeTableToNodes_eq go_simps
        intro: map_fields_of_go_map row_to_node_fields [THEN conjunct2, THEN conjunct2])
  then have "nd_Schema (nodes ! 1) = ''person''"
    using n(2) nth_map [of 1 nodes nd_Schema] by (simp add: sample_live sample_row_def)
  then have "?sc (nd_Schema (nodes ! 1)) = Some ?s" by (simp add: sample_schemas)
  from node_table_values [OF n(1) _ this, of 0] n show ?thesis
    by (auto simp: sample_live sample_row_def decode_at_def int_property_def decode_int32)
qed

section \<open>Decoding well-formed tables does not panic\<close>

text \<open>
  A row fits a map of schemas: it has no values, or its schema is declared, has a property for
  every value, and its list and set properties have a scalar subtype.
\<close>

definition row_fits :: "(gostring \<rightharpoonup> schema) \<Rightarrow> entity_row \<Rightarrow> bool" where
  "row_fits schemas r =
     (er_Values r = [] \<or>
      (case schemas (er_SchemaName r) of
         None \<Rightarrow> False
       | Some s \<Rightarrow> length (er_Values r) \<le> length (sc_Properties s) \<and>
           list_all (\<lambda>p. subtypes_ok (prop_type p) (prop_subtypes p)) (sc_Properties s)))"

lemma set_row_values_no_panic:
  assumes "decoders_ok env" "i + length vs \<le> length (sc_Properties s)"
    "list_all (\<lambda>p. subtypes_ok (prop_type p) (prop_subtypes p)) (sc_Properties s)"
  shows "no_panic (set_row_values env (Some s) i vs vals)"
  using assms(2)
proof (induction vs arbitrary: i vals)
  case Nil
  then show ?case by simp
next
  case (Cons v vs)
  have "sc_Properties s ! i \<in> set (sc_Properties s)" using Cons.prems by simp
  then have "no_panic (ConvertBytesToInterface env v (prop_type (sc_Properties s ! i))
      (prop_subtypes (sc_Properties s ! i)))"
    using assms(1,3) by (intro ConvertBytesToInterface_no_panic) (auto simp: list_all_iff)
  then show ?case using Cons by (auto simp: go_nth_def intro!: no_panic_bind)
qed

lemma row_values_no_panic:
  assumes "decoders_ok env" "row_fits schemas r"
  shows "no_panic (set_row_values env (schemas (er_SchemaName r)) 0 (er_Values r) vals)"
  using assms set_row_values_no_panic [of env 0 "er_Values r"]
  by (cases "schemas (er_SchemaName r)") (auto simp: row_fits_def)

lemma row_values_panic:
  assumes "er_Values r \<noteq> []" "schemas (er_SchemaName r) = None"
  shows "set_row_values env (schemas (er_SchemaName r)) 0 (er_Values r) vals = Panic NilDeref"
  using assms by (cases "er_Values r") auto

text \<open>
  Property C17. Decoding a node table or an edge table whose rows fit the schemas it declares
  returns a result or an error, never a panic, whatever bytes the rows hold.
\<close>

theorem entity_tables_no_panic:
  assumes "decoders_ok env" "list_all (row_fits (table_schemas DBNODE (et_Schemas t))) (live_rows t)"
  shows "no_panic (NodeTableToNodes env (Some t) alias) \<and> no_panic (EdgeTableToEdges env (Some t) alias)"
proof -
  have d: "table_schemas DBEDGE ss n = map_option (\<lambda>s. s\<lparr>sc_DBType := DBEDGE\<rparr>)
      (table_schemas DBNODE ss n)" for ss n
  proof -
    have "fold (\<lambda>oSchema m. let s = NewSchema (ps_SchemaName oSchema) in
          m(sc_Name s \<mapsto> s\<lparr>sc_DBType := DBEDGE,
            sc_Properties := map property_of_proto (ps_Properties oSchema)\<rparr>)) ss
          (\<lambda>n. map_option (\<lambda>s. s\<lparr>sc_DBType := DBEDGE\<rparr>) (m n)) n
        = map_option (\<lambda>s. s\<lparr>sc_DBType := DBEDGE\<rparr>) (fold (\<lambda>oSchema m.
          let s = NewSchema (ps_SchemaName oSchema) in
          m(sc_Name s \<mapsto> s\<lparr>sc_DBType := DBNODE,
            sc_Properties := map property_of_proto (ps_Properties oSchema)\<rparr>)) ss m n)" for m
    proof (induction ss arbitrary: m)
      case Nil
      then show ?case by simp
    next
      case (Cons a ss)
      let ?f = "\<lambda>t. (NewSchema (ps_SchemaName a))\<lparr>sc_DBType := t,
            sc_Properties := map property_of_proto (ps_Properties a)\<rparr>"
      have e: "(\<lambda>n. map_option (\<lambda>s. s\<lparr>sc_DBType := DBEDGE\<rparr>) (m n))(ps_SchemaName a \<mapsto> ?f DBEDGE)
          = (\<lambda>n. map_option (\<lambda>s. s\<lparr>sc_DBType := DBEDGE\<rparr>) ((m(ps_SchemaName a \<mapsto> ?f DBNODE)) n))"
        by (auto simp: fun_eq_iff)
      have nm: "sc_Name (NewSchema x) = x" for x by (simp add: NewSchema_def)
      show ?case using Cons [of "m(ps_SchemaName a \<mapsto> ?f DBNODE)"]
        by (simp only: fold_simps Let_def nm comp_def e)
    qed
    from this [of Map.empty] show ?thesis by (simp add: table_schemas_def)
  qed
  have fe: "row_fits (table_schemas DBEDGE (et_Schemas t)) r"
    if "row_fits (table_schemas DBNODE (et_Schemas t)) r" for r
    using that by (auto simp: row_fits_def d split: option.splits)
  have "no_panic (row_to_node env (table_schemas DBNODE (et_Schemas t)) r)"
    "no_panic (row_to_edge env (table_schemas DBEDGE (et_Schemas t)) r)" if "r \<in> set (live_rows t)" for r
    using row_values_no_panic [OF assms(1)] assms(2) fe that
    by (auto simp: row_to_node_def row_to_edge_def list_all_iff)
  then show ?thesis
    unfolding NodeTableToNodes_eq EdgeTableToEdges_eq no_panic_lift
    by (auto intro: no_panic_map)
qed

theorem entity_tables_no_panic_witness:
  "no_panic (NodeTableToNodes toy_env (Some sample_entities) [])"
proof -
  have "list_all (row_fits (table_schemas DBNODE (et_Schemas sample_entities))) (live_rows sample_entities)"
    by (simp add: sample_live sample_schemas row_fits_def sample_row_def subtypes_ok_def
        int_property_def)
  with entity_tables_no_panic [OF toy_decoders_ok] show ?thesis by blast
qed

section \<open>Paths\<close>

text \<open>
  A decoded path is consistent: its node map has exactly the uuids of its node
  list and its edge map exactly those of its edge list, and the node and the edge stored under
  a uuid have that uuid. So walking the uuids of a path never misses an element.
\<close>

theorem path_consistent:
  assumes "parse_path env oPath = Ret p"
  shows "dom (pa_Nodes p) = set (pa_NodeUUIDs p) \<and> dom (pa_Edges p) = set (pa_EdgeUUIDs p) \<and>
    (\<forall>u n. pa_Nodes p u = Some n \<longrightarrow> nd_UUID n = u) \<and>
    (\<forall>u e. pa_Edges p u = Some e \<longrightarrow> ed_UUID e = u) \<and> Path_Length p = length (pa_EdgeUUIDs p)"
proof -
  obtain nt et where t: "pt_NodeTable oPath = Some nt" "pt_EdgeTable oPath = Some et"
    using assms by (cases "pt_NodeTable oPath"; cases "pt_EdgeTable oPath")
      (auto simp: parse_path_def NodeTableToNodes_def EdgeTableToEdges_def go_simps)
  from assms t obtain ns es where
    n: "go_map (row_to_node env (table_schemas DBNODE (et_Schemas nt))) (live_rows nt) = Ret ns" and
    e: "go_map (row_to_edge env (table_schemas DBEDGE (et_Schemas et))) (live_rows et) = Ret es" and
    p: "pa_Nodes p = last_by nd_UUID ns" "pa_Edges p = last_by ed_UUID es"
      "pa_NodeUUIDs p = map er_Uuid (live_rows nt)" "pa_EdgeUUIDs p = map er_Uuid (live_rows et)"
    by (auto simp: parse_path_def NodeTableToNodes_eq EdgeTableToEdges_eq NodeTableToUUIDs_def
        live_rows_def go_simps)
  have "map nd_UUID ns = map er_Uuid (live_rows nt)" "map ed_UUID es = map er_Uuid (live_rows et)"
    by (rule map_fields_of_go_map [OF n]; use row_to_node_fields in blast)
      (rule map_fields_of_go_map [OF e]; use row_to_edge_fields in blast)
  then have "nd_UUID ` set ns = set (pa_NodeUUIDs p)" "ed_UUID ` set es = set (pa_EdgeUUIDs p)"
    using p(3,4) by (metis image_set)+
  then show ?thesis using p(1,2) last_by_Some [of nd_UUID ns] last_by_Some [of ed_UUID es]
    by (auto simp: Path_Length_def)
qed

theorem path_consistent_witness:
  "\<exists>p. parse_path toy_env \<lparr>pt_NodeTable = Some sample_entities, pt_EdgeTable = Some sample_entities\<rparr>
    = Ret p \<and> dom (pa_Nodes p) = set (pa_NodeUUIDs p)"
proof -
  obtain p where p: "parse_path toy_env
      \<lparr>pt_NodeTable = Some sample_entities, pt_EdgeTable = Some sample_entities\<rparr> = Ret p"
    using sample_nodes_decode sample_edges_decode
    by (auto simp: parse_path_def NodeTableToUUIDs_def)
  with path_consistent [OF p] show ?thesis by blast
qed

section \<open>The stack of the attribute parser\<close>

definition no_overflow :: "'a go \<Rightarrow> bool" where
  "no_overflow m = (m \<noteq> Panic StackOverflow)"

lemma no_overflow_simps [simp]:
  "no_overflow (Ret x)" "no_overflow (Fail e)" "no_overflow (Panic p) \<longleftrightarrow> p \<noteq> StackOverflow"
  by (simp_all add: no_overflow_def)

lemma no_overflow_no_panic: "no_panic m \<Longrightarrow> no_overflow m"
  by (auto simp: no_overflow_def)

lemma no_overflow_bind:
  "no_overflow m \<Longrightarrow> (\<And>x. m = Ret x \<Longrightarrow> no_overflow (f x)) \<Longrightarrow> no_overflow (go_bind m f)"
  by (cases m) auto

lemma no_overflow_lift [simp]: "no_overflow (go_lift f m) \<longleftrightarrow> no_overflow m"
  by (cases m) auto

lemma no_overflow_map: "(\<And>x. x \<in> set xs \<Longrightarrow> no_overflow (f x)) \<Longrightarrow> no_overflow (go_map f xs)"
  by (induction xs) (auto intro!: no_overflow_bind)

lemma no_overflow_fold:
  "(\<And>x s. x \<in> set xs \<Longrightarrow> no_overflow (f x s)) \<Longrightarrow> no_overflow (go_fold f xs s)"
  by (induction xs arbitrary: s) (auto intro!: no_overflow_bind)

lemma no_overflow_deref [simp]: "no_overflow (deref p)"
  by (cases p) simp_all

lemma no_overflow_nth [simp]: "no_overflow (go_nth xs i)"
  by (simp add: go_nth_def)

lemma decoders_no_overflow:
  "decoders_ok env \<Longrightarrow> no_overflow (pb_unmarshal_list env bs)"
  "decoders_ok env \<Longrightarrow> no_overflow (pb_unmarshal_set env bs)"
  by (simp_all add: decoders_ok_def no_overflow_no_panic)

lemma Convert_no_overflow_flat:
  assumes "decoders_ok env"
  shows "no_overflow (ConvertBytesToInterface env bs t [])"
  using decoders_no_overflow [OF assms]
  by (subst ConvertBytesToInterface.simps)
    (auto simp: deserializeList.simps deserializeSet.simps no_overflow_no_panic
      intro!: no_overflow_bind)

lemma Convert_no_overflow [simp]:
  assumes "decoders_ok env"
  shows "no_overflow (ConvertBytesToInterface env bs t st)"
  using decoders_no_overflow [OF assms] Convert_no_overflow_flat [OF assms]
  by (subst ConvertBytesToInterface.simps)
    (auto simp: deserializeList.simps deserializeSet.simps no_overflow_no_panic
      intro!: no_overflow_bind no_overflow_map split: list.split)

lemma set_row_values_no_overflow:
  "decoders_ok env \<Longrightarrow> no_overflow (set_row_values env sch i vs vals)"
  by (induction vs arbitrary: i vals) (auto intro!: no_overflow_bind)

lemma tables_no_overflow:
  assumes "decoders_ok env"
  shows "no_overflow (NodeTableToNodes env nt a)" "no_overflow (EdgeTableToEdges env nt a)"
proof -
  have "no_overflow (row_to_node env sc r)" "no_overflow (row_to_edge env sc r)" for sc r
    using set_row_values_no_overflow [OF assms] by (simp_all add: row_to_node_def row_to_edge_def)
  note rows = no_overflow_map [OF this(1)] no_overflow_map [OF this(2)]
  show "no_overflow (NodeTableToNodes env nt a)"
  proof (cases nt)
    case None
    then show ?thesis by (simp add: NodeTableToNodes_def)
  next
    case (Some t)
    then show ?thesis using rows by (simp add: NodeTableToNodes_eq)
  qed
  show "no_overflow (EdgeTableToEdges env nt a)"
  proof (cases nt)
    case None
    then show ?thesis by (simp add: EdgeTableToEdges_def)
  next
    case (Some t)
    then show ?thesis using rows by (simp add: EdgeTableToEdges_eq)
  qed
qed

lemma parsePaths_no_overflow:
  assumes "decoders_ok env"
  shows "no_overflow (parsePaths env ps)"
  using tables_no_overflow [OF assms]
  by (auto simp: parsePaths_def parse_path_def NodeTableToUUIDs_def
      intro!: no_overflow_map no_overflow_bind)

text \<open>
  What the parser relies on in the protobuf package: its decoders do not panic, and the bytes
  of a nested attribute are a proper part of the message that holds it.
\<close>

definition attr_bytes :: "proto_attr \<Rightarrow> nat" where
  "attr_bytes a = (case pa_Values a of None \<Rightarrow> 0 | Some vs \<Rightarrow> sum_list (map length vs))"

definition attr_laws :: "'a attr_env_scheme \<Rightarrow> bool" where
  "attr_laws env \<longleftrightarrow> decoders_ok env \<and>
     (\<forall>v. no_panic (pb_unmarshal_attr_list env v) \<and> no_panic (pb_unmarshal_attr_map env v)) \<and>
     (\<forall>v l. pb_unmarshal_attr_list env v = Ret l \<longrightarrow> (\<forall>a \<in> set (al_Attrs l). attr_bytes a < length v)) \<and>
     (\<forall>v m. pb_unmarshal_attr_map env v = Ret m \<longrightarrow>
        (\<forall>a. am_Key m = Some a \<or> am_Value m = Some a \<longrightarrow> attr_bytes a < length v))"

definition attr_depth :: "proto_attr option \<Rightarrow> nat" where
  "attr_depth oA = (case oA of None \<Rightarrow> 1 | Some a \<Rightarrow> attr_bytes a + 2)"

text \<open>The attributes nested in a value are those of smaller depth.\<close>

definition nested_in :: "bytes \<Rightarrow> proto_attr option \<Rightarrow> bool" where
  "nested_in v oA = (case oA of None \<Rightarrow> True | Some a \<Rightarrow> attr_bytes a < length v)"

lemma go_fold_cong:
  "(\<And>x s. x \<in> set xs \<Longrightarrow> f x s = g x s) \<Longrightarrow> go_fold f xs s = go_fold g xs s"
  by (induction xs arbitrary: s) (auto intro: arg_cong [where f = "go_bind _"])

lemma parse_list_value_cong:
  assumes "attr_laws env" "\<And>b n. nested_in v b \<Longrightarrow> f b n = g b n"
  shows "parse_list_value env f v st = parse_list_value env g v st"
proof (cases "pb_unmarshal_attr_list env v")
  case (Ret l)
  have "go_map (\<lambda>a. f (Some a) []) (al_Attrs l) = go_map (\<lambda>a. g (Some a) []) (al_Attrs l)"
    using assms(1) Ret by (intro go_map_cong refl assms(2)) (auto simp: attr_laws_def nested_in_def)
  then show ?thesis by (cases "al_Type l") (simp_all add: parse_list_value_def Ret Let_def)
qed (simp_all add: parse_list_value_def)

lemma parse_map_value_cong:
  assumes "attr_laws env" "\<And>b n. nested_in v b \<Longrightarrow> f b n = g b n"
    and "pb_unmarshal_attr_map env v = Ret m"
  shows "f (am_Key m) [] = g (am_Key m) []" "f (am_Value m) [] = g (am_Value m) []"
  using assms by (auto simp: attr_laws_def nested_in_def intro!: assms(2) split: option.split)

lemma handleAttrValues_cong:
  assumes "attr_laws env" "\<And>v b n. v \<in> set vs \<Longrightarrow> nested_in v b \<Longrightarrow> f b n = g b n"
  shows "handleAttrValues env f t vs = handleAttrValues env g t vs"
proof -
  have "go_fold (parse_list_value env f) vs st = go_fold (parse_list_value env g) vs st" for st
    by (rule go_fold_cong) (rule parse_list_value_cong [OF assms(1)], rule assms(2))
  moreover have "parseAttrMap env f vs = parseAttrMap env g vs"
    unfolding parseAttrMap_def
  proof (rule go_map_cong [OF refl])
    fix v assume v: "v \<in> set vs"
    show "go_bind (pb_unmarshal_attr_map env v) (\<lambda>oA. go_bind (f (am_Key oA) []) (\<lambda>key.
            go_bind (f (am_Value oA) []) (\<lambda>value. Ret (AVMap key value))))
        = go_bind (pb_unmarshal_attr_map env v) (\<lambda>oA. go_bind (g (am_Key oA) []) (\<lambda>key.
            go_bind (g (am_Value oA) []) (\<lambda>value. Ret (AVMap key value))))"
    proof (cases "pb_unmarshal_attr_map env v")
      case (Ret m)
      with parse_map_value_cong [of env v f g m] assms(1) assms(2) [OF v] show ?thesis by simp
    qed simp_all
  qed
  ultimately show ?thesis by (simp add: handleAttrValues_def parseAttrList_def)
qed

lemma handleAttrValues_no_overflow:
  assumes "attr_laws env" "\<And>v b n. v \<in> set vs \<Longrightarrow> nested_in v b \<Longrightarrow> no_overflow (f b n)"
  shows "no_overflow (handleAttrValues env f t vs)"
proof -
  have ok: "decoders_ok env" using assms(1) by (simp add: attr_laws_def)
  have um: "no_overflow (pb_unmarshal_attr_list env v)" "no_overflow (pb_unmarshal_attr_map env v)" for v
    using assms(1) by (simp_all add: attr_laws_def no_overflow_no_panic)
  have l: "no_overflow (parse_list_value env f v st)" if v: "v \<in> set vs" for v st
  proof -
    have "no_overflow (go_map (\<lambda>a. f (Some a) []) (al_Attrs l))"
      if "pb_unmarshal_attr_list env v = Ret l" for l
      using assms(1) that by (intro no_overflow_map assms(2) [OF v]) (auto simp: attr_laws_def nested_in_def)
    then show ?thesis
      using um tables_no_overflow [OF ok] parsePaths_no_overflow [OF ok]
      by (auto simp: parse_list_value_def Let_def intro!: no_overflow_bind split: result_type.split)
  qed
  have m: "no_overflow (f (am_Key m) [])" "no_overflow (f (am_Value m) [])"
    if "v \<in> set vs" "pb_unmarshal_attr_map env v = Ret m" for v m
    using assms(1) that by (auto simp: attr_laws_def nested_in_def intro!: assms(2) [OF that(1)]
        split: option.split)
  show ?thesis
    using ok um m by (auto simp: handleAttrValues_def parseAttrList_def parseAttrMap_def
        intro!: no_overflow_fold no_overflow_map no_overflow_bind l)
qed

lemma nested_depth:
  assumes "pa_Values a = Some vs" "v \<in> set vs" "nested_in v b" "attr_depth (Some a) \<le> Suc d"
  shows "attr_depth b \<le> d"
proof -
  have "length v \<le> attr_bytes a"
    using assms(1,2) by (simp add: attr_bytes_def member_le_sum_list)
  then show ?thesis using assms(3,4) by (cases b) (auto simp: nested_in_def attr_depth_def)
qed

lemma parseAttr_enough:
  assumes "attr_laws env" "attr_depth oA \<le> d"
  shows "no_overflow (parseAttr env d oA n)"
    "attr_depth oA \<le> d' \<Longrightarrow> parseAttr env d' oA n = parseAttr env d oA n"
proof -
  have "no_overflow (parseAttr env d oA n) \<and>
    (\<forall>d'. attr_depth oA \<le> d' \<longrightarrow> parseAttr env d' oA n = parseAttr env d oA n)"
    using assms(2)
  proof (induction d arbitrary: oA n)
    case 0
    then show ?case by (cases oA) (auto simp: attr_depth_def)
  next
    case (Suc d)
    show ?case
    proof (cases oA)
      case None
      have "parseAttr env d' None n = Panic NilDeref" if "0 < d'" for d'
        using that by (cases d') simp_all
      then show ?thesis using None by (auto simp: attr_depth_def)
    next
      case (Some a)
      show ?thesis
      proof (cases "pa_Values a")
        case None
        have "parseAttr env d' (Some a) n = Ret (Attr n (pa_ValueType a) RT_UNSET (Some []))"
          if "0 < d'" for d' using that None by (cases d') simp_all
        then show ?thesis using Some None by (auto simp: attr_depth_def)
      next
        case vs: (Some vs)
        have "handleAttrValues env (parseAttr env e) (pa_ValueType a) vs
            = handleAttrValues env (parseAttr env d) (pa_ValueType a) vs"
          if "attr_depth oA \<le> Suc e" for e
          using Suc.IH nested_depth [OF vs] Suc.prems that Some
          by (intro handleAttrValues_cong [OF assms(1)]) metis
        then have "parseAttr env d' oA n = parseAttr env (Suc d) oA n" if "attr_depth oA \<le> d'" for d'
          using that Some vs by (cases d') (auto simp: attr_depth_def)
        moreover have "no_overflow (handleAttrValues env (parseAttr env d) (pa_ValueType a) vs)"
          using Suc.IH nested_depth [OF vs] Suc.prems Some
          by (intro handleAttrValues_no_overflow [OF assms(1)]) metis
        ultimately show ?thesis using Some vs by simp
      qed
    qed
  qed
  then show "no_overflow (parseAttr env d oA n)"
    "attr_depth oA \<le> d' \<Longrightarrow> parseAttr env d' oA n = parseAttr env d oA n" by blast+
qed

text \<open>
  Property C32. The recursive parser of attributes terminates: with a stack of two frames more
  than the number of bytes of the attribute it does not run out, and any deeper stack gives the
  same result. The nested messages must be proper parts of the message that holds them.
\<close>

theorem parse_attr_terminates:
  assumes "attr_laws env" "attr_bytes a + 2 \<le> depth"
  shows "parseAttr env depth (Some a) name \<noteq> Panic StackOverflow \<and>
    parseAttr env depth (Some a) name = parseAttr env (attr_bytes a + 2) (Some a) name"
  using parseAttr_enough(1) [OF assms(1), of "Some a" depth name]
    parseAttr_enough(2) [OF assms(1), of "Some a" "attr_bytes a + 2" depth name] assms(2)
  by (simp add: attr_depth_def no_overflow_def)

definition toy_attr_env :: attr_env where
  "toy_attr_env = env.extend toy_env (attr_env.fields
     (\<lambda>v. Ret \<lparr>al_IsNull = (v = []), al_Type = RT_ATTR, al_Nodes = None, al_Edges = None,
        al_Paths = [], al_Attrs = (if v = [] then []
          else [\<lparr>pa_ValueType = PT_LIST, pa_Values = Some [tl v]\<rparr>])\<rparr>)
     (\<lambda>v. Ret \<lparr>am_Key = None, am_Value = None\<rparr>))"

lemma toy_attr_laws: "attr_laws toy_attr_env"
  using toy_decoders_ok
  by (auto simp: attr_laws_def toy_attr_env_def attr_bytes_def decoders_ok_def env.defs
      attr_env.defs no_panic_def toy_env_def)

theorem parse_attr_terminates_witness:
  "parseAttr toy_attr_env 9 (Some \<lparr>pa_ValueType = PT_LIST, pa_Values = Some [[1, 2, 3]]\<rparr>) ''x''
    \<noteq> Panic StackOverflow"
proof -
  have "attr_bytes \<lparr>pa_ValueType = PT_LIST, pa_Values = Some [[1, 2, 3]]\<rparr> + 2 \<le> 9"
    by (simp add: attr_bytes_def)
  from parse_attr_terminates [OF toy_attr_laws this] show ?thesis by blast
qed

text \<open>
  Grouping the values of a list attribute of nodes gives one group per value when
  every value is the data of a list. A null list, which the parser keeps as a nil value, or any
  other value among them makes the grouping panic on its type assertion; no group is skipped.
\<close>

theorem list_attr_grouping:
  assumes "at_PropertyType a = PT_LIST" "at_Values a = Some rows" "rows \<noteq> []"
    "at_ResultType a = RT_NODE"
  shows "if list_all (\<lambda>v. is_ret (list_nodes v)) rows
    then \<exists>nss. ListAttrAsAttrNodes a = Ret (Some \<lparr>an_Name = [], an_ResultType = RT_UNSET,
        an_NodesList = nss\<rparr>) \<and> length nss = length rows
    else ListAttrAsAttrNodes a = Panic TypeAssertion"
proof (cases "list_all (\<lambda>v. is_ret (list_nodes v)) rows")
  case True
  then obtain nss where n: "go_map list_nodes rows = Ret nss"
    using go_map_is_ret [of list_nodes rows] by (auto simp: is_ret_iff)
  with go_map_length [OF n] True assms show ?thesis by (simp add: ListAttrAsAttrNodes_def)
next
  case False
  have v: "is_ret (list_nodes v) \<or> list_nodes v = Panic TypeAssertion" for v
    by (cases v) simp_all
  have "go_map list_nodes vs = Panic TypeAssertion"
    if "\<not> list_all (\<lambda>v. is_ret (list_nodes v)) vs" for vs
    using that
  proof (induction vs)
    case Nil
    then show ?case by simp
  next
    case (Cons x xs)
    then show ?case using v [of x] by (auto simp: is_ret_iff)
  qed
  with False assms show ?thesis by (simp add: ListAttrAsAttrNodes_def)
qed

theorem list_attr_grouping_witness:
  "ListAttrAsAttrNodes (Attr ''ns'' PT_LIST RT_NODE (Some [AVListData RT_NODE [] [] [], AV GNil]))
    = Panic TypeAssertion"
  using list_attr_grouping [of "Attr ''ns'' PT_LIST RT_NODE (Some [AVListData RT_NODE [] [] [], AV GNil])"
      "[AVListData RT_NODE [] [] [], AV GNil]"] by simp

end
