(* ===== verification/Replies.thy ===== *)
theory Replies
  imports DataItem
begin

text \<open>
  \<open>sdk/utils/merge.reply.go\<close>: a query is answered by a stream of replies, each with a list of
  aliases and, per kind of result, a list of payloads named by alias (a nil list is \<open>None\<close>).
  \<open>MergeUQLReply\<close> appends the rows of the second reply to the payloads of the first, in place;
  \<open>FindAliasDataInReply\<close> looks an alias up. The interface of a kind of payload (its name, its
  rows, and the promise that joining two concatenates their rows) is the locale \<open>row_kind\<close>.
\<close>

section \<open>Replies\<close>

record result_alias =
  ra_Alias :: gostring
  ra_ResultType :: result_type

record plan_node =
  pn_Alias :: gostring
  pn_ChildrenNum :: "32 word"
  pn_QueryText :: gostring
  pn_Infos :: gostring

record query_reply =
  qr_Status :: "(error_code \<times> gostring) option"
  qr_Alias :: "result_alias list"
  qr_Paths :: "path_alias list option"
  qr_Nodes :: "node_alias list option"
  qr_Edges :: "edge_alias list option"
  qr_Attrs :: "attr_alias list option"
  qr_Tables :: "proto_table list option"
  qr_Statistics :: "proto_table option"
  qr_ExplainPlan :: "plan_node list option"

section \<open>Merging two replies\<close>

text \<open>What joining two payloads of one alias does to the first list.\<close>

datatype 'e joined = Joined 'e | Skipped | AppendSecond

definition join_nodes :: "node_alias \<Rightarrow> node_alias \<Rightarrow> node_alias joined go" where
  "join_nodes d1 d2 =
     go_bind (deref (na_NodeTable d1)) (\<lambda>t1. go_bind (deref (na_NodeTable d2)) (\<lambda>t2.
       Ret (Joined (d1\<lparr>na_NodeTable :=
         Some (t1\<lparr>et_EntityRows := et_EntityRows t1 @ et_EntityRows t2\<rparr>)\<rparr>))))"

definition join_edges :: "edge_alias \<Rightarrow> edge_alias \<Rightarrow> edge_alias joined go" where
  "join_edges d1 d2 =
     go_bind (deref (ea_EdgeTable d1)) (\<lambda>t1. go_bind (deref (ea_EdgeTable d2)) (\<lambda>t2.
       Ret (Joined (d1\<lparr>ea_EdgeTable :=
         Some (t1\<lparr>et_EntityRows := et_EntityRows t1 @ et_EntityRows t2\<rparr>)\<rparr>))))"

definition join_tables :: "proto_table \<Rightarrow> proto_table \<Rightarrow> proto_table joined go" where
  "join_tables d1 d2 =
     Ret (Joined (d1\<lparr>tt_TableRows := tt_TableRows d1 @ tt_TableRows d2\<rparr>))"

definition join_paths :: "path_alias \<Rightarrow> path_alias \<Rightarrow> path_alias joined go" where
  "join_paths d1 d2 = Ret (Joined (d1\<lparr>pl_Paths := pl_Paths d1 @ pl_Paths d2\<rparr>))"

text \<open>Appending to a nil slice nothing leaves it nil.\<close>

definition append_nilable :: "'a list option \<Rightarrow> 'a list option \<Rightarrow> 'a list option" where
  "append_nilable xs ys =
     (case ys of None \<Rightarrow> xs | Some b \<Rightarrow>
        (case xs of None \<Rightarrow> (if b = [] then None else Some b) | Some a \<Rightarrow> Some (a @ b)))"

definition join_attrs :: "attr_alias \<Rightarrow> attr_alias \<Rightarrow> attr_alias joined go" where
  "join_attrs d1 d2 =
     (case aa_Attr d2 of
        None \<Rightarrow> Ret Skipped
      | Some a2 \<Rightarrow>
          (case aa_Attr d1 of
             None \<Rightarrow> Ret AppendSecond
           | Some a1 \<Rightarrow> Ret (Joined (d1\<lparr>aa_Attr :=
               Some (a1\<lparr>pa_Values := append_nilable (pa_Values a1) (pa_Values a2)\<rparr>)\<rparr>))))"

fun update_first :: "('e \<Rightarrow> bool) \<Rightarrow> 'e \<Rightarrow> 'e list \<Rightarrow> 'e list" where
  "update_first p d [] = []"
| "update_first p d (x # xs) = (if p x then d # xs else x # update_first p d xs)"

datatype 'e kind_step = ReturnFirst | ReturnSecond | Go_on "'e list" "'e list" bool

text \<open>
  One alias in the lists of its kind. Payloads are pointers: one that was appended from the
  second list (\<open>shared\<close>) is the same object in both, and joining it again changes both.
\<close>

definition merge_kind ::
  "('e \<Rightarrow> gostring) \<Rightarrow> ('e \<Rightarrow> 'e \<Rightarrow> 'e joined go) \<Rightarrow> gostring \<Rightarrow> bool
   \<Rightarrow> 'e list option \<Rightarrow> 'e list option \<Rightarrow> 'e kind_step go" where
  "merge_kind name jn alias shared xs1 xs2 =
     (case xs1 of
        None \<Rightarrow> (case xs2 of None \<Rightarrow> Ret ReturnFirst | Some l2 \<Rightarrow> Ret ReturnSecond)
      | Some l1 \<Rightarrow>
        (case xs2 of
           None \<Rightarrow> Ret ReturnFirst
         | Some l2 \<Rightarrow>
           (case Find xs2 (\<lambda>i. name (l2 ! i) = alias) of
              None \<Rightarrow> Ret (Go_on l1 l2 shared)
            | Some d2 \<Rightarrow>
              (case Find xs1 (\<lambda>i. name (l1 ! i) = alias) of
                 None \<Rightarrow> Ret (Go_on (l1 @ [d2]) l2 True)
               | Some d1 \<Rightarrow>
                   go_lift (\<lambda>j. case j of
                       Joined d \<Rightarrow> Go_on (update_first (\<lambda>x. name x = alias) d l1)
                         (if shared then update_first (\<lambda>x. name x = alias) d l2 else l2) shared
                     | Skipped \<Rightarrow> Go_on l1 l2 shared
                     | AppendSecond \<Rightarrow> Go_on (l1 @ [d2]) l2 shared)
                     (jn d1 d2)))))"

text \<open>The state of the loop over the aliases of the first reply, or the reply it returned.\<close>

datatype merge_state =
    Stopped query_reply
  | Running query_reply query_reply "(result_type \<times> gostring) list"

definition merge_field ::
  "('e \<Rightarrow> gostring) \<Rightarrow> ('e \<Rightarrow> 'e \<Rightarrow> 'e joined go) \<Rightarrow> (query_reply \<Rightarrow> 'e list option)
   \<Rightarrow> (('e list option \<Rightarrow> 'e list option) \<Rightarrow> query_reply \<Rightarrow> query_reply) \<Rightarrow> result_alias
   \<Rightarrow> query_reply \<Rightarrow> query_reply \<Rightarrow> (result_type \<times> gostring) list \<Rightarrow> merge_state go" where
  "merge_field name jn get put a r1 r2 shared =
     (let key = (ra_ResultType a, ra_Alias a) in
      go_lift (\<lambda>s. case s of
          ReturnFirst \<Rightarrow> Stopped r1
        | ReturnSecond \<Rightarrow> Stopped r2
        | Go_on l1 l2 sh \<Rightarrow> Running (put (\<lambda>_. Some l1) r1) (put (\<lambda>_. Some l2) r2)
            (if sh then key # shared else shared))
        (merge_kind name jn (ra_Alias a) (key \<in> set shared) (get r1) (get r2)))"

definition merge_alias :: "result_alias \<Rightarrow> merge_state \<Rightarrow> merge_state go" where
  "merge_alias a st =
     (case st of
        Stopped r \<Rightarrow> Ret st
      | Running r1 r2 shared \<Rightarrow>
        (case ra_ResultType a of
           RT_NODE \<Rightarrow> merge_field na_Alias join_nodes qr_Nodes qr_Nodes_update a r1 r2 shared
         | RT_EDGE \<Rightarrow> merge_field ea_Alias join_edges qr_Edges qr_Edges_update a r1 r2 shared
         | RT_TABLE \<Rightarrow> merge_field tt_TableName join_tables qr_Tables qr_Tables_update a r1 r2 shared
         | RT_PATH \<Rightarrow> merge_field pl_Alias join_paths qr_Paths qr_Paths_update a r1 r2 shared
         | RT_ATTR \<Rightarrow> merge_field aa_Alias join_attrs qr_Attrs qr_Attrs_update a r1 r2 shared
         | _ \<Rightarrow> Ret st))"

definition MergeUQLReply :: "query_reply \<Rightarrow> query_reply \<Rightarrow> query_reply go" where
  "MergeUQLReply reply1 reply2 =
     go_lift (\<lambda>st. case st of Stopped r \<Rightarrow> r | Running r1 r2 sh \<Rightarrow> r1)
       (go_fold merge_alias (qr_Alias reply1) (Running reply1 reply2 []))"

section \<open>Looking an alias up\<close>

definition CheckAliasExist :: "query_reply \<Rightarrow> gostring \<Rightarrow> bool" where
  "CheckAliasExist reply alias = list_ex (\<lambda>a. ra_Alias a = alias) (qr_Alias reply)"

definition find_named :: "('e \<Rightarrow> gostring) \<Rightarrow> ('e \<Rightarrow> item_data) \<Rightarrow> 'e list option \<Rightarrow> gostring \<Rightarrow> item_data"
  where
  "find_named name mk xs alias =
     (case Find xs (\<lambda>i. case xs of None \<Rightarrow> False | Some l \<Rightarrow> name (l ! i) = alias) of
        None \<Rightarrow> DNil | Some d \<Rightarrow> mk d)"

fun find_alias_data ::
  "query_reply \<Rightarrow> gostring \<Rightarrow> result_alias list \<Rightarrow> item_data \<times> result_type
   \<Rightarrow> (item_data \<times> result_type) go" where
  "find_alias_data reply alias [] acc = Ret acc"
| "find_alias_data reply alias (a # rest) (data, t) =
     go_bind
       (case ra_ResultType a of
          RT_NODE \<Rightarrow> Ret (find_named na_Alias DNodes (qr_Nodes reply) alias)
        | RT_EDGE \<Rightarrow> Ret (find_named ea_Alias DEdges (qr_Edges reply) alias)
        | RT_TABLE \<Rightarrow> Ret (find_named tt_TableName DTable (qr_Tables reply) alias)
        | RT_PATH \<Rightarrow> Ret (find_named pl_Alias DPaths (qr_Paths reply) alias)
        | RT_ATTR \<Rightarrow> Ret (find_named aa_Alias DAttr (qr_Attrs reply) alias)
        | RT_UNSET \<Rightarrow> Ret data
        | RT_OTHER i \<Rightarrow> Panic (PanicCall ''FindAliasDataInReply Not Supported DBType ''))
       (\<lambda>data'. if data' \<noteq> DNil then Ret (data', ra_ResultType a)
         else find_alias_data reply alias rest (data', ra_ResultType a))"

definition FindAliasDataInReply :: "query_reply \<Rightarrow> gostring \<Rightarrow> (item_data \<times> result_type) go" where
  "FindAliasDataInReply reply alias =
     (if \<not> CheckAliasExist reply alias then Ret (DNil, RT_UNSET)
      else find_alias_data reply alias (qr_Alias reply) (DNil, RT_UNSET))"

section \<open>The interface of a kind of payload\<close>

lemma Find_by: "Find (Some l) (\<lambda>i. name (l ! i) = a) = List.find (\<lambda>x. name x = a) l"
proof (induction l)
  case Nil
  then show ?case by (simp add: Find_def)
next
  case (Cons x l)
  have "List.find P (map Suc is) = map_option Suc (List.find (\<lambda>i. P (Suc i)) is)" for P "is"
    by (induction "is") auto
  with Cons show ?case
    by (auto simp: Find_def upt_conv_Cons map_Suc_upt [symmetric] simp del: upt_Suc
        split: option.splits)
qed

lemma find_append:
  "List.find p (xs @ ys) = (case List.find p xs of None \<Rightarrow> List.find p ys | Some x \<Rightarrow> Some x)"
  by (induction xs) auto

lemma find_update_first:
  "List.find p l = Some x \<Longrightarrow> p d \<Longrightarrow> List.find p (update_first p d l) = Some d"
  by (induction l) auto

lemma find_update_other:
  assumes "\<And>y. p y \<Longrightarrow> \<not> q y" "\<not> q d"
  shows "List.find q (update_first p d l) = List.find q l"
  using assms by (induction l) auto

lemma set_update_first: "set (update_first p d l) \<subseteq> insert d (set l)"
  by (induction l) auto

locale row_kind =
  fixes name :: "'e \<Rightarrow> gostring" and rows :: "'e \<Rightarrow> 'r list" and ok :: "'e \<Rightarrow> bool"
    and jn :: "'e \<Rightarrow> 'e \<Rightarrow> 'e joined go"
  assumes joins: "ok d1 \<Longrightarrow> ok d2 \<Longrightarrow>
    \<exists>d. jn d1 d2 = Ret (Joined d) \<and> name d = name d1 \<and> ok d \<and> rows d = rows d1 @ rows d2"
begin

text \<open>The rows of a list under a name.\<close>

definition rows_under :: "'e list \<Rightarrow> gostring \<Rightarrow> 'r list" where
  "rows_under l a = (case List.find (\<lambda>x. name x = a) l of None \<Rightarrow> [] | Some d \<Rightarrow> rows d)"

lemma merge_kind_rows:
  assumes "list_all ok l1" "list_all ok l2"
  shows "\<exists>l sh. merge_kind name jn a False (Some l1) (Some l2) = Ret (Go_on l l2 sh) \<and>
    list_all ok l \<and> (\<forall>b. rows_under l b = rows_under l1 b @ (if b = a then rows_under l2 b else []))"
proof (cases "List.find (\<lambda>x. name x = a) l2")
  case None
  then show ?thesis using assms
    by (auto simp: merge_kind_def Find_by rows_under_def)
next
  case (Some d2)
  then have d2: "d2 \<in> set l2" "name d2 = a" by (auto dest: find_Some_in)
  then have ok2: "ok d2" using assms(2) by (simp add: list_all_iff)
  show ?thesis
  proof (cases "List.find (\<lambda>x. name x = a) l1")
    case None
    have "rows_under (l1 @ [d2]) b = rows_under l1 b @ (if b = a then rows_under l2 b else [])" for b
      using None Some d2 by (auto simp: rows_under_def find_append split: option.split)
    with None Some assms ok2 show ?thesis
      by (auto simp: merge_kind_def Find_by)
  next
    case d1: (Some d1)
    then have "d1 \<in> set l1" "name d1 = a" by (auto dest: find_Some_in)
    then obtain d where d: "jn d1 d2 = Ret (Joined d)" "name d = a" "ok d" "rows d = rows d1 @ rows d2"
      using joins [of d1 d2] ok2 assms(1) by (auto simp: list_all_iff)
    let ?l = "update_first (\<lambda>x. name x = a) d l1"
    have "list_all ok ?l"
      using assms(1) d(3) set_update_first [of "\<lambda>x. name x = a" d l1] by (auto simp: list_all_iff)
    moreover have "rows_under ?l b = rows_under l1 b @ (if b = a then rows_under l2 b else [])" for b
    proof (cases "b = a")
      case True
      have "List.find (\<lambda>x. name x = a) ?l = Some d" using d1 d(2) by (rule find_update_first)
      then show ?thesis using True d1 Some d(4) by (simp add: rows_under_def)
    next
      case False
      then have "List.find (\<lambda>x. name x = b) ?l = List.find (\<lambda>x. name x = b) l1"
        using d(2) by (intro find_update_other) auto
      then show ?thesis using False by (simp add: rows_under_def)
    qed
    ultimately show ?thesis using d1 Some d(1) by (auto simp: merge_kind_def Find_by)
  qed
qed

end

text \<open>The rows of the five kinds as one type.\<close>

datatype row =
    RowNode entity_row
  | RowEdge entity_row
  | RowTable "bytes list"
  | RowPath proto_path
  | RowAttr bytes

definition node_payload :: "node_alias \<Rightarrow> row list" where
  "node_payload d = (case na_NodeTable d of None \<Rightarrow> [] | Some t \<Rightarrow> map RowNode (et_EntityRows t))"

definition edge_payload :: "edge_alias \<Rightarrow> row list" where
  "edge_payload d = (case ea_EdgeTable d of None \<Rightarrow> [] | Some t \<Rightarrow> map RowEdge (et_EntityRows t))"

definition table_payload :: "proto_table \<Rightarrow> row list" where
  "table_payload d = map RowTable (tt_TableRows d)"

definition path_payload :: "path_alias \<Rightarrow> row list" where
  "path_payload d = map RowPath (pl_Paths d)"

definition attr_payload :: "attr_alias \<Rightarrow> row list" where
  "attr_payload d = (case aa_Attr d of None \<Rightarrow> []
     | Some a \<Rightarrow> (case pa_Values a of None \<Rightarrow> [] | Some vs \<Rightarrow> map RowAttr vs))"

interpretation nodes_kind: row_kind na_Alias node_payload "\<lambda>d. na_NodeTable d \<noteq> None" join_nodes
  by unfold_locales (auto simp: join_nodes_def node_payload_def)

interpretation edges_kind: row_kind ea_Alias edge_payload "\<lambda>d. ea_EdgeTable d \<noteq> None" join_edges
  by unfold_locales (auto simp: join_edges_def edge_payload_def)

interpretation tables_kind: row_kind tt_TableName table_payload "\<lambda>d. True" join_tables
  by unfold_locales (auto simp: join_tables_def table_payload_def)

interpretation paths_kind: row_kind pl_Alias path_payload "\<lambda>d. True" join_paths
  by unfold_locales (auto simp: join_paths_def path_payload_def)

interpretation attrs_kind: row_kind aa_Alias attr_payload "\<lambda>d. aa_Attr d \<noteq> None" join_attrs
  by unfold_locales
    (auto simp: join_attrs_def attr_payload_def append_nilable_def split: option.split)

definition kind_payload :: "result_type \<Rightarrow> query_reply \<Rightarrow> gostring \<Rightarrow> row list" where
  "kind_payload t r a =
     (case t of
        RT_NODE \<Rightarrow> nodes_kind.rows_under (the (qr_Nodes r)) a
      | RT_EDGE \<Rightarrow> edges_kind.rows_under (the (qr_Edges r)) a
      | RT_TABLE \<Rightarrow> tables_kind.rows_under (the (qr_Tables r)) a
      | RT_PATH \<Rightarrow> paths_kind.rows_under (the (qr_Paths r)) a
      | RT_ATTR \<Rightarrow> attrs_kind.rows_under (the (qr_Attrs r)) a
      | _ \<Rightarrow> [])"

text \<open>The list of a kind is there and its payloads hold the message the merge needs.\<close>

definition has_kind :: "result_type \<Rightarrow> query_reply \<Rightarrow> bool" where
  "has_kind t r \<longleftrightarrow>
     (case t of
        RT_NODE \<Rightarrow> (\<exists>l. qr_Nodes r = Some l \<and> list_all (\<lambda>d. na_NodeTable d \<noteq> None) l)
      | RT_EDGE \<Rightarrow> (\<exists>l. qr_Edges r = Some l \<and> list_all (\<lambda>d. ea_EdgeTable d \<noteq> None) l)
      | RT_TABLE \<Rightarrow> qr_Tables r \<noteq> None
      | RT_PATH \<Rightarrow> qr_Paths r \<noteq> None
      | RT_ATTR \<Rightarrow> (\<exists>l. qr_Attrs r = Some l \<and> list_all (\<lambda>d. aa_Attr d \<noteq> None) l)
      | _ \<Rightarrow> True)"

definition key_of :: "result_alias \<Rightarrow> result_type \<times> gostring" where
  "key_of a = (ra_ResultType a, ra_Alias a)"

lemma merge_alias_rows:
  assumes "has_kind (ra_ResultType a) r1" "has_kind (ra_ResultType a) r2" "key_of a \<notin> set shared"
  shows "\<exists>r sh. merge_alias a (Running r1 r2 shared) = Ret (Running r r2 sh) \<and>
    set sh \<subseteq> insert (key_of a) (set shared) \<and> qr_Alias r = qr_Alias r1 \<and>
    qr_Status r = qr_Status r1 \<and>
    (\<forall>t. has_kind t r1 \<longrightarrow> has_kind t r) \<and>
    (\<forall>t b. kind_payload t r b
       = kind_payload t r1 b @ (if (t, b) = key_of a then kind_payload t r2 b else []))"
proof (cases "ra_ResultType a")
  case RT_NODE
  then obtain l1 l2 where l: "qr_Nodes r1 = Some l1" "list_all (\<lambda>d. na_NodeTable d \<noteq> None) l1"
    "qr_Nodes r2 = Some l2" "list_all (\<lambda>d. na_NodeTable d \<noteq> None) l2"
    using assms by (auto simp: has_kind_def)
  from nodes_kind.merge_kind_rows [OF l(2,4), of "ra_Alias a"] RT_NODE l assms(3) show ?thesis
    by (auto simp: merge_alias_def merge_field_def has_kind_def key_of_def kind_payload_def
        split: result_type.split)
next
  case RT_EDGE
  then obtain l1 l2 where l: "qr_Edges r1 = Some l1" "list_all (\<lambda>d. ea_EdgeTable d \<noteq> None) l1"
    "qr_Edges r2 = Some l2" "list_all (\<lambda>d. ea_EdgeTable d \<noteq> None) l2"
    using assms by (auto simp: has_kind_def)
  from edges_kind.merge_kind_rows [OF l(2,4), of "ra_Alias a"] RT_EDGE l assms(3) show ?thesis
    by (auto simp: merge_alias_def merge_field_def has_kind_def key_of_def kind_payload_def
        split: result_type.split)
next
  case RT_TABLE
  then obtain l1 l2 where l: "qr_Tables r1 = Some l1" "qr_Tables r2 = Some l2"
    using assms by (auto simp: has_kind_def)
  from tables_kind.merge_kind_rows [of l1 l2 "ra_Alias a"] RT_TABLE l assms(3) show ?thesis
    by (auto simp: merge_alias_def merge_field_def has_kind_def key_of_def kind_payload_def
        list_all_iff split: result_type.split)
next
  case RT_PATH
  then obtain l1 l2 where l: "qr_Paths r1 = Some l1" "qr_Paths r2 = Some l2"
    using assms by (auto simp: has_kind_def)
  from paths_kind.merge_kind_rows [of l1 l2 "ra_Alias a"] RT_PATH l assms(3) show ?thesis
    by (auto simp: merge_alias_def merge_field_def has_kind_def key_of_def kind_payload_def
        list_all_iff split: result_type.split)
next
  case RT_ATTR
  then obtain l1 l2 where l: "qr_Attrs r1 = Some l1" "list_all (\<lambda>d. aa_Attr d \<noteq> None) l1"
    "qr_Attrs r2 = Some l2" "list_all (\<lambda>d. aa_Attr d \<noteq> None) l2"
    using assms by (auto simp: has_kind_def)
  from attrs_kind.merge_kind_rows [OF l(2,4), of "ra_Alias a"] RT_ATTR l assms(3) show ?thesis
    by (auto simp: merge_alias_def merge_field_def has_kind_def key_of_def kind_payload_def
        split: result_type.split)
qed (auto simp: merge_alias_def key_of_def kind_payload_def)

text \<open>A reply the merge of a list of aliases needs nothing more from.\<close>

definition complete_for :: "result_alias list \<Rightarrow> query_reply \<Rightarrow> bool" where
  "complete_for as r \<longleftrightarrow> list_all (\<lambda>a. has_kind (ra_ResultType a) r) as"

lemma merge_loop:
  assumes "distinct (map key_of as)" "set shared \<inter> set (map key_of as) = {}"
    "complete_for (as @ bs) r1" "complete_for as r2"
  shows "\<exists>r sh. go_fold merge_alias as (Running r1 r2 shared) = Ret (Running r r2 sh) \<and>
    qr_Alias r = qr_Alias r1 \<and> qr_Status r = qr_Status r1 \<and> complete_for (as @ bs) r \<and>
    (\<forall>t b. kind_payload t r b = kind_payload t r1 b
       @ (if (t, b) \<in> set (map key_of as) then kind_payload t r2 b else []))"
  using assms
proof (induction as arbitrary: r1 shared bs)
  case Nil
  then show ?case by simp
next
  case (Cons a as)
  have "has_kind (ra_ResultType a) r1" "has_kind (ra_ResultType a) r2" "key_of a \<notin> set shared"
    using Cons.prems by (auto simp: complete_for_def)
  from merge_alias_rows [OF this] obtain r sh where step:
    "merge_alias a (Running r1 r2 shared) = Ret (Running r r2 sh)"
    "set sh \<subseteq> insert (key_of a) (set shared)" "qr_Alias r = qr_Alias r1" "qr_Status r = qr_Status r1"
    "\<And>t. has_kind t r1 \<Longrightarrow> has_kind t r"
    "\<And>t b. kind_payload t r b
       = kind_payload t r1 b @ (if (t, b) = key_of a then kind_payload t r2 b else [])" by blast
  have "complete_for (as @ (a # bs)) r"
    using Cons.prems(3) step(5) by (auto simp: complete_for_def list_all_iff)
  moreover have "set sh \<inter> set (map key_of as) = {}"
    using Cons.prems(1,2) step(2) unfolding list.map list.set distinct.simps by blast
  moreover have "distinct (map key_of as)" "complete_for as r2"
    using Cons.prems(1,4) by (auto simp: complete_for_def)
  ultimately obtain r' sh' where ih:
    "go_fold merge_alias as (Running r r2 sh) = Ret (Running r' r2 sh')"
    "qr_Alias r' = qr_Alias r" "qr_Status r' = qr_Status r" "complete_for (as @ (a # bs)) r'"
    "\<And>t b. kind_payload t r' b = kind_payload t r b
       @ (if (t, b) \<in> set (map key_of as) then kind_payload t r2 b else [])"
    using Cons.IH [of sh "a # bs" r] by blast
  have "complete_for ((a # as) @ bs) r'" using ih(4) by (auto simp: complete_for_def)
  moreover have "kind_payload t r' b = kind_payload t r1 b
      @ (if (t, b) \<in> set (map key_of (a # as)) then kind_payload t r2 b else [])" for t b
    using ih(5) step(6) Cons.prems(1) by auto
  ultimately show ?case using step(1,3,4) ih(1-3) by auto
qed

lemma merge_uniform:
  assumes "distinct (map key_of (qr_Alias r1))" "complete_for (qr_Alias r1) r1"
    "complete_for (qr_Alias r1) r2"
  obtains r where "MergeUQLReply r1 r2 = Ret r" "qr_Alias r = qr_Alias r1" "qr_Status r = qr_Status r1"
    "complete_for (qr_Alias r1) r"
    "\<And>a. a \<in> set (qr_Alias r1) \<Longrightarrow> kind_payload (ra_ResultType a) r (ra_Alias a)
       = kind_payload (ra_ResultType a) r1 (ra_Alias a) @ kind_payload (ra_ResultType a) r2 (ra_Alias a)"
proof -
  from merge_loop [of "qr_Alias r1" "[]" "[]" r1 r2] assms obtain r sh where
    "go_fold merge_alias (qr_Alias r1) (Running r1 r2 []) = Ret (Running r r2 sh)"
    "qr_Alias r = qr_Alias r1" "qr_Status r = qr_Status r1" "complete_for (qr_Alias r1) r"
    "\<And>t b. kind_payload t r b = kind_payload t r1 b
       @ (if (t, b) \<in> set (map key_of (qr_Alias r1)) then kind_payload t r2 b else [])" by auto
  then show thesis by (intro that [of r]) (force simp: MergeUQLReply_def key_of_def)+
qed

text \<open>
  Property C15. Merging loses nothing when the replies are uniform: if the aliases of the first
  reply are distinct and both replies hold a list for every kind of result the aliases name,
  the merge succeeds, keeps the aliases and the status of the first, and under every alias the
  rows are those of the first reply followed by those of the second, in order.
\<close>

theorem merge_concatenates:
  assumes "distinct (map key_of (qr_Alias r1))" "complete_for (qr_Alias r1) r1"
    "complete_for (qr_Alias r1) r2"
  shows "\<exists>r. MergeUQLReply r1 r2 = Ret r \<and> qr_Alias r = qr_Alias r1 \<and> qr_Status r = qr_Status r1 \<and>
    complete_for (qr_Alias r) r \<and>
    (\<forall>a \<in> set (qr_Alias r1). kind_payload (ra_ResultType a) r (ra_Alias a)
       = kind_payload (ra_ResultType a) r1 (ra_Alias a) @ kind_payload (ra_ResultType a) r2 (ra_Alias a))"
  by (rule merge_uniform [OF assms]) simp

text \<open>Two replies of one node alias and one table alias.\<close>

definition sample_reply :: "node_alias list option \<Rightarrow> proto_table list option \<Rightarrow> query_reply" where
  "sample_reply nodes tables = \<lparr>qr_Status = None,
     qr_Alias = [\<lparr>ra_Alias = ''n'', ra_ResultType = RT_NODE\<rparr>, \<lparr>ra_Alias = ''t'', ra_ResultType = RT_TABLE\<rparr>],
     qr_Paths = None, qr_Nodes = nodes, qr_Edges = None, qr_Attrs = None, qr_Tables = tables,
     qr_Statistics = None, qr_ExplainPlan = None\<rparr>"

definition sample_rows :: "bytes list list \<Rightarrow> query_reply" where
  "sample_rows rows = sample_reply (Some [\<lparr>na_Alias = ''n'', na_NodeTable = Some sample_entities\<rparr>])
     (Some [\<lparr>tt_TableName = ''t'', tt_Headers = [], tt_TableRows = rows\<rparr>])"

lemma merge_concatenates_witness:
  "\<exists>r. MergeUQLReply (sample_rows [[[1]]]) (sample_rows [[[2]], [[3]]]) = Ret r \<and>
    kind_payload RT_TABLE r ''t'' = [RowTable [[1]], RowTable [[2]], RowTable [[3]]]"
  using merge_concatenates [of "sample_rows [[[1]]]" "sample_rows [[[2]], [[3]]]"]
  by (auto simp: sample_rows_def sample_reply_def complete_for_def has_kind_def key_of_def
      kind_payload_def tables_kind.rows_under_def table_payload_def)

section \<open>Where the merge returns early\<close>

definition lacks :: "result_type \<Rightarrow> query_reply \<Rightarrow> bool" where
  "lacks t r \<longleftrightarrow>
     (case t of RT_NODE \<Rightarrow> qr_Nodes r = None | RT_EDGE \<Rightarrow> qr_Edges r = None
      | RT_TABLE \<Rightarrow> qr_Tables r = None | RT_PATH \<Rightarrow> qr_Paths r = None
      | RT_ATTR \<Rightarrow> qr_Attrs r = None | _ \<Rightarrow> False)"

lemma merge_stopped: "go_fold merge_alias as (Stopped r) = Ret (Stopped r)"
  by (induction as) (simp_all add: merge_alias_def)

lemma merge_kind_lacks:
  "xs1 = None \<or> xs2 = None \<Longrightarrow>
    merge_kind name jn a sh xs1 xs2 = Ret (if xs2 = None then ReturnFirst else ReturnSecond)"
  by (cases xs1; cases xs2) (simp_all add: merge_kind_def)

text \<open>
  When one of the replies has no list for the kind of the first alias, the merge
  returns one of them unchanged, whatever the other aliases name: the first when the second
  lacks the kind, so every row of the second is lost, and otherwise the second, so every row of
  the first is lost.
\<close>

theorem merge_early_return:
  assumes "qr_Alias r1 = a # rest" "lacks (ra_ResultType a) r1 \<or> lacks (ra_ResultType a) r2"
  shows "MergeUQLReply r1 r2 = Ret (if lacks (ra_ResultType a) r2 then r1 else r2)"
proof -
  have "merge_alias a (Running r1 r2 [])
      = Ret (Stopped (if lacks (ra_ResultType a) r2 then r1 else r2))"
    using assms(2)
    by (cases "ra_ResultType a")
      (auto simp: merge_alias_def merge_field_def lacks_def merge_kind_lacks)
  then show ?thesis using assms(1) by (simp add: MergeUQLReply_def merge_stopped)
qed

lemma merge_early_return_witness:
  "MergeUQLReply (sample_reply None (Some [\<lparr>tt_TableName = ''t'', tt_Headers = [], tt_TableRows = [[[1]]]\<rparr>]))
      (sample_reply (Some []) None) = Ret (sample_reply (Some []) None)"
  using merge_early_return
    [of "sample_reply None (Some [\<lparr>tt_TableName = ''t'', tt_Headers = [], tt_TableRows = [[[1]]]\<rparr>])"
      "\<lparr>ra_Alias = ''n'', ra_ResultType = RT_NODE\<rparr>" _ "sample_reply (Some []) None"]
  by (simp add: sample_reply_def lacks_def)

section \<open>Facts on the lookup\<close>

text \<open>The type a payload is read with, and the payload of a kind under a name.\<close>

fun data_typed :: "item_data \<Rightarrow> result_type \<Rightarrow> bool" where
  "data_typed DNil t = True"
| "data_typed (DNodes d) t = (t = RT_NODE)"
| "data_typed (DEdges d) t = (t = RT_EDGE)"
| "data_typed (DPaths d) t = (t = RT_PATH)"
| "data_typed (DTable d) t = (t = RT_TABLE)"
| "data_typed (DAttr d) t = (t = RT_ATTR)"

definition payload :: "query_reply \<Rightarrow> result_type \<Rightarrow> gostring \<Rightarrow> item_data" where
  "payload r t alias =
     (case t of
        RT_NODE \<Rightarrow> find_named na_Alias DNodes (qr_Nodes r) alias
      | RT_EDGE \<Rightarrow> find_named ea_Alias DEdges (qr_Edges r) alias
      | RT_TABLE \<Rightarrow> find_named tt_TableName DTable (qr_Tables r) alias
      | RT_PATH \<Rightarrow> find_named pl_Alias DPaths (qr_Paths r) alias
      | RT_ATTR \<Rightarrow> find_named aa_Alias DAttr (qr_Attrs r) alias
      | _ \<Rightarrow> DNil)"

lemma payload_typed: "data_typed (payload r t alias) t"
  by (auto simp: payload_def find_named_def split: result_type.split option.split)

lemma find_alias_data_Cons:
  "find_alias_data r alias (a # rest) (DNil, t) =
     (if \<exists>i. ra_ResultType a = RT_OTHER i
      then Panic (PanicCall ''FindAliasDataInReply Not Supported DBType '')
      else if payload r (ra_ResultType a) alias \<noteq> DNil
      then Ret (payload r (ra_ResultType a) alias, ra_ResultType a)
      else find_alias_data r alias rest (DNil, ra_ResultType a))"
  by (auto simp: payload_def split: result_type.split)

lemma find_alias_data_typed:
  "find_alias_data r alias as (DNil, t0) = Ret (d, t) \<Longrightarrow> data_typed d t"
proof (induction as arbitrary: t0)
  case Nil
  then show ?case by auto
next
  case (Cons a as)
  then show ?case using payload_typed [of r "ra_ResultType a" "alias"]
    by (auto simp: find_alias_data_Cons simp del: find_alias_data.simps(2) split: if_splits)
qed

lemma lookup_typed: "FindAliasDataInReply r alias = Ret (d, t) \<Longrightarrow> data_typed d t"
  by (auto simp: FindAliasDataInReply_def intro: find_alias_data_typed split: if_splits)

lemma find_alias_data_unique:
  assumes "\<forall>a \<in> set as. \<forall>i. ra_ResultType a \<noteq> RT_OTHER i" "t \<in> ra_ResultType ` set as"
    "payload r t alias \<noteq> DNil" "\<forall>u. u \<noteq> t \<longrightarrow> payload r u alias = DNil"
  shows "find_alias_data r alias as (DNil, t0) = Ret (payload r t alias, t)"
  using assms(1,2)
proof (induction as arbitrary: t0)
  case Nil
  then show ?case by simp
next
  case (Cons a as)
  show ?case
  proof (cases "ra_ResultType a = t")
    case True
    then show ?thesis using Cons.prems(1) assms(3)
      by (auto simp: find_alias_data_Cons simp del: find_alias_data.simps(2))
  next
    case False
    then have "payload r (ra_ResultType a) alias = DNil" using assms(4) by blast
    then show ?thesis using Cons False
      by (auto simp: find_alias_data_Cons simp del: find_alias_data.simps(2))
  qed
qed

end
