(* ===== verification/Responses.thy ===== *)
theory Responses
  imports Replies
begin

text \<open>
  \<open>sdk/http/response.query.go\<close>, \<open>responseStream.go\<close>, \<open>statistic.go\<close>, \<open>explainPlan.go\<close>,
  \<open>status.go\<close>, \<open>job.go\<close>, \<open>response.insert.go\<close> and \<open>dataitem.extra.go\<close>: what the driver makes
  of the replies to a query. The stream is an argument: the replies it delivers and what it
  ends with, the end of file (\<open>None\<close>) or an error.
\<close>

section \<open>Statistics and plans\<close>

record statistic =
  sg_NodeAffected :: int64
  sg_EdgeAffected :: int64
  sg_TotalCost :: int64
  sg_EngineCost :: int64

definition empty_statistic :: statistic where
  "empty_statistic = \<lparr>sg_NodeAffected = 0, sg_EdgeAffected = 0, sg_TotalCost = 0, sg_EngineCost = 0\<rparr>"

text \<open>The first four columns of the first row, by header name; \<open>i\<close> is the column.\<close>

fun statistic_columns ::
  "proto_property list \<Rightarrow> nat \<Rightarrow> bytes list list \<Rightarrow> (gostring \<rightharpoonup> gostring) \<Rightarrow> (gostring \<rightharpoonup> gostring) go"
  where
  "statistic_columns [] i rows kv = Ret kv"
| "statistic_columns (h # hs) i rows kv =
     (if 4 \<le> i then Ret kv
      else go_bind (go_nth rows 0) (\<lambda>row. go_bind (go_nth row i) (\<lambda>value.
        statistic_columns hs (i + 1) rows (kv(pp_PropertyName h \<mapsto> string_of value)))))"

definition statistic_field :: "(gostring \<rightharpoonup> gostring) \<Rightarrow> gostring \<Rightarrow> int64 go" where
  "statistic_field kv key =
     (case kv key of
        None \<Rightarrow> Ret 0
      | Some v \<Rightarrow> if v = [] then Ret 0
                  else go_lift word_of_int (err_val (parse_int v 64)))"

definition ParseStatistic :: "proto_table option \<Rightarrow> statistic go" where
  "ParseStatistic table =
     (case table of
        None \<Rightarrow> Ret empty_statistic
      | Some t \<Rightarrow>
          go_bind (statistic_columns (tt_Headers t) 0 (tt_TableRows t) Map.empty) (\<lambda>kv.
          go_bind (statistic_field kv ''node_affected'') (\<lambda>n.
          go_bind (statistic_field kv ''edge_affected'') (\<lambda>e.
          go_bind (statistic_field kv ''total_time_cost'') (\<lambda>tc.
          go_bind (statistic_field kv ''engine_time_cost'') (\<lambda>ec.
            Ret \<lparr>sg_NodeAffected = n, sg_EdgeAffected = e, sg_TotalCost = tc,
                sg_EngineCost = ec\<rparr>))))))"

record explain_node =
  en_Alias :: gostring
  en_ChildrenNum :: "32 word"
  en_Uql :: gostring
  en_Infos :: gostring

definition ParseExplainPlan :: "plan_node list option \<Rightarrow> explain_node list go" where
  "ParseExplainPlan ex =
     (case ex of
        None \<Rightarrow> Ret []
      | Some nodes \<Rightarrow> Ret (map (\<lambda>p. \<lparr>en_Alias = pn_Alias p, en_ChildrenNum = pn_ChildrenNum p,
          en_Uql = pn_QueryText p, en_Infos = pn_Infos p\<rparr>) nodes))"

section \<open>The response to a query\<close>

record status =
  st_Message :: gostring
  st_Code :: error_code

record response =
  rs_Reply :: "query_reply option"
  rs_Status :: status
  rs_Statistic :: "statistic option"
  rs_ExplainPlan :: "explain_node list option"
  rs_AliasList :: "gostring list"

definition empty_response :: response where
  "empty_response = \<lparr>rs_Reply = None, rs_Status = \<lparr>st_Message = [], st_Code = SUCCESS\<rparr>,
     rs_Statistic = None, rs_ExplainPlan = None, rs_AliasList = []\<rparr>"

text \<open>One reply of the stream: statistics and plan are taken from the first only.\<close>

definition receive_stats :: "query_reply \<Rightarrow> response \<Rightarrow> response go" where
  "receive_stats record resp =
     go_bind (case rs_Statistic resp of
         None \<Rightarrow> go_lift (\<lambda>s. resp\<lparr>rs_Statistic := Some s\<rparr>) (ParseStatistic (qr_Statistics record))
       | Some s \<Rightarrow> Ret resp)
     (\<lambda>resp. case rs_ExplainPlan resp of
         None \<Rightarrow> go_lift (\<lambda>p. resp\<lparr>rs_ExplainPlan := Some p\<rparr>) (ParseExplainPlan (qr_ExplainPlan record))
       | Some p \<Rightarrow> Ret resp)"

definition receive_status :: "query_reply \<Rightarrow> response \<Rightarrow> response" where
  "receive_status record resp =
     (case qr_Status record of
        None \<Rightarrow> resp
      | Some (code, msg) \<Rightarrow> resp\<lparr>rs_Status := \<lparr>st_Message = msg, st_Code = code\<rparr>\<rparr>)"

definition receive :: "query_reply \<Rightarrow> response \<Rightarrow> response go" where
  "receive record resp =
     go_bind (receive_stats record resp) (\<lambda>resp.
     go_bind (case rs_Reply resp of None \<Rightarrow> Ret record | Some r \<Rightarrow> MergeUQLReply r record) (\<lambda>reply.
       Ret (receive_status record (resp\<lparr>rs_Reply := Some reply\<rparr>))))"

text \<open>The flag tells that a status other than success ended the loop.\<close>

fun read_replies ::
  "query_reply list \<Rightarrow> go_error option \<Rightarrow> response \<Rightarrow> (response \<times> bool) go" where
  "read_replies [] ending resp = (case ending of None \<Rightarrow> Ret (resp, False) | Some e \<Rightarrow> Fail e)"
| "read_replies (record # records) ending resp =
     go_bind (receive record resp) (\<lambda>resp.
       if st_Code (rs_Status resp) \<noteq> SUCCESS then Ret (resp, True)
       else read_replies records ending resp)"

definition NewUQLResponse :: "query_reply list \<Rightarrow> go_error option \<Rightarrow> response go" where
  "NewUQLResponse records ending =
     go_bind (read_replies records ending empty_response) (\<lambda>(resp, stopped).
       if stopped then Ret resp
       else go_bind (deref (rs_Reply resp)) (\<lambda>reply.
         Ret (resp\<lparr>rs_AliasList := map ra_Alias (qr_Alias reply)\<rparr>)))"

definition NeedRedirect :: "response \<Rightarrow> bool" where
  "NeedRedirect r = (st_Code (rs_Status r) = RAFT_REDIRECT)"

definition IsSuccess :: "response option \<Rightarrow> bool" where
  "IsSuccess r = (case r of None \<Rightarrow> False | Some r \<Rightarrow> st_Code (rs_Status r) = SUCCESS)"

definition Alias :: "response \<Rightarrow> gostring \<Rightarrow> data_item go" where
  "Alias r a =
     go_bind (deref (rs_Reply r)) (\<lambda>reply.
       go_lift (\<lambda>(data, t). \<lparr>di_Alias = [], di_Type = t, di_Data = data\<rparr>)
         (FindAliasDataInReply reply a))"

definition Get :: "response \<Rightarrow> int \<Rightarrow> data_item go" where
  "Get r index =
     (if index < int (length (rs_AliasList r))
      then if index < 0 then Panic IndexOutOfRange
           else Alias r (rs_AliasList r ! nat index)
      else Ret \<lparr>di_Alias = [], di_Type = RT_UNSET, di_Data = DNil\<rparr>)"

definition GetSingleTable :: "'a env_scheme \<Rightarrow> response \<Rightarrow> table option go" where
  "GetSingleTable env r = go_bind (Get r 0) (AsTable env)"

definition AsFirstNode :: "'a env_scheme \<Rightarrow> data_item \<Rightarrow> node option go" where
  "AsFirstNode env di =
     go_lift (\<lambda>(nodes, schemas). case nodes of [] \<Rightarrow> None | n # ns \<Rightarrow> Some n) (AsNodes env di)"

definition AsFirstEdge :: "'a env_scheme \<Rightarrow> data_item \<Rightarrow> edge option go" where
  "AsFirstEdge env di =
     go_lift (\<lambda>(edges, schemas). case edges of [] \<Rightarrow> None | e # es \<Rightarrow> Some e) (AsEdges env di)"

section \<open>Streaming\<close>

definition NewUQLResponseStream :: "response go" where
  "NewUQLResponseStream = Ret empty_response"

text \<open>
  The callback is an argument that works on a state of its own. \<open>errorf\<close> is \<open>fmt.Errorf\<close> applied
  to a format without arguments, as the source does with the message of the server.
\<close>

definition stream_response :: "query_reply \<Rightarrow> response go" where
  "stream_response record =
     go_lift (\<lambda>resp. receive_status record (resp\<lparr>rs_Reply := Some record\<rparr>))
       (receive_stats record empty_response)"

fun Recv ::
  "(gostring \<Rightarrow> go_error) \<Rightarrow> (response \<Rightarrow> 's \<Rightarrow> 's \<times> go_error option) \<Rightarrow> query_reply list
   \<Rightarrow> go_error option \<Rightarrow> 's \<Rightarrow> 's \<times> unit go" where
  "Recv errorf cb [] ending s = (s, case ending of None \<Rightarrow> Ret () | Some e \<Rightarrow> Fail e)"
| "Recv errorf cb (record # records) ending s =
     (case stream_response record of
        Fail e \<Rightarrow> (s, Fail e)
      | Panic p \<Rightarrow> (s, Panic p)
      | Ret resp \<Rightarrow>
          if st_Code (rs_Status resp) \<noteq> SUCCESS then (s, Fail (errorf (st_Message (rs_Status resp))))
          else
            let r = cb (resp\<lparr>rs_AliasList := map ra_Alias (qr_Alias record)\<rparr>) s
            in (case snd r of Some e \<Rightarrow> (fst r, Fail e)
                | None \<Rightarrow> Recv errorf cb records ending (fst r)))"

section \<open>Job responses\<close>

record job_response =
  jr_JobId :: gostring
  jr_Statistic :: "statistic option"
  jr_Status :: status

fun uint32_of :: "gval \<Rightarrow> 32 word go" where
  "uint32_of (GUint32 w) = Ret w"
| "uint32_of _ = Panic TypeAssertion"

text \<open>The error of the table is wrapped in one of its own.\<close>

definition GetJobResponseFromUqlResponse ::
  "'a env_scheme \<Rightarrow> response option \<Rightarrow> job_response go" where
  "GetJobResponseFromUqlResponse env r =
     (case r of
        None \<Rightarrow> Fail (Err ''cannot convert nil Response to JobResponse'')
      | Some resp \<Rightarrow>
          if \<not> IsSuccess r
          then Ret \<lparr>jr_JobId = [], jr_Statistic = rs_Statistic resp, jr_Status = rs_Status resp\<rparr>
          else go_bind (Alias resp ''result'') (\<lambda>di.
            case AsTable env di of
              Fail e \<Rightarrow> Fail (Err ''parse uqlResponse to jobResponse error : '')
            | Panic p \<Rightarrow> Panic p
            | Ret table \<Rightarrow>
                go_bind (deref table) (\<lambda>t.
                go_bind (ToKV t) (\<lambda>values.
                go_bind (go_nth values 0) (\<lambda>v.
                go_bind (uint32_of (Values_Get v ''new_job_id'')) (\<lambda>j.
                  Ret \<lparr>jr_JobId = itoa (int (unat j)), jr_Statistic = rs_Statistic resp,
                      jr_Status = rs_Status resp\<rparr>))))))"

section \<open>Responses to insertions\<close>

definition InsertErrorCodeMsgMap2 :: "(int \<times> gostring) list" where
  "InsertErrorCodeMsgMap2 =
    [(10001, ''ID_NOT_MATCH_UUID''), (10002, ''ID_UUID_NOT_MATCH_SCHEMA''),
     (10003, ''FROM_ID_NOT_EXISTED''), (10004, ''TO_ID_NOT_EXISTED''), (10005, ''ID_LEN''),
     (10006, ''NOT_NULL''), (10007, ''UNIQUCHECK''), (10008, ''ID_EMPTY''),
     (10009, ''FROM_ID_EMPTY''), (10010, ''TO_ID_EMPTY''), (10011, ''DUPLICATE_ID''),
     (10012, ''KEY_CONSTRAINT_VIOLATED''), (11001, ''OK_BUT_ID_EXISTED''), (19999, ''OTHERS'')]"

definition InsertErrorCodeMsgMap3 :: "(gostring \<times> int) list" where
  "InsertErrorCodeMsgMap3 =
    [(''ID_NOT_MATCH_UUID'', 10001), (''ID_UUID_NOT_MATCH_SCHEMA'', 10002),
     (''FROM_ID_NOT_EXISTED'', 10003), (''TO_ID_NOT_EXISTED'', 10004), (''ID_LEN'', 10005),
     (''NOT_NULL'', 10006), (''UNIQUCHECK'', 10007), (''ID_EMPTY'', 10008),
     (''FROM_ID_EMPTY'', 10009), (''TO_ID_EMPTY'', 10010), (''DUPLICATE_ID'', 10011),
     (''KEY_CONSTRAINT_VIOLATED'', 10012), (''OK_BUT_ID_EXISTED'', 11001), (''OTHERS'', 19999)]"

definition error_name :: "32 word \<Rightarrow> gostring" where
  "error_name code = (case map_of InsertErrorCodeMsgMap2 (uint code) of None \<Rightarrow> [] | Some s \<Rightarrow> s)"

record insert_reply =
  ir_Status :: "(error_code \<times> gostring) option"
  ir_TimeCost :: int32
  ir_EngineTimeCost :: int32
  ir_Uuids :: "uuid list"
  ir_Ids :: "gostring list"
  ir_IgnoreIndexes :: "32 word list"
  ir_IgnoreErrorCode :: "32 word list"

record insert_response =
  is_UUIDs :: "uuid list"
  is_IDs :: "gostring list"
  is_ErrorItems :: "int \<rightharpoonup> gostring"
  is_Statistic :: "statistic option"
  is_Status :: "status option"

definition insert_header :: "insert_reply \<Rightarrow> gostring list \<Rightarrow> insert_response go" where
  "insert_header reply ids =
     go_bind (deref (ir_Status reply)) (\<lambda>(code, msg).
       Ret \<lparr>is_UUIDs = ir_Uuids reply, is_IDs = ids, is_ErrorItems = Map.empty,
         is_Statistic = Some (empty_statistic\<lparr>sg_TotalCost := scast (ir_TimeCost reply),
           sg_EngineCost := scast (ir_EngineTimeCost reply)\<rparr>),
         is_Status = Some \<lparr>st_Message = msg, st_Code = code\<rparr>\<rparr>)"

text \<open>The loop over the ignored indexes, with the code at the same position.\<close>

fun error_items ::
  "32 word list \<Rightarrow> 32 word list \<Rightarrow> (int \<rightharpoonup> gostring) \<Rightarrow> (int \<rightharpoonup> gostring) go" where
  "error_items [] codes m = Ret m"
| "error_items (i # is) [] m = Panic IndexOutOfRange"
| "error_items (i # is) (c # codes) m = error_items is codes (m(uint i \<mapsto> error_name c))"

definition NewNodesInsertResponse :: "insert_reply \<Rightarrow> insert_response go" where
  "NewNodesInsertResponse reply =
     go_bind (insert_header reply (ir_Ids reply)) (\<lambda>response.
       if length (ir_IgnoreIndexes reply) \<noteq> length (ir_IgnoreErrorCode reply) then Ret response
       else go_lift (\<lambda>m. response\<lparr>is_ErrorItems := m\<rparr>)
         (error_items (ir_IgnoreIndexes reply) (ir_IgnoreErrorCode reply) Map.empty))"

text \<open>The reply to an insertion of edges has no ids.\<close>

definition NewEdgesInsertResponse :: "insert_reply \<Rightarrow> insert_response go" where
  "NewEdgesInsertResponse reply =
     go_bind (insert_header reply []) (\<lambda>response.
       go_lift (\<lambda>m. response\<lparr>is_ErrorItems := m\<rparr>)
         (error_items (ir_IgnoreIndexes reply) (ir_IgnoreErrorCode reply) Map.empty))"

section \<open>Reading a whole stream\<close>

text \<open>A stream whose replies are uniform: what the first names, every reply carries.\<close>

definition uniform :: "query_reply list \<Rightarrow> bool" where
  "uniform records \<longleftrightarrow>
     (case records of
        [] \<Rightarrow> False
      | r # rs \<Rightarrow> distinct (map key_of (qr_Alias r)) \<and> list_all (complete_for (qr_Alias r)) (r # rs))"

definition succeeds :: "query_reply \<Rightarrow> bool" where
  "succeeds r \<longleftrightarrow> (case qr_Status r of None \<Rightarrow> True | Some (code, msg) \<Rightarrow> code = SUCCESS)"

lemma receive_later:
  assumes "rs_Reply resp = Some r1" "rs_Statistic resp = Some s" "rs_ExplainPlan resp = Some p"
    "MergeUQLReply r1 record = Ret r"
  shows "receive record resp = Ret (receive_status record (resp\<lparr>rs_Reply := Some r\<rparr>))"
  using assms by (simp add: receive_def receive_stats_def)

lemma receive_status_simps [simp]:
  "rs_Reply (receive_status record resp) = rs_Reply resp"
  "rs_Statistic (receive_status record resp) = rs_Statistic resp"
  "rs_ExplainPlan (receive_status record resp) = rs_ExplainPlan resp"
  by (auto simp: receive_status_def split: option.split)

lemma receive_status_ok:
  "succeeds record \<Longrightarrow> st_Code (rs_Status resp) = SUCCESS \<Longrightarrow>
    st_Code (rs_Status (receive_status record resp)) = SUCCESS"
  by (auto simp: receive_status_def succeeds_def split: option.splits)

lemma read_replies_rows:
  assumes "list_all succeeds records" "list_all (complete_for as) records"
    "distinct (map key_of as)" "qr_Alias r1 = as" "complete_for as r1"
    "rs_Reply resp = Some r1" "rs_Statistic resp = Some s" "rs_ExplainPlan resp = Some p"
    "st_Code (rs_Status resp) = SUCCESS"
  shows "\<exists>resp' r. read_replies records None resp = Ret (resp', False) \<and> rs_Reply resp' = Some r \<and>
    st_Code (rs_Status resp') = SUCCESS \<and> qr_Alias r = as \<and>
    (\<forall>a \<in> set as. kind_payload (ra_ResultType a) r (ra_Alias a)
       = concat (map (\<lambda>q. kind_payload (ra_ResultType a) q (ra_Alias a)) (r1 # records)))"
  using assms
proof (induction records arbitrary: r1 resp)
  case Nil
  then show ?case by simp
next
  case (Cons q records)
  have "complete_for as q" using Cons.prems(2) by simp
  then obtain r where m: "MergeUQLReply r1 q = Ret r" "qr_Alias r = as" "complete_for as r"
    "\<And>a. a \<in> set as \<Longrightarrow> kind_payload (ra_ResultType a) r (ra_Alias a)
       = kind_payload (ra_ResultType a) r1 (ra_Alias a) @ kind_payload (ra_ResultType a) q (ra_Alias a)"
    using merge_uniform [of r1 q] Cons.prems(3-5) by auto
  let ?resp = "receive_status q (resp\<lparr>rs_Reply := Some r\<rparr>)"
  have rc: "receive q resp = Ret ?resp"
    by (rule receive_later [OF Cons.prems(6-8) m(1)])
  have ok: "st_Code (rs_Status ?resp) = SUCCESS"
    using Cons.prems(1,9) by (intro receive_status_ok) simp_all
  have "\<exists>resp' r'. read_replies records None ?resp = Ret (resp', False) \<and> rs_Reply resp' = Some r' \<and>
    st_Code (rs_Status resp') = SUCCESS \<and> qr_Alias r' = as \<and>
    (\<forall>a \<in> set as. kind_payload (ra_ResultType a) r' (ra_Alias a)
       = concat (map (\<lambda>q. kind_payload (ra_ResultType a) q (ra_Alias a)) (r # records)))"
    using Cons.prems ok by (intro Cons.IH [OF _ _ _ m(2,3)]) simp_all
  then show ?case using m(4) rc ok by auto
qed

lemma response_rows:
  assumes "uniform records" "list_all succeeds records" "ParseStatistic (qr_Statistics (hd records)) = Ret s"
  shows "\<exists>resp r. NewUQLResponse records None = Ret resp \<and> IsSuccess (Some resp) \<and>
    rs_Reply resp = Some r \<and> rs_AliasList resp = map ra_Alias (qr_Alias (hd records)) \<and>
    (\<forall>a \<in> set (qr_Alias (hd records)). kind_payload (ra_ResultType a) r (ra_Alias a)
       = concat (map (\<lambda>q. kind_payload (ra_ResultType a) q (ra_Alias a)) records))"
proof (cases records)
  case Nil
  then show ?thesis using assms(1) by (simp add: uniform_def)
next
  case (Cons r1 rs)
  have u: "list_all succeeds rs" "list_all (complete_for (qr_Alias r1)) rs"
    "distinct (map key_of (qr_Alias r1))" "complete_for (qr_Alias r1) r1" "succeeds r1"
    using assms(1,2) Cons by (auto simp: uniform_def)
  obtain p where p: "ParseExplainPlan (qr_ExplainPlan r1) = Ret p"
    by (cases "qr_ExplainPlan r1") (auto simp: ParseExplainPlan_def)
  let ?resp = "receive_status r1
    (empty_response\<lparr>rs_Statistic := Some s, rs_ExplainPlan := Some p, rs_Reply := Some r1\<rparr>)"
  have rc: "receive r1 empty_response = Ret ?resp"
    using assms(3) p Cons by (simp add: receive_def receive_stats_def empty_response_def)
  have ok: "st_Code (rs_Status ?resp) = SUCCESS"
    using u(5) by (intro receive_status_ok) (simp_all add: empty_response_def)
  from read_replies_rows [OF u(1-3) refl u(4), of ?resp s p] ok obtain resp' r where
    r: "read_replies rs None ?resp = Ret (resp', False)" "rs_Reply resp' = Some r"
    "st_Code (rs_Status resp') = SUCCESS" "qr_Alias r = qr_Alias r1"
    "\<forall>a \<in> set (qr_Alias r1). kind_payload (ra_ResultType a) r (ra_Alias a)
       = concat (map (\<lambda>q. kind_payload (ra_ResultType a) q (ra_Alias a)) (r1 # rs))" by auto
  have "NewUQLResponse records None = Ret (resp'\<lparr>rs_AliasList := map ra_Alias (qr_Alias r1)\<rparr>)"
    using Cons rc ok r(1,2,4) by (simp add: NewUQLResponse_def)
  then show ?thesis using r Cons by (simp add: IsSuccess_def)
qed

text \<open>
  Property C8. Reading the stream of a query whose replies are uniform and successful, and whose
  first statistics parse, gives a successful response that loses nothing: its aliases are those of the first reply, and under
  every alias the rows of all replies follow one another in the order they arrived.
\<close>

theorem response_keeps_all_rows:
  assumes "uniform records" "list_all succeeds records" "ParseStatistic (qr_Statistics (hd records)) = Ret s"
  shows "\<exists>resp r. NewUQLResponse records None = Ret resp \<and> IsSuccess (Some resp) \<and>
    rs_Reply resp = Some r \<and> rs_AliasList resp = map ra_Alias (qr_Alias (hd records)) \<and>
    (\<forall>a \<in> set (qr_Alias (hd records)). kind_payload (ra_ResultType a) r (ra_Alias a)
       = concat (map (\<lambda>q. kind_payload (ra_ResultType a) q (ra_Alias a)) records))"
  by (rule response_rows [OF assms])

lemma response_keeps_all_rows_witness:
  "\<exists>resp r. NewUQLResponse [sample_rows [[[1]]], sample_rows [[[2]]], sample_rows [[[3]]]] None = Ret resp \<and>
    rs_Reply resp = Some r \<and> kind_payload RT_TABLE r ''t'' = [RowTable [[1]], RowTable [[2]], RowTable [[3]]]"
  using response_keeps_all_rows
    [of "[sample_rows [[[1]]], sample_rows [[[2]]], sample_rows [[[3]]]]" empty_statistic]
  by (auto simp: sample_rows_def sample_reply_def uniform_def succeeds_def complete_for_def has_kind_def
      key_of_def kind_payload_def tables_kind.rows_under_def table_payload_def ParseStatistic_def)

section \<open>A status other than success\<close>

lemma read_replies_stops:
  assumes "qr_Status bad = Some (code, msg)" "code \<noteq> SUCCESS"
  shows "read_replies (pre @ bad # post) ending resp = read_replies (pre @ [bad]) None resp"
proof (induction pre arbitrary: resp)
  case Nil
  have "read_replies (bad # rs) e resp
      = go_bind (receive bad resp) (\<lambda>r. Ret (r, True))" for rs e
  proof (cases "receive bad resp")
    case (Ret r)
    then have "st_Code (rs_Status r) = code"
      using assms(1) by (auto simp: receive_def receive_status_def go_simps)
    then show ?thesis using Ret assms(2) by simp
  qed simp_all
  then show ?case unfolding append_Nil by metis
next
  case (Cons r pre)
  then show ?case by (cases "receive r resp") simp_all
qed

lemma read_replies_flag:
  "read_replies records ending resp = Ret (resp', True) \<Longrightarrow> st_Code (rs_Status resp') \<noteq> SUCCESS"
  by (induction records ending resp rule: read_replies.induct)
    (auto simp: go_simps split: option.splits if_splits)

lemma read_replies_unflagged:
  "read_replies records ending resp = Ret (resp', False) \<Longrightarrow> list_all succeeds records"
proof (induction records ending resp rule: read_replies.induct)
  case (1 ending resp)
  then show ?case by simp
next
  case (2 q records ending resp)
  then obtain r where r: "receive q resp = Ret r" "st_Code (rs_Status r) = SUCCESS"
    "read_replies records ending r = Ret (resp', False)" by (auto simp: go_simps split: if_splits)
  then have "succeeds q"
    by (auto simp: receive_def receive_status_def succeeds_def go_simps split: option.splits)
  then show ?case using 2 r by simp
qed

lemma receive_stats_status: "receive_stats record resp = Ret r \<Longrightarrow> rs_Status r = rs_Status resp"
  by (cases "rs_Statistic resp"; cases "rs_ExplainPlan resp"; cases "ParseStatistic (qr_Statistics record)";
      cases "ParseExplainPlan (qr_ExplainPlan record)") (auto simp: receive_stats_def)

lemma receive_Ret_status:
  assumes "receive record resp = Ret r"
  shows "rs_Status r = (case qr_Status record of None \<Rightarrow> rs_Status resp
    | Some (code, msg) \<Rightarrow> \<lparr>st_Message = msg, st_Code = code\<rparr>)"
proof -
  obtain u reply where "receive_stats record resp = Ret u"
    "r = receive_status record (u\<lparr>rs_Reply := Some reply\<rparr>)"
    using assms unfolding receive_def go_bind_Ret_iff by blast
  then show ?thesis using receive_stats_status
    by (cases "qr_Status record") (auto simp: receive_status_def)
qed

lemma read_replies_status:
  assumes "qr_Status bad = Some (code, msg)" "code \<noteq> SUCCESS"
    "list_all succeeds pre" "st_Code (rs_Status r) = SUCCESS"
    "read_replies (pre @ [bad]) None r = Ret (resp, stopped)"
  shows "rs_Status resp = \<lparr>st_Message = msg, st_Code = code\<rparr>"
  using assms(3-)
proof (induction pre arbitrary: r)
  case Nil
  then show ?case using assms(1,2) by (auto simp: go_simps split: if_splits dest: receive_Ret_status)
next
  case (Cons q pre)
  from Cons.prems(3) obtain r' where r': "receive q r = Ret r'"
    "(if st_Code (rs_Status r') \<noteq> SUCCESS then Ret (r', True) else read_replies (pre @ [bad]) None r')
       = Ret (resp, stopped)" by (auto simp: go_simps)
  have "st_Code (rs_Status r') = SUCCESS"
    using receive_Ret_status [OF r'(1)] Cons.prems(1,2) by (auto simp: succeeds_def split: option.splits)
  with r' Cons.IH [of r'] Cons.prems(1) show ?case by simp
qed

text \<open>
  Property C36. A reply with a status other than success ends the reading: whatever follows it in
  the stream, and however the stream ends, is never looked at. The response, when there is
  one, reports that it did not succeed, and when the replies before it were successful its status is
  exactly the code and the message of that reply.
\<close>

theorem failure_ends_reading:
  assumes "qr_Status bad = Some (code, msg)" "code \<noteq> SUCCESS"
  shows "NewUQLResponse (pre @ bad # post) ending = NewUQLResponse (pre @ [bad]) None \<and>
    (\<forall>resp. NewUQLResponse (pre @ bad # post) ending = Ret resp \<longrightarrow> \<not> IsSuccess (Some resp) \<and>
       (list_all succeeds pre \<longrightarrow> rs_Status resp = \<lparr>st_Message = msg, st_Code = code\<rparr>))"
proof -
  have e: "read_replies (pre @ bad # post) ending r = read_replies (pre @ [bad]) None r" for r
    by (rule read_replies_stops [OF assms])
  have "\<not> IsSuccess (Some resp) \<and> (list_all succeeds pre \<longrightarrow> rs_Status resp = \<lparr>st_Message = msg, st_Code = code\<rparr>)"
    if "NewUQLResponse (pre @ bad # post) ending = Ret resp" for resp
  proof -
    from that obtain resp' stopped where r:
      "read_replies (pre @ [bad]) None empty_response = Ret (resp', stopped)"
      "rs_Status resp = rs_Status resp'"
      by (auto simp: NewUQLResponse_def e go_simps split: if_splits)
    have "stopped"
      using read_replies_unflagged [of "pre @ [bad]" None empty_response resp'] r(1) assms
      by (cases stopped) (auto simp: succeeds_def)
    then have "\<not> IsSuccess (Some resp)" using read_replies_flag r by (simp add: IsSuccess_def)
    moreover have "st_Code (rs_Status empty_response) = SUCCESS" by (simp add: empty_response_def)
    ultimately show ?thesis using read_replies_status [OF assms _ _ r(1)] r(2) by simp
  qed
  then show ?thesis by (simp add: NewUQLResponse_def e)
qed

lemma failure_ends_reading_witness:
  "\<exists>resp. NewUQLResponse ([sample_rows []] @ (sample_rows [])\<lparr>qr_Status := Some (SYNTAX_ERROR, ''bad'')\<rparr> # [sample_rows []])
     (Some (Err ''broken'')) = Ret resp \<and> rs_Status resp = \<lparr>st_Message = ''bad'', st_Code = SYNTAX_ERROR\<rparr>"
proof -
  let ?bad = "(sample_rows [])\<lparr>qr_Status := Some (SYNTAX_ERROR, ''bad'')\<rparr>"
  have "is_ret (NewUQLResponse ([sample_rows []] @ ?bad # [sample_rows []]) (Some (Err ''broken'')))" by code_simp
  then obtain resp where resp: "NewUQLResponse ([sample_rows []] @ ?bad # [sample_rows []]) (Some (Err ''broken'')) = Ret resp"
    by (auto simp: is_ret_iff)
  have "list_all succeeds [sample_rows []]" by code_simp
  with failure_ends_reading [of ?bad SYNTAX_ERROR "''bad''" "[sample_rows []]" "[sample_rows []]" "Some (Err ''broken'')"] resp
  show ?thesis by simp
qed

section \<open>Streaming\<close>

text \<open>A callback that collects the rows under an alias.\<close>

definition collect :: "result_alias \<Rightarrow> response \<Rightarrow> row list \<Rightarrow> row list \<times> go_error option" where
  "collect a resp acc =
     (case rs_Reply resp of
        None \<Rightarrow> (acc, None)
      | Some q \<Rightarrow> (acc @ kind_payload (ra_ResultType a) q (ra_Alias a), None))"

lemma stream_response_Ret:
  assumes "succeeds q" "is_ret (ParseStatistic (qr_Statistics q))"
  obtains resp where "stream_response q = Ret resp" "rs_Reply resp = Some q"
    "st_Code (rs_Status resp) = SUCCESS"
proof -
  obtain s where s: "ParseStatistic (qr_Statistics q) = Ret s" using assms(2) by (auto simp: is_ret_iff)
  obtain p where p: "ParseExplainPlan (qr_ExplainPlan q) = Ret p"
    by (cases "qr_ExplainPlan q") (auto simp: ParseExplainPlan_def)
  show thesis
    using s p receive_status_ok [OF assms(1)]
    by (intro that [of "receive_status q (empty_response\<lparr>rs_Statistic := Some s,
          rs_ExplainPlan := Some p, rs_Reply := Some q\<rparr>)"])
      (simp_all add: stream_response_def receive_stats_def empty_response_def)
qed

lemma Recv_collect:
  assumes "list_all succeeds records" "list_all (\<lambda>q. is_ret (ParseStatistic (qr_Statistics q))) records"
  shows "Recv errorf (collect a) records None acc
    = (acc @ concat (map (\<lambda>q. kind_payload (ra_ResultType a) q (ra_Alias a)) records), Ret ())"
  using assms
proof (induction records arbitrary: acc)
  case Nil
  then show ?case by simp
next
  case (Cons q records)
  then obtain resp where "stream_response q = Ret resp" "rs_Reply resp = Some q"
    "st_Code (rs_Status resp) = SUCCESS" by (auto elim: stream_response_Ret)
  with Cons show ?case by (simp add: collect_def)
qed

text \<open>
  Property C20. Streaming and reading at once agree on a stream of uniform, successful replies: on a
  non-empty stream whose replies all succeed, all carry data of every kind the aliases of the first declare
  (which are distinct), all have statistics that parse, and which ends without an error, the
  callback of \<open>Recv\<close> sees, reply by reply, exactly the rows that the merged response holds under every alias of
  the first reply, in the same order, and both return without an error. On other streams they
  need not agree: a reply that lacks the list of a kind makes the merge return early
  (\<open>merge_early_return\<close>), while the callback still gets its rows.
\<close>

theorem streaming_agrees:
  assumes "uniform records" "list_all succeeds records"
    "list_all (\<lambda>q. is_ret (ParseStatistic (qr_Statistics q))) records"
    "a \<in> set (qr_Alias (hd records))"
  shows "\<exists>resp r. NewUQLResponse records None = Ret resp \<and> rs_Reply resp = Some r \<and>
    Recv errorf (collect a) records None []
      = (kind_payload (ra_ResultType a) r (ra_Alias a), Ret ())"
proof -
  have "records \<noteq> []" using assms(1) by (auto simp: uniform_def)
  then obtain s where "ParseStatistic (qr_Statistics (hd records)) = Ret s"
    using assms(3) by (cases records) (auto simp: is_ret_iff)
  from response_rows [OF assms(1,2) this] assms(4) show ?thesis
    unfolding Recv_collect [OF assms(2,3)] by fastforce
qed

lemma streaming_agrees_witness:
  "\<exists>resp r. NewUQLResponse [sample_rows [[[1]]], sample_rows [[[2]]]] None = Ret resp \<and> rs_Reply resp = Some r \<and>
    Recv Err (collect \<lparr>ra_Alias = ''t'', ra_ResultType = RT_TABLE\<rparr>) [sample_rows [[[1]]], sample_rows [[[2]]]] None []
      = (kind_payload RT_TABLE r ''t'', Ret ())"
  using streaming_agrees [of "[sample_rows [[[1]]], sample_rows [[[2]]]]"
      "\<lparr>ra_Alias = ''t'', ra_ResultType = RT_TABLE\<rparr>" Err]
  by (auto simp: sample_rows_def sample_reply_def uniform_def succeeds_def complete_for_def has_kind_def
      key_of_def ParseStatistic_def)

section \<open>What the readers find under an alias\<close>

text \<open>
  The item under an alias has the type of its payload, so a reader of that kind
  reads exactly the payload and never fails its type assertion, while a reader of another kind
  returns an error; but the readers of nodes and of edges also let attributes through and then
  panic on the assertion.
\<close>

theorem alias_reads:
  assumes "Alias r a = Ret di"
  shows "case di_Data di of
      DNil \<Rightarrow> AsNodes env di = Ret ([], Map.empty) \<and> AsEdges env di = Ret ([], Map.empty) \<and>
        AsPaths env di = Ret [] \<and> AsTable env di = Ret None
    | DNodes d \<Rightarrow> AsNodes env di = go_lift (\<lambda>(nodes, _, schemas). (nodes, schemas))
          (NodeTableToNodes env (na_NodeTable d) (na_Alias d)) \<and>
        no_panic (AsEdges env di) \<and> no_panic (AsPaths env di) \<and> no_panic (AsTable env di)
    | DEdges d \<Rightarrow> AsEdges env di = go_lift (\<lambda>(edges, _, schemas). (edges, schemas))
          (EdgeTableToEdges env (ea_EdgeTable d) (ea_Alias d)) \<and>
        no_panic (AsNodes env di) \<and> no_panic (AsPaths env di) \<and> no_panic (AsTable env di)
    | DPaths d \<Rightarrow> AsPaths env di = parsePaths env (pl_Paths d) \<and>
        no_panic (AsNodes env di) \<and> no_panic (AsEdges env di) \<and> no_panic (AsTable env di)
    | DTable d \<Rightarrow> no_panic (AsNodes env di) \<and> no_panic (AsEdges env di) \<and>
        no_panic (AsPaths env di)
    | DAttr d \<Rightarrow> AsNodes env di = Panic TypeAssertion \<and> AsEdges env di = Panic TypeAssertion \<and>
        no_panic (AsPaths env di) \<and> no_panic (AsTable env di)"
proof -
  from assms have "data_typed (di_Data di) (di_Type di)"
    by (auto simp: Alias_def go_simps dest: lookup_typed)
  then show ?thesis
    by (cases "di_Data di")
      (simp_all add: AsNodes_def AsEdges_def AsPaths_def AsTable_def)
qed

definition sample_response :: response where
  "sample_response = empty_response\<lparr>rs_Reply := Some (sample_rows [])\<rparr>"

lemma alias_reads_witness:
  "AsNodes toy_env \<lparr>di_Alias = [], di_Type = RT_NODE,
      di_Data = DNodes \<lparr>na_Alias = ''n'', na_NodeTable = Some sample_entities\<rparr>\<rparr>
    = go_lift (\<lambda>(nodes, _, schemas). (nodes, schemas))
        (NodeTableToNodes toy_env (Some sample_entities) ''n'')"
proof -
  have "Alias sample_response ''n'' = Ret \<lparr>di_Alias = [], di_Type = RT_NODE,
      di_Data = DNodes \<lparr>na_Alias = ''n'', na_NodeTable = Some sample_entities\<rparr>\<rparr>"
    by (simp add: Alias_def sample_response_def sample_rows_def sample_reply_def
        FindAliasDataInReply_def CheckAliasExist_def find_named_def Find_def)
  from alias_reads [OF this, of toy_env] show ?thesis by simp
qed

section \<open>The ignored rows of an insertion\<close>

lemma error_items_eq:
  "length ixs \<le> length codes \<Longrightarrow>
    error_items ixs codes m = Ret (\<lambda>i. case map_of (rev (zip (map uint ixs) codes)) i of
      None \<Rightarrow> m i | Some c \<Rightarrow> Some (error_name c))"
proof (induction ixs codes m rule: error_items.induct)
  case (3 i ixs c codes m)
  have "error_items (i # ixs) (c # codes) m = error_items ixs codes (m(uint i \<mapsto> error_name c))"
    by (rule error_items.simps(3))
  also have "\<dots> = Ret (\<lambda>j. case map_of (rev (zip (map uint ixs) codes)) j of
        None \<Rightarrow> (m(uint i \<mapsto> error_name c)) j | Some c \<Rightarrow> Some (error_name c))"
    by (rule 3(1)) (use 3(2) in simp)
  also have "\<dots> = Ret (\<lambda>j. case map_of (rev (zip (map uint (i # ixs)) (c # codes))) j of
        None \<Rightarrow> m j | Some c \<Rightarrow> Some (error_name c))"
    by (auto simp: fun_eq_iff map_add_def split: option.split)
  finally show ?case .
qed simp_all

lemma error_items_short:
  "length codes < length ixs \<Longrightarrow> error_items ixs codes m = Panic IndexOutOfRange"
  by (induction ixs codes m rule: error_items.induct) auto

text \<open>
  The response to an insertion names, for every row the server ignored, the last
  error it gave for that row, and no other row; nodes and edges differ only in the ids. When
  the server sends fewer codes than rows, the response for nodes has no error items, while
  building the one for edges panics.
\<close>

theorem insert_ignored_rows:
  assumes "ir_Status reply = Some status"
  shows "if length (ir_IgnoreIndexes reply) = length (ir_IgnoreErrorCode reply)
    then \<exists>resp. NewEdgesInsertResponse reply = Ret resp \<and>
      NewNodesInsertResponse reply = Ret (resp\<lparr>is_IDs := ir_Ids reply\<rparr>) \<and>
      is_ErrorItems resp = (\<lambda>i. map_option error_name
        (map_of (rev (zip (map uint (ir_IgnoreIndexes reply)) (ir_IgnoreErrorCode reply))) i))
    else (\<exists>resp. NewNodesInsertResponse reply = Ret resp \<and> is_ErrorItems resp = Map.empty) \<and>
      (length (ir_IgnoreErrorCode reply) < length (ir_IgnoreIndexes reply)
        \<longrightarrow> NewEdgesInsertResponse reply = Panic IndexOutOfRange)"
proof -
  obtain code msg where st: "ir_Status reply = Some (code, msg)" using assms by (cases status) auto
  have m: "(\<lambda>i. case f i of None \<Rightarrow> None | Some c \<Rightarrow> Some (error_name c)) = (\<lambda>i. map_option error_name (f i))"
    for f :: "int \<rightharpoonup> 32 word"
    by (auto simp: fun_eq_iff split: option.split)
  show ?thesis
    using st by (simp add: NewEdgesInsertResponse_def NewNodesInsertResponse_def insert_header_def
        error_items_eq error_items_short m)
qed

definition sample_insert_reply :: "32 word list \<Rightarrow> 32 word list \<Rightarrow> insert_reply" where
  "sample_insert_reply ixs codes = \<lparr>ir_Status = Some (SUCCESS, []), ir_TimeCost = 1,
     ir_EngineTimeCost = 1, ir_Uuids = [], ir_Ids = [''a'', ''b''], ir_IgnoreIndexes = ixs,
     ir_IgnoreErrorCode = codes\<rparr>"

lemma insert_ignored_rows_witness:
  "\<exists>resp. NewEdgesInsertResponse (sample_insert_reply [0, 1] [10007, 10011]) = Ret resp \<and>
    is_ErrorItems resp 1 = Some ''DUPLICATE_ID'' \<and> is_ErrorItems resp 2 = None"
  using insert_ignored_rows [of "sample_insert_reply [0, 1] [10007, 10011]" "(SUCCESS, [])"]
  by (auto simp: sample_insert_reply_def error_name_def InsertErrorCodeMsgMap2_def)

text \<open>The table of names and the table of codes are inverse to each other.\<close>

lemma error_code_tables:
  "\<forall>(code, name) \<in> set InsertErrorCodeMsgMap2. map_of InsertErrorCodeMsgMap3 name = Some code"
  by (simp add: InsertErrorCodeMsgMap2_def InsertErrorCodeMsgMap3_def)

end
