(* ===== verification/Api.thy ===== *)
theory Api
  imports Pool Responses
begin

text \<open>
  \<open>sdk/api/api.go\<close> and \<open>gql.go\<close>: choosing a connection, building a request, sending it, and reading
  the reply. The server is an argument that answers a call from the list of all calls made so
  far, this one last, so it may keep any state; the calls made are part of the state of the
  model. A connection is named by its host.
\<close>

section \<open>Calls and the server\<close>

datatype query_type = UQL | GQL

record query_request =
  qq_GraphName :: gostring
  qq_Timeout :: "32 word"
  qq_QueryType :: query_type
  qq_QueryText :: gostring
  qq_ThreadNum :: "32 word"
  qq_TzOffset :: gostring
  qq_Tz :: gostring

record insert_request =
  nq_GraphName :: gostring
  nq_Schemas :: "proto_schema list"
  nq_Rows :: "entity_row option list"
  nq_InsertType :: insert_type
  nq_Silent :: bool

text \<open>The requests of the control service; an installation is a stream of messages.\<close>

record install_request =
  in_FileName :: gostring
  in_Md5 :: gostring
  in_Chunk :: bytes
  in_WithServer :: "gostring option"

record export_request =
  xq_DbType :: db_type
  xq_Limit :: "32 word"
  xq_SelectProperties :: "gostring list"
  xq_Schema :: gostring
  xq_Graph :: gostring

datatype setting_opt = OPT_GET | OPT_SET

datatype control_request =
    AuthenticateRequest "32 word" gostring
  | UserSettingRequest gostring setting_opt gostring gostring
  | UninstallAlgoRequest gostring gostring
  | RollbackAlgoRequest gostring gostring
  | InstallOpen
  | InstallSend install_request
  | InstallClose
  | ExportRequest export_request int64

datatype call =
    QueryCall gostring go_context query_request
  | InsertNodesCall gostring go_context insert_request
  | InsertEdgesCall gostring go_context insert_request
  | HelloCall gostring go_context
  | DownloadCall gostring go_context gostring
  | ControlCall gostring go_context control_request

type_synonym stream = "query_reply list \<times> go_error option"

record download_reply =
  dr_Status :: "(error_code \<times> gostring) option"
  dr_Chunk :: bytes

record control_reply =
  cr_Status :: "(error_code \<times> gostring) option"
  cr_Data :: gostring

record export_reply =
  xr_NodeTable :: "entity_table option"
  xr_EdgeTable :: "entity_table option"

record server =
  sv_network :: network
  sv_copier :: "ultipa_config \<Rightarrow> ultipa_config \<Rightarrow> ultipa_config"
  sv_zone :: int
  sv_errorf :: "gostring \<Rightarrow> go_error"
  sv_query :: "call list \<Rightarrow> go_error + stream"
  sv_insert :: "call list \<Rightarrow> go_error + insert_reply"
  sv_hello :: "call list \<Rightarrow> hello"
  sv_download :: "call list \<Rightarrow> go_error + (download_reply list \<times> go_error option)"
  sv_control :: "call list \<Rightarrow> go_error + control_reply"
  sv_export :: "call list \<Rightarrow> go_error + (export_reply list \<times> go_error option)"

record world =
  wd_Pool :: pool
  wd_Calls :: "call list"

section \<open>Actions on the world\<close>

type_synonym 'a action = "world \<Rightarrow> world \<times> 'a go"

definition act_lift :: "'a go \<Rightarrow> 'a action" where
  "act_lift r = (\<lambda>w. (w, r))"

definition act_bind :: "'a action \<Rightarrow> ('a \<Rightarrow> 'b action) \<Rightarrow> 'b action" where
  "act_bind m f = (\<lambda>w. case m w of
      (w', Ret x) \<Rightarrow> f x w'
    | (w', Fail e) \<Rightarrow> (w', Fail e)
    | (w', Panic p) \<Rightarrow> (w', Panic p))"

definition act_try :: "'a action \<Rightarrow> (go_error \<Rightarrow> 'b action) \<Rightarrow> ('a \<Rightarrow> 'b action) \<Rightarrow> 'b action" where
  "act_try m handler f = (\<lambda>w. case m w of
      (w', Ret x) \<Rightarrow> f x w'
    | (w', Fail e) \<Rightarrow> handler e w'
    | (w', Panic p) \<Rightarrow> (w', Panic p))"

definition receive_sum :: "(call list \<Rightarrow> go_error + 'a) \<Rightarrow> call \<Rightarrow> 'a action" where
  "receive_sum answer c = (\<lambda>w.
     let calls = wd_Calls w @ [c]
     in (w\<lparr>wd_Calls := calls\<rparr>, case answer calls of Inl e \<Rightarrow> Fail e | Inr x \<Rightarrow> Ret x))"

section \<open>Connections and clients\<close>

text \<open>Without a request configuration no connection is chosen: the connection is nil.\<close>

definition api_GetConn ::
  "server \<Rightarrow> request_config option \<Rightarrow> (gostring option \<times> ultipa_config) action" where
  "api_GetConn srv config = (\<lambda>w.
     case config of
       None \<Rightarrow> (w, Ret (None, cp_Config (wd_Pool w)))
     | Some c \<Rightarrow>
         let conf = MergeRequestConfig (sv_copier srv) (cp_Config (wd_Pool w)) c
         in if rc_Host c \<noteq> []
            then let r = NewConnection (sv_network srv) (rc_Host c) conf
                 in (w, go_lift (\<lambda>conn. (Some (cn_Host conn), fst r)) (snd r))
            else let r = GetRandomConn (wd_Pool w)
                 in (w\<lparr>wd_Pool := fst r\<rparr>, go_lift (\<lambda>h. (Some h, conf)) (snd r)))"

definition GetClient ::
  "server \<Rightarrow> request_config option \<Rightarrow> (gostring \<times> ultipa_config) action" where
  "GetClient srv config =
     act_bind (api_GetConn srv config) (\<lambda>(conn, conf).
       act_lift (go_lift (\<lambda>h. (h, conf)) (deref conn)))"

definition the_config :: "request_config option \<Rightarrow> request_config" where
  "the_config config = (case config of None \<Rightarrow> empty_request_config | Some c \<Rightarrow> c)"

definition GetControlClientAndConfig ::
  "server \<Rightarrow> request_config option \<Rightarrow> (gostring \<times> ultipa_config) action" where
  "GetControlClientAndConfig srv config =
     GetClient srv (Some (the_config config))"

definition GetControlClient :: "server \<Rightarrow> request_config option \<Rightarrow> gostring action" where
  "GetControlClient srv config =
     act_bind (GetControlClientAndConfig srv config) (\<lambda>(client, conf). act_lift (Ret client))"

definition api_NewContext ::
  "'a env_scheme \<Rightarrow> server \<Rightarrow> request_config option \<Rightarrow> go_context action" where
  "api_NewContext env srv config = (\<lambda>w.
     (w, NewContext env (sv_zone srv) (cp_Config (wd_Pool w)) config))"

text \<open>The beginning of every operation of the control service.\<close>

definition client_and_context ::
  "'a env_scheme \<Rightarrow> server \<Rightarrow> request_config option \<Rightarrow> (gostring \<times> go_context) action" where
  "client_and_context env srv config =
     act_bind (GetControlClient srv config) (\<lambda>client.
     act_bind (api_NewContext env srv config) (\<lambda>ctx. act_lift (Ret (client, ctx))))"

section \<open>Queries\<close>

definition graph_of :: "request_config \<Rightarrow> ultipa_config \<Rightarrow> gostring" where
  "graph_of config conf = (if rc_Graph config \<noteq> [] then rc_Graph config else uc_DefaultGraph conf)"

definition buildQueryRequest ::
  "server \<Rightarrow> gostring \<Rightarrow> query_type \<Rightarrow> request_config \<Rightarrow> ultipa_config \<Rightarrow> query_request" where
  "buildQueryRequest srv query queryType config conf =
     (let req = \<lparr>qq_GraphName = graph_of config conf, qq_Timeout = uc_Timeout conf,
            qq_QueryType = queryType, qq_QueryText = query, qq_ThreadNum = rc_Thread config,
            qq_TzOffset = [], qq_Tz = []\<rparr>
      in if rc_TimezoneOffset config = 0 \<and> rc_Timezone config = []
         then req\<lparr>qq_TzOffset := itoa (sv_zone srv)\<rparr>
         else if rc_TimezoneOffset config \<noteq> 0
         then req\<lparr>qq_TzOffset := itoa (sint (rc_TimezoneOffset config))\<rparr>
         else req\<lparr>qq_Tz := rc_Timezone config\<rparr>)"

text \<open>
  A call that is refused is made once more. When the context cannot be built its cancel
  function is nil, and the deferred call of it panics.
\<close>

definition query_twice :: "server \<Rightarrow> call \<Rightarrow> stream action" where
  "query_twice srv c = (\<lambda>w.
     case receive_sum (sv_query srv) c w of
       (w', Fail e) \<Rightarrow> receive_sum (sv_query srv) c w'
     | r \<Rightarrow> r)"

definition doExecuteQuery ::
  "'a env_scheme \<Rightarrow> server \<Rightarrow> gostring \<Rightarrow> query_type \<Rightarrow> request_config option
   \<Rightarrow> (stream \<times> ultipa_config) action" where
  "doExecuteQuery env srv query queryType config =
     (let config = the_config config in
      act_bind (GetClient srv (Some config)) (\<lambda>(client, conf) w.
        case snd (api_NewContext env srv (Some config) w) of
          Fail e \<Rightarrow> (w, Panic NilDeref)
        | Panic p \<Rightarrow> (w, Panic p)
        | Ret ctx \<Rightarrow>
            act_bind (query_twice srv
                (QueryCall client ctx (buildQueryRequest srv query queryType config conf)))
              (\<lambda>resp. act_lift (Ret (resp, conf))) w))"

definition api_query ::
  "'a env_scheme \<Rightarrow> server \<Rightarrow> gostring \<Rightarrow> query_type \<Rightarrow> request_config option \<Rightarrow> response action"
  where
  "api_query env srv query queryType config =
     act_bind (doExecuteQuery env srv query queryType config) (\<lambda>((records, ending), conf).
       act_lift (NewUQLResponse records ending))"

definition Uql :: "'a env_scheme \<Rightarrow> server \<Rightarrow> gostring \<Rightarrow> request_config option \<Rightarrow> response action"
  where
  "Uql env srv query config = api_query env srv query UQL config"

definition Gql :: "'a env_scheme \<Rightarrow> server \<Rightarrow> gostring \<Rightarrow> request_config option \<Rightarrow> response action"
  where
  "Gql env srv query config = api_query env srv query GQL config"

text \<open>The callback of a stream has a state of its own.\<close>

definition queryStream ::
  "'a env_scheme \<Rightarrow> server \<Rightarrow> gostring \<Rightarrow> query_type \<Rightarrow> (response \<Rightarrow> 's \<Rightarrow> 's \<times> go_error option)
   \<Rightarrow> request_config option \<Rightarrow> 's \<Rightarrow> world \<Rightarrow> world \<times> 's \<times> unit go" where
  "queryStream env srv query queryType cb config s w =
     (case doExecuteQuery env srv query queryType config w of
        (w', Fail e) \<Rightarrow> (w', s, Fail e)
      | (w', Panic p) \<Rightarrow> (w', s, Panic p)
      | (w', Ret ((records, ending), conf)) \<Rightarrow>
          if (case config of None \<Rightarrow> False | Some c \<Rightarrow> rc_Host c \<noteq> [])
          then (w', s, Ret ())
          else (w', Recv (sv_errorf srv) cb records ending s))"

definition UqlStream where
  "UqlStream env srv query cb config = queryStream env srv query UQL cb config"

definition GqlStream where
  "GqlStream env srv query cb config = queryStream env srv query GQL cb config"

section \<open>The connection test and closing\<close>

definition error_text :: "go_error \<Rightarrow> gostring" where
  "error_text e = (case e of Err m \<Rightarrow> m | ErrSyntax m \<Rightarrow> m | ErrRange m \<Rightarrow> m | ErrLibrary m \<Rightarrow> m)"

definition Test :: "'a env_scheme \<Rightarrow> server \<Rightarrow> request_config option \<Rightarrow> bool action" where
  "Test env srv config =
     act_bind (\<lambda>w. let r = GetConn (wd_Pool w) in (w\<lparr>wd_Pool := fst r\<rparr>, snd r)) (\<lambda>client.
     act_bind (api_NewContext env srv config) (\<lambda>ctx w.
       let calls = wd_Calls w @ [HelloCall client ctx]
       in (w\<lparr>wd_Calls := calls\<rparr>,
           case sv_hello srv calls of
             HelloError e \<Rightarrow> Fail (Err (''tset error '' @ error_text e))
           | HelloNoStatus \<Rightarrow> Panic NilDeref
           | HelloStatus code msg \<Rightarrow>
               if code \<noteq> SUCCESS then Fail (Err (''tset error '' @ msg)) else Ret True)))"

definition api_Close :: "server \<Rightarrow> (gostring \<times> connection option) list \<Rightarrow> unit go" where
  "api_Close srv conns = ClosePool (sv_network srv) conns"

definition SafelyClose :: "server \<Rightarrow> (gostring \<times> connection option) list option \<Rightarrow> unit go" where
  "SafelyClose srv conns = (case conns of None \<Rightarrow> Ret () | Some cs \<Rightarrow> api_Close srv cs)"

section \<open>Facts\<close>

lemma act_simps [simp]:
  "fst (act_lift r w) = w" "snd (act_lift r w) = r"
  "fst (api_NewContext env srv config w) = w"
  by (simp_all add: act_lift_def api_NewContext_def)

lemma act_bind_lift [simp]:
  "act_bind (act_lift (Ret x)) f = f x" "act_bind (act_lift (Fail e)) f = act_lift (Fail e)"
  "act_bind (act_lift (Panic p)) f = act_lift (Panic p)"
  by (simp_all add: act_bind_def act_lift_def)

lemma act_bind_Ret: "m w = (w', Ret x) \<Longrightarrow> act_bind m f w = f x w'"
  by (simp add: act_bind_def)

lemma act_bind_not_Ret:
  "m w = (w', Fail e) \<Longrightarrow> act_bind m f w = (w', Fail e)"
  "m w = (w', Panic p) \<Longrightarrow> act_bind m f w = (w', Panic p)"
  by (simp_all add: act_bind_def)

lemma act_bind_Ret_iff:
  "act_bind m f w = (w', Ret y) \<longleftrightarrow> (\<exists>u x. m w = (u, Ret x) \<and> f x u = (w', Ret y))"
  by (auto simp: act_bind_def split: prod.split go.split)

lemma receive_sum_Ret:
  "receive_sum answer c w = (w', Ret x) \<longleftrightarrow>
     w' = w\<lparr>wd_Calls := wd_Calls w @ [c]\<rparr> \<and> answer (wd_Calls w @ [c]) = Inr x"
  by (auto simp: receive_sum_def Let_def split: sum.split)

lemma act_lift_Ret: "act_lift r w = (w', Ret x) \<longleftrightarrow> w' = w \<and> r = Ret x"
  by (auto simp: act_lift_def)

lemmas act_iffs = act_bind_Ret_iff receive_sum_Ret act_lift_Ret

lemma fst_act_bind:
  "fst (act_bind m f w) = (case snd (m w) of Ret x \<Rightarrow> fst (f x (fst (m w))) | _ \<Rightarrow> fst (m w))"
  by (simp add: act_bind_def split: prod.split go.split)

lemma snd_act_bind:
  "snd (act_bind m f w) = (case snd (m w) of
      Ret x \<Rightarrow> snd (f x (fst (m w))) | Fail e \<Rightarrow> Fail e | Panic p \<Rightarrow> Panic p)"
  by (simp add: act_bind_def split: prod.split go.split)

text \<open>
  An action never does more to the world than a given reflexive and transitive relation allows:
  the relation is shown for the actions that are not composed, and composition keeps it.
\<close>

definition allows :: "(world \<Rightarrow> world \<Rightarrow> bool) \<Rightarrow> 'a action \<Rightarrow> bool" where
  "allows R m \<longleftrightarrow> (\<forall>w. R w (fst (m w)))"

locale frame =
  fixes R :: "world \<Rightarrow> world \<Rightarrow> bool"
  assumes refl: "R w w"
    and trans: "R u v \<Longrightarrow> R v w \<Longrightarrow> R u w"
begin

lemma lift: "allows R (act_lift r)"
  by (simp add: allows_def refl)

lemma bind: "allows R m \<Longrightarrow> (\<And>x. allows R (f x)) \<Longrightarrow> allows R (act_bind m f)"
  by (auto simp: allows_def fst_act_bind split: go.split intro: trans)

lemma handle:
  assumes "allows R m" "\<And>e. allows R (h e)" "\<And>x. allows R (f x)"
  shows "allows R (act_try m h f)"
  unfolding allows_def
proof
  fix w
  have m: "R w (fst (m w))" using assms(1) by (simp add: allows_def)
  obtain w' r where r: "m w = (w', r)" by (cases "m w")
  have "R w' (fst (h e w'))" "R w' (fst (f x w'))" for e x using assms(2,3) by (simp_all add: allows_def)
  then show "R w (fst (act_try m h f w))"
    using m r by (cases r) (auto simp: act_try_def intro: trans)
qed

end

text \<open>
  The pool changes in its counter only, and the calls made are appended, all of one kind.
\<close>

definition extends :: "(call \<Rightarrow> bool) \<Rightarrow> world \<Rightarrow> world \<Rightarrow> bool" where
  "extends P w w' \<longleftrightarrow>
     (\<exists>t. wd_Pool w' = (wd_Pool w)\<lparr>cp_RandomTick := t\<rparr>)
     \<and> (\<exists>cs. wd_Calls w' = wd_Calls w @ cs \<and> list_all P cs)"

lemma extends_refl: "extends P w w"
  unfolding extends_def by (intro conjI exI [of _ "cp_RandomTick (wd_Pool w)"] exI [of _ "[]"]) simp_all

lemma extends_trans: "extends P u v \<Longrightarrow> extends P v w \<Longrightarrow> extends P u w"
  unfolding extends_def by (auto simp del: append_assoc simp: append_assoc [symmetric])
    (metis append_assoc list_all_append)

interpretation ext: frame "extends P" for P
  by unfold_locales (auto intro: extends_refl extends_trans)

lemma GetRandomConn_pool:
  "\<exists>t. fst (GetRandomConn pool) = pool\<lparr>cp_RandomTick := t\<rparr>"
proof (cases "length (cp_Actives pool) < 1")
  case True
  then show ?thesis
    by (intro exI [of _ "cp_RandomTick pool"]) (simp add: GetRandomConn_def)
next
  case False
  then show ?thesis by (auto simp: GetRandomConn_def Let_def)
qed

lemma GetRandomConn_active:
  "snd (GetRandomConn pool) = Ret h \<Longrightarrow> Some h \<in> set (cp_Actives pool)"
  by (auto simp: GetRandomConn_def Let_def go_simps go_nth_def in_set_conv_nth
      split: if_splits option.splits)

text \<open>The host a request may reach: the forced one, or any active one.\<close>

definition may_reach :: "request_config option \<Rightarrow> pool \<Rightarrow> gostring \<Rightarrow> bool" where
  "may_reach config pool h \<longleftrightarrow>
     (case config of
        Some c \<Rightarrow> if rc_Host c \<noteq> [] then h = rc_Host c else Some h \<in> set (cp_Actives pool)
      | None \<Rightarrow> Some h \<in> set (cp_Actives pool))"

lemma may_reach_tick [simp]: "may_reach config (pool\<lparr>cp_RandomTick := t\<rparr>) = may_reach config pool"
  by (auto simp: fun_eq_iff may_reach_def split: option.splits)

lemma NewConnection_host: "snd (NewConnection nw host conf) = Ret conn \<Longrightarrow> cn_Host conn = host"
  by (auto simp: NewConnection_def Let_def split: if_splits option.splits)

lemma GetClient_Some:
  "\<exists>t. fst (GetClient srv (Some c) w) = w\<lparr>wd_Pool := (wd_Pool w)\<lparr>cp_RandomTick := t\<rparr>\<rparr>"
proof (cases "rc_Host c = []")
  case True
  have "fst (GetClient srv (Some c) w) = w\<lparr>wd_Pool := fst (GetRandomConn (wd_Pool w))\<rparr>"
    by (simp add: GetClient_def fst_act_bind api_GetConn_def True Let_def split: go.split)
  then show ?thesis using GetRandomConn_pool [of "wd_Pool w"] by auto
next
  case False
  then have "fst (GetClient srv (Some c) w) = w"
    by (simp add: GetClient_def fst_act_bind api_GetConn_def Let_def split: go.split)
  then show ?thesis by (intro exI [of _ "cp_RandomTick (wd_Pool w)"]) simp
qed

lemma GetClient_host:
  "snd (GetClient srv (Some c) w) = Ret (h, conf) \<Longrightarrow> may_reach (Some c) (wd_Pool w) h"
  by (auto simp: GetClient_def act_bind_def api_GetConn_def Let_def may_reach_def deref_def go_simps
      dest: NewConnection_host GetRandomConn_active split: go.splits prod.splits if_splits)

lemma client_and_context_world:
  "\<exists>t. fst (client_and_context env srv config w) = w\<lparr>wd_Pool := (wd_Pool w)\<lparr>cp_RandomTick := t\<rparr>\<rparr>"
  using GetClient_Some [of srv "the_config config" w]
  by (auto simp: client_and_context_def GetControlClient_def GetControlClientAndConfig_def fst_act_bind
      split: go.split prod.split)

lemma query_twice_calls:
  "\<exists>n. fst (query_twice srv c w) = w\<lparr>wd_Calls := wd_Calls w @ replicate n c\<rparr> \<and> 0 < n \<and> n \<le> 2"
proof (cases "sv_query srv (wd_Calls w @ [c])")
  case (Inl e)
  then have "fst (query_twice srv c w) = w\<lparr>wd_Calls := wd_Calls w @ replicate 2 c\<rparr>"
    by (simp add: query_twice_def receive_sum_def numeral_2_eq_2 Let_def)
  then show ?thesis by (intro exI [of _ 2]) simp
next
  case (Inr x)
  then have "fst (query_twice srv c w) = w\<lparr>wd_Calls := wd_Calls w @ replicate 1 c\<rparr>"
    by (simp add: query_twice_def receive_sum_def Let_def)
  then show ?thesis by (intro exI [of _ 1]) simp
qed

lemma query_twice_result:
  "snd (query_twice srv c w) =
     (case sv_query srv (wd_Calls w @ [c]) of
        Inr x \<Rightarrow> Ret x
      | Inl e \<Rightarrow> (case sv_query srv (wd_Calls w @ [c, c]) of Inl e \<Rightarrow> Fail e | Inr x \<Rightarrow> Ret x))"
  by (simp add: query_twice_def receive_sum_def Let_def split: sum.split)

lemma may_reach_the_config [simp]: "may_reach (Some (the_config config)) = may_reach config"
  by (auto simp: fun_eq_iff may_reach_def the_config_def empty_request_config_def split: option.split)

text \<open>What a query does to the world, whatever comes of it.\<close>

lemma doExecuteQuery_calls:
  "\<exists>t n h ctx req. fst (doExecuteQuery env srv q qt config w) =
      \<lparr>wd_Pool = (wd_Pool w)\<lparr>cp_RandomTick := t\<rparr>,
       wd_Calls = wd_Calls w @ replicate n (QueryCall h ctx req)\<rparr>
     \<and> n \<le> 2 \<and> (is_ret (snd (doExecuteQuery env srv q qt config w)) \<longrightarrow> 0 < n)
     \<and> (0 < n \<longrightarrow> may_reach config (wd_Pool w) h \<and> qq_QueryText req = q \<and> qq_QueryType req = qt)"
proof -
  let ?c = "the_config config"
  obtain t where t: "fst (GetClient srv (Some ?c) w) = w\<lparr>wd_Pool := (wd_Pool w)\<lparr>cp_RandomTick := t\<rparr>\<rparr>"
    using GetClient_Some by blast
  let ?w = "w\<lparr>wd_Pool := (wd_Pool w)\<lparr>cp_RandomTick := t\<rparr>\<rparr>"
  have quiet: ?thesis if "fst (doExecuteQuery env srv q qt config w) = ?w"
    "\<not> is_ret (snd (doExecuteQuery env srv q qt config w))"
    using that by (intro exI [of _ t] exI [of _ 0]) simp
  show ?thesis
  proof (cases "snd (GetClient srv (Some ?c) w)")
    case (Ret hc)
    obtain h conf where hc: "hc = (h, conf)" by (cases hc)
    have g: "GetClient srv (Some ?c) w = (?w, Ret (h, conf))" using t Ret hc by (metis prod.collapse)
    show ?thesis
    proof (cases "NewContext env (sv_zone srv) (cp_Config (wd_Pool w)) (Some ?c)")
      case (Ret ctx)
      define req where "req = buildQueryRequest srv q qt ?c conf"
      have e: "doExecuteQuery env srv q qt config w =
          act_bind (query_twice srv (QueryCall h ctx req)) (\<lambda>resp. act_lift (Ret (resp, conf))) ?w"
        using g Ret by (simp add: doExecuteQuery_def act_bind_Ret api_NewContext_def req_def Let_def)
      obtain n where n: "fst (query_twice srv (QueryCall h ctx req) ?w)
            = ?w\<lparr>wd_Calls := wd_Calls ?w @ replicate n (QueryCall h ctx req)\<rparr>" "0 < n" "n \<le> 2"
        using query_twice_calls by blast
      have "qq_QueryText req = q" "qq_QueryType req = qt"
        by (simp_all add: req_def buildQueryRequest_def Let_def)
      moreover have "may_reach config (wd_Pool w) h" using GetClient_host [of srv ?c w h conf] g by simp
      moreover have "fst (doExecuteQuery env srv q qt config w)
          = fst (query_twice srv (QueryCall h ctx req) ?w)"
        by (simp add: e fst_act_bind split: go.split)
      ultimately show ?thesis using n
        by (intro exI [of _ t] exI [of _ n] exI [of _ h] exI [of _ ctx] exI [of _ req]) simp
    qed (rule quiet; use g in \<open>simp add: doExecuteQuery_def act_bind_Ret api_NewContext_def Let_def\<close>)+
  qed (rule quiet; use t in \<open>auto simp: doExecuteQuery_def act_bind_def Let_def split: prod.splits go.splits\<close>)+
qed

lemma api_query_calls:
  "\<exists>t n h ctx req. fst (api_query env srv q qt config w) =
      \<lparr>wd_Pool = (wd_Pool w)\<lparr>cp_RandomTick := t\<rparr>,
       wd_Calls = wd_Calls w @ replicate n (QueryCall h ctx req)\<rparr>
     \<and> n \<le> 2 \<and> (is_ret (snd (api_query env srv q qt config w)) \<longrightarrow> 0 < n)
     \<and> (0 < n \<longrightarrow> may_reach config (wd_Pool w) h \<and> qq_QueryText req = q \<and> qq_QueryType req = qt)"
proof -
  have w: "fst (api_query env srv q qt config w) = fst (doExecuteQuery env srv q qt config w)"
    by (simp add: api_query_def fst_act_bind split: go.split prod.split)
  have r: "is_ret (snd (api_query env srv q qt config w)) \<Longrightarrow>
      is_ret (snd (doExecuteQuery env srv q qt config w))"
    by (auto simp: api_query_def act_bind_def split: prod.splits go.splits)
  show ?thesis unfolding w using doExecuteQuery_calls [of env srv q qt config w] r by blast
qed

text \<open>
  Whatever comes of a query, all it does to the state of the driver is to advance the
  counter of the pool, and it makes at most two calls, the same call twice: its own text, to the
  host the request forces or else to an active one; when it returns a response it made a call.
\<close>

theorem query_calls:
  "\<exists>t n h ctx req. fst (api_query env srv q qt config w) =
      \<lparr>wd_Pool = (wd_Pool w)\<lparr>cp_RandomTick := t\<rparr>,
       wd_Calls = wd_Calls w @ replicate n (QueryCall h ctx req)\<rparr>
     \<and> n \<le> 2 \<and> (is_ret (snd (api_query env srv q qt config w)) \<longrightarrow> 0 < n)
     \<and> (0 < n \<longrightarrow> may_reach config (wd_Pool w) h \<and> qq_QueryText req = q \<and> qq_QueryType req = qt)"
  by (rule api_query_calls)

lemmas Uql_calls = api_query_calls [where qt = UQL, folded Uql_def]

lemma doExecuteQuery_reaches:
  assumes "GetClient srv (Some (the_config config)) w = (w', Ret (h, conf))"
    "NewContext env (sv_zone srv) (cp_Config (wd_Pool w')) (Some (the_config config)) = Ret ctx"
  shows "doExecuteQuery env srv q qt config w =
    act_bind (query_twice srv (QueryCall h ctx (buildQueryRequest srv q qt (the_config config) conf)))
      (\<lambda>resp. act_lift (Ret (resp, conf))) w'"
  using assms by (simp add: doExecuteQuery_def act_bind_Ret api_NewContext_def Let_def)

lemma GetClient_free:
  assumes "rc_Host c = []" "snd (GetRandomConn (wd_Pool w)) = Ret h"
  shows "GetClient srv (Some c) w = (w\<lparr>wd_Pool := fst (GetRandomConn (wd_Pool w))\<rparr>,
     Ret (h, MergeRequestConfig (sv_copier srv) (cp_Config (wd_Pool w)) c))"
  using assms by (simp add: GetClient_def act_bind_def api_GetConn_def Let_def act_lift_def deref_def)

lemma cp_Config_GetRandomConn [simp]: "cp_Config (fst (GetRandomConn pool)) = cp_Config pool"
  using GetRandomConn_pool [of pool] by auto

text \<open>What a request asks for, written out: its zone, as offset and name, and the deadline of its calls.\<close>

definition zone_fields :: "int \<Rightarrow> request_config \<Rightarrow> gostring \<times> gostring" where
  "zone_fields zone c =
     (if rc_TimezoneOffset c \<noteq> 0 then (itoa (sint (rc_TimezoneOffset c)), [])
      else if rc_Timezone c \<noteq> [] then ([], rc_Timezone c)
      else (itoa zone, []))"

definition deadline :: "request_config \<Rightarrow> ultipa_config \<Rightarrow> int option" where
  "deadline c cfg =
     (let t = (if rc_Timeout c \<noteq> 0 then rc_Timeout c
               else if uc_Timeout cfg \<noteq> 0 then uc_Timeout cfg else DefaultTimeout)
      in if t <s 0 then None else Some (max 10 (sint t)))"

lemma buildQueryRequest_fields:
  "qq_QueryText (buildQueryRequest srv q qt c conf) = q"
  "qq_QueryType (buildQueryRequest srv q qt c conf) = qt"
  "qq_GraphName (buildQueryRequest srv q qt c conf) = (if rc_Graph c \<noteq> [] then rc_Graph c else uc_DefaultGraph conf)"
  "qq_Timeout (buildQueryRequest srv q qt c conf) = uc_Timeout conf"
  "qq_ThreadNum (buildQueryRequest srv q qt c conf) = rc_Thread c"
  "qq_TzOffset (buildQueryRequest srv q qt c conf) = fst (zone_fields (sv_zone srv) c)"
  "qq_Tz (buildQueryRequest srv q qt c conf) = snd (zone_fields (sv_zone srv) c)"
  by (simp_all add: buildQueryRequest_def graph_of_def zone_fields_def Let_def)

lemma NewContext_fields:
  assumes "rc_Timezone c = [] \<or> te_load_location env (rc_Timezone c) \<noteq> None"
  shows "\<exists>ctx. NewContext env zone cfg (Some c) = Ret ctx \<and> cx_timeout ctx = deadline c cfg \<and>
    cx_headers ctx = [''user'', uc_Username cfg, ''password'', uc_Password cfg, ''graph_name'',
      if rc_Graph c \<noteq> [] then rc_Graph c else uc_DefaultGraph cfg]
      @ (if snd (zone_fields zone c) = [] then [''tz_offset'', fst (zone_fields zone c)]
         else [''tz'', snd (zone_fields zone c)])"
  using assms
  by (auto simp: NewContext_def deadline_def ToContextKV_def zone_fields_def Let_def word_sless_alt)

lemma query_twice_world:
  "fst (query_twice srv c w) = w\<lparr>wd_Calls := wd_Calls w @
     (case sv_query srv (wd_Calls w @ [c]) of Inr x \<Rightarrow> [c] | Inl e \<Rightarrow> [c, c])\<rparr>"
  by (simp add: query_twice_def receive_sum_def Let_def split: sum.split)

text \<open>
  Property C18. A query of a request that forces no host and names no time zone that cannot be loaded is
  made on the connection the pool chooses, once, and once more if the call is refused. The message has the
  text and the type of the query, the graph of the request or else the default one, the timeout of the
  request when it is positive and else that of the configuration, the threads, and the time
  zone: the offset of the request, else its zone by name, else the offset of the client. The context
  has the user, the password, the same graph and zone in its headers and the deadline of the
  request, at least 10 seconds. The response is what is read from the stream of the first call
  accepted, and the error that of the second call. The configuration of the message is the copy
  the copier package makes of that of the pool.
\<close>

theorem query_answered:
  fixes w :: world
  defines "cfg \<equiv> cp_Config (wd_Pool w)"
  assumes "rc_Host c = []" "snd (GetRandomConn (wd_Pool w)) = Ret h"
    "rc_Timezone c = [] \<or> te_load_location env (rc_Timezone c) \<noteq> None"
  shows "\<exists>ctx req. let call = QueryCall h ctx req; conf = sv_copier srv empty_config cfg;
      graph = (\<lambda>conf. if rc_Graph c \<noteq> [] then rc_Graph c else uc_DefaultGraph conf);
      first = sv_query srv (wd_Calls w @ [call]); again = sv_query srv (wd_Calls w @ [call, call]) in
    qq_QueryText req = q \<and> qq_QueryType req = qt \<and> qq_GraphName req = graph conf
    \<and> qq_Timeout req = (if 0 <s rc_Timeout c then rc_Timeout c else uc_Timeout conf)
    \<and> qq_ThreadNum req = rc_Thread c \<and> (qq_TzOffset req, qq_Tz req) = zone_fields (sv_zone srv) c
    \<and> cx_timeout ctx = deadline c cfg
    \<and> cx_headers ctx = [''user'', uc_Username cfg, ''password'', uc_Password cfg, ''graph_name'', graph cfg]
        @ (if qq_Tz req = [] then [''tz_offset'', qq_TzOffset req] else [''tz'', qq_Tz req])
    \<and> api_query env srv q qt (Some c) w =
        (w\<lparr>wd_Pool := fst (GetRandomConn (wd_Pool w)),
           wd_Calls := wd_Calls w @ (case first of Inr x \<Rightarrow> [call] | Inl e \<Rightarrow> [call, call])\<rparr>,
         case first of
           Inr (records, ending) \<Rightarrow> NewUQLResponse records ending
         | Inl e \<Rightarrow> (case again of
               Inr (records, ending) \<Rightarrow> NewUQLResponse records ending
             | Inl e \<Rightarrow> Fail e))"
proof -
  let ?w = "w\<lparr>wd_Pool := fst (GetRandomConn (wd_Pool w))\<rparr>"
  let ?conf = "MergeRequestConfig (sv_copier srv) cfg c"
  let ?req = "buildQueryRequest srv q qt c ?conf"
  obtain ctx where ctx: "NewContext env (sv_zone srv) cfg (Some c) = Ret ctx" "cx_timeout ctx = deadline c cfg"
    "cx_headers ctx = [''user'', uc_Username cfg, ''password'', uc_Password cfg, ''graph_name'',
      if rc_Graph c \<noteq> [] then rc_Graph c else uc_DefaultGraph cfg]
      @ (if snd (zone_fields (sv_zone srv) c) = [] then [''tz_offset'', fst (zone_fields (sv_zone srv) c)]
         else [''tz'', snd (zone_fields (sv_zone srv) c)])"
    using NewContext_fields [OF assms(4)] by blast
  have conf: "uc_DefaultGraph ?conf = uc_DefaultGraph (sv_copier srv empty_config cfg)"
    "uc_Timeout ?conf = (if 0 <s rc_Timeout c then rc_Timeout c else uc_Timeout (sv_copier srv empty_config cfg))"
    by (simp_all add: MergeRequestConfig_def Let_def)
  have exec: "doExecuteQuery env srv q qt (Some c) w =
      act_bind (query_twice srv (QueryCall h ctx ?req)) (\<lambda>resp. act_lift (Ret (resp, ?conf))) ?w"
    using doExecuteQuery_reaches [of srv "Some c" w ?w h ?conf env ctx q qt]
      GetClient_free [OF assms(2,3)] ctx(1) by (simp add: the_config_def cfg_def)
  let ?call = "QueryCall h ctx ?req"
  have "api_query env srv q qt (Some c) w = (fst (query_twice srv ?call ?w),
      case snd (query_twice srv ?call ?w) of
        Ret (records, ending) \<Rightarrow> NewUQLResponse records ending | Fail e \<Rightarrow> Fail e | Panic p \<Rightarrow> Panic p)"
    by (simp add: prod_eq_iff api_query_def exec fst_act_bind snd_act_bind split: go.split prod.split)
  also have "\<dots> = (w\<lparr>wd_Pool := fst (GetRandomConn (wd_Pool w)), wd_Calls := wd_Calls w @
        (case sv_query srv (wd_Calls w @ [?call]) of Inr x \<Rightarrow> [?call] | Inl e \<Rightarrow> [?call, ?call])\<rparr>,
      case sv_query srv (wd_Calls w @ [?call]) of
        Inr (records, ending) \<Rightarrow> NewUQLResponse records ending
      | Inl e \<Rightarrow> (case sv_query srv (wd_Calls w @ [?call, ?call]) of
            Inr (records, ending) \<Rightarrow> NewUQLResponse records ending
          | Inl e \<Rightarrow> Fail e))"
    unfolding query_twice_world query_twice_result by (simp split: sum.split)
  finally have act: "api_query env srv q qt (Some c) w = \<dots>" .
  show ?thesis unfolding Let_def
    by (rule exI [of _ ctx], rule exI [of _ ?req], intro conjI act)
      (simp_all only: buildQueryRequest_fields conf ctx(2,3) prod.collapse)
qed

text \<open>Queries one after the other, whatever comes of each.\<close>

fun run_queries ::
  "'a env_scheme \<Rightarrow> server \<Rightarrow> request_config option \<Rightarrow> gostring list \<Rightarrow> world \<Rightarrow> world" where
  "run_queries env srv config [] w = w"
| "run_queries env srv config (q # qs) w =
     run_queries env srv config qs (fst (Uql env srv q config w))"

fun call_host :: "call \<Rightarrow> gostring" where
  "call_host (QueryCall h ctx req) = h"
| "call_host (InsertNodesCall h ctx req) = h"
| "call_host (InsertEdgesCall h ctx req) = h"
| "call_host (HelloCall h ctx) = h"
| "call_host (DownloadCall h ctx name) = h"
| "call_host (ControlCall h ctx req) = h"

lemma Uql_accepted:
  assumes "rc_Host c = []" "cp_Actives (wd_Pool w) \<noteq> []" "snd (GetRandomConn (wd_Pool w)) = Ret h"
    "NewContext env (sv_zone srv) (cp_Config (wd_Pool w)) (Some c) = Ret ctx"
    "\<And>calls. \<exists>x. sv_query srv calls = Inr x"
  shows "\<exists>req. fst (Uql env srv q (Some c) w) =
    \<lparr>wd_Pool = after_calls 1 (wd_Pool w), wd_Calls = wd_Calls w @ [QueryCall h ctx req]\<rparr>"
proof -
  let ?w = "w\<lparr>wd_Pool := fst (GetRandomConn (wd_Pool w))\<rparr>"
  let ?conf = "MergeRequestConfig (sv_copier srv) (cp_Config (wd_Pool w)) c"
  let ?call = "QueryCall h ctx (buildQueryRequest srv q UQL c ?conf)"
  have "doExecuteQuery env srv q UQL (Some c) w
      = act_bind (query_twice srv ?call) (\<lambda>resp. act_lift (Ret (resp, ?conf))) ?w"
    using doExecuteQuery_reaches [of srv "Some c" w ?w h ?conf env ctx q UQL]
      GetClient_free [OF assms(1,3)] assms(4) by (simp add: the_config_def)
  moreover obtain records ending where "sv_query srv (wd_Calls w @ [?call]) = Inr (records, ending)"
    using assms(5) [of "wd_Calls w @ [?call]"] by auto
  then have "query_twice srv ?call ?w = (?w\<lparr>wd_Calls := wd_Calls w @ [?call]\<rparr>, Ret (records, ending))"
    by (simp add: query_twice_def receive_sum_def Let_def)
  ultimately have "doExecuteQuery env srv q UQL (Some c) w
      = (?w\<lparr>wd_Calls := wd_Calls w @ [?call]\<rparr>, Ret ((records, ending), ?conf))"
    by (simp add: act_bind_Ret) (simp add: act_lift_def)
  then have "fst (Uql env srv q (Some c) w) = ?w\<lparr>wd_Calls := wd_Calls w @ [?call]\<rparr>"
    by (simp add: Uql_def api_query_def act_bind_Ret)
  then show ?thesis by (cases w) (auto simp: after_calls_def)
qed

lemma run_queries_hosts:
  assumes "rc_Host c = []" "cp_Actives (wd_Pool w) = map Some hs" "hs \<noteq> []"
    "0 \<le> sint (cp_RandomTick (wd_Pool w))"
    "sint (cp_RandomTick (wd_Pool w)) + int (k + length qs) < 2 ^ 63"
    "NewContext env (sv_zone srv) (cp_Config (wd_Pool w)) (Some c) = Ret ctx"
    "\<And>calls. \<exists>x. sv_query srv calls = Inr x"
  shows "map call_host (wd_Calls (run_queries env srv (Some c) qs
        \<lparr>wd_Pool = after_calls k (wd_Pool w), wd_Calls = cs\<rparr>))
    = map call_host cs @ map (\<lambda>i. hs ! ((nat (sint (cp_RandomTick (wd_Pool w))) + i + 1) mod length hs))
        [k..<k + length qs]"
  using assms(5)
proof (induction qs arbitrary: k cs)
  case Nil
  then show ?case by simp
next
  case (Cons q qs)
  let ?h = "hs ! ((nat (sint (cp_RandomTick (wd_Pool w))) + k + 1) mod length hs)"
  let ?v = "\<lparr>wd_Pool = after_calls k (wd_Pool w), wd_Calls = cs\<rparr>"
  have a: "after_calls k (wd_Pool w)
      = (wd_Pool w)\<lparr>cp_RandomTick := cp_RandomTick (wd_Pool w) + of_nat k\<rparr>"
    using assms(2,3) by (intro after_calls) simp
  have "snd (GetRandomConn (wd_Pool ?v)) = Ret ?h"
    using choice [OF assms(2-4), of k] Cons.prems by simp
  then obtain req where "fst (Uql env srv q (Some c) ?v) =
      \<lparr>wd_Pool = after_calls 1 (after_calls k (wd_Pool w)), wd_Calls = cs @ [QueryCall ?h ctx req]\<rparr>"
    using Uql_accepted [OF assms(1), of ?v ?h env srv ctx q] assms(2,3,6,7) a by auto
  moreover have "after_calls 1 (after_calls k (wd_Pool w)) = after_calls (Suc k) (wd_Pool w)"
    by (simp add: after_calls_def)
  moreover have "[k..<k + length (q # qs)] = k # [Suc k..<Suc k + length qs]"
    by (simp add: upt_conv_Cons del: upt_Suc)
  ultimately show ?case
    using Cons.IH [of "Suc k" "cs @ [QueryCall ?h ctx req]"] Cons.prems
    by (simp del: upt_Suc)
qed

text \<open>
  Property C22. As many queries as there are active connections, one after the other, reach each
  of them once, in the order of the list rotated to the counter, as long as the calls are
  accepted and the counter does not overflow.
\<close>

theorem queries_spread:
  assumes "rc_Host c = []" "cp_Actives (wd_Pool w) = map Some hs" "hs \<noteq> []"
    "0 \<le> sint (cp_RandomTick (wd_Pool w))"
    "sint (cp_RandomTick (wd_Pool w)) + int (length hs) < 2 ^ 63"
    "NewContext env (sv_zone srv) (cp_Config (wd_Pool w)) (Some c) = Ret ctx"
    "\<And>calls. \<exists>x. sv_query srv calls = Inr x" "length qs = length hs" "wd_Calls w = []"
  shows "map call_host (wd_Calls (run_queries env srv (Some c) qs w))
    = rotate (nat (sint (cp_RandomTick (wd_Pool w))) + 1) hs"
proof -
  let ?t = "nat (sint (cp_RandomTick (wd_Pool w)))"
  have w: "\<lparr>wd_Pool = after_calls 0 (wd_Pool w), wd_Calls = []\<rparr> = w"
    using assms(9) by (simp add: after_calls_def)
  have "map call_host (wd_Calls (run_queries env srv (Some c) qs w))
      = map (\<lambda>i. hs ! ((?t + i + 1) mod length hs)) [0..<length hs]"
    using run_queries_hosts [OF assms(1-4), of 0 qs env srv ctx "[]"] assms(5-8) unfolding w by simp
  also have "\<dots> = rotate (?t + 1) hs"
    by (rule nth_equalityI) (simp_all add: nth_rotate ac_simps del: rotate_Suc)
  finally show ?thesis .
qed

text \<open>
  A stream whose request forces a host sends its query and then reads nothing: the
  callback is never called, its state is unchanged, and no error is returned.
\<close>

theorem forced_stream_reads_nothing:
  assumes "rc_Host c \<noteq> []"
  shows "\<exists>w' r. queryStream env srv q qt cb (Some c) s w = (w', s, r) \<and>
    (\<forall>x. snd (doExecuteQuery env srv q qt (Some c) w) = Ret x \<longrightarrow> r = Ret ())"
  using assms by (auto simp: queryStream_def split: prod.split go.split)

text \<open>A time zone that cannot be loaded does not give an error but ends the process.\<close>

lemma bad_zone_panics:
  assumes "GetClient srv (Some c) w = (w', Ret (h, conf))"
    "NewContext env (sv_zone srv) (cp_Config (wd_Pool w')) (Some c) = Fail e"
  shows "doExecuteQuery env srv q qt (Some c) w = (w', Panic NilDeref)"
  using assms by (simp add: doExecuteQuery_def act_bind_Ret api_NewContext_def Let_def the_config_def)

section \<open>A concrete server\<close>

definition sample_server :: server where
  "sample_server = \<lparr>sv_network = \<lparr>nw_certificate = (\<lambda>_. False), nw_dial = (\<lambda>_ _ _. None),
       nw_close = (\<lambda>_. None)\<rparr>,
     sv_copier = (\<lambda>to from. from), sv_zone = 0, sv_errorf = Err,
     sv_query = (\<lambda>calls. Inr ([sample_rows [[[1]]]], None)),
     sv_insert = (\<lambda>calls. Inr (sample_insert_reply [] [])), sv_hello = (\<lambda>calls. HelloNoStatus),
     sv_download = (\<lambda>calls. Inr ([\<lparr>dr_Status = Some (SUCCESS, []), dr_Chunk = [1]\<rparr>], None)),
     sv_control = (\<lambda>calls. Inr \<lparr>cr_Status = Some (SUCCESS, []), cr_Data = []\<rparr>),
     sv_export = (\<lambda>calls. Inr ([], None))\<rparr>"

definition sample_world :: world where
  "sample_world = \<lparr>wd_Pool = sample_pool\<lparr>cp_Actives := [Some ''a'', Some ''b'']\<rparr>, wd_Calls = []\<rparr>"

lemma sample_choice: "snd (GetRandomConn (wd_Pool sample_world)) = Ret ''b''"
  by (simp add: sample_world_def GetRandomConn_def Let_def go_nth_def go_rem_def sample_pool_def)

lemma sample_context:
  "\<exists>ctx. NewContext toy_env (sv_zone sample_server) (cp_Config (wd_Pool sample_world))
     (Some empty_request_config) = Ret ctx"
  by (simp add: NewContext_def Let_def empty_request_config_def)

lemma query_calls_witness:
  "length (wd_Calls (fst (api_query toy_env sample_server ''top()'' UQL (Some empty_request_config)
      sample_world))) \<le> 2"
  using query_calls [of toy_env sample_server "''top()''" UQL "Some empty_request_config" sample_world]
  by (auto simp: sample_world_def)

lemma query_answered_witness:
  "\<exists>ctx req. api_query toy_env sample_server ''top()'' UQL
      (Some (empty_request_config\<lparr>rc_Graph := ''g'', rc_TimezoneOffset := 3600, rc_Timeout := 5\<rparr>)) sample_world
    = (sample_world\<lparr>wd_Pool := fst (GetRandomConn (wd_Pool sample_world)), wd_Calls := [QueryCall ''b'' ctx req]\<rparr>,
       NewUQLResponse [sample_rows [[[1]]]] None)
    \<and> qq_QueryText req = ''top()'' \<and> qq_GraphName req = ''g'' \<and> qq_Timeout req = 5 \<and> qq_TzOffset req = ''3600''
    \<and> cx_timeout ctx = Some 10"
proof -
  let ?c = "empty_request_config\<lparr>rc_Graph := ''g'', rc_TimezoneOffset := 3600, rc_Timeout := 5\<rparr>"
  have "digit 3 = CHR ''3''" "digit 6 = CHR ''6''" "digit 0 = CHR ''0''" by code_simp+
  then have shown: "itoa 3600 = ''3600''" by (simp add: itoa_def nat_str.simps)
  have d: "deadline ?c (cp_Config (wd_Pool sample_world)) = Some 10"
    "zone_fields (sv_zone sample_server) ?c = (''3600'', [])"
    by (simp_all add: deadline_def zone_fields_def empty_request_config_def word_sless_alt shown)
  have calls: "wd_Calls sample_world = []" by (simp add: sample_world_def)
  have e: "rc_Host empty_request_config = []" "rc_Timezone empty_request_config = []"
    by (simp_all add: empty_request_config_def)
  have q: "sv_query sample_server cs = Inr ([sample_rows [[[1]]]], None)" for cs by (simp add: sample_server_def)
  from query_answered [of ?c sample_world "''b''" toy_env sample_server "''top()''" UQL, OF _ sample_choice]
  show ?thesis
    by (auto simp: d calls e q Let_def word_sless_alt)
qed

lemma queries_spread_witness:
  "map call_host (wd_Calls (run_queries toy_env sample_server (Some empty_request_config)
      [''top()'', ''stats()''] sample_world)) = [''b'', ''a'']"
proof -
  obtain ctx where ctx: "NewContext toy_env (sv_zone sample_server)
      (cp_Config (wd_Pool sample_world)) (Some empty_request_config) = Ret ctx"
    using sample_context by blast
  show ?thesis
    using queries_spread [of empty_request_config sample_world "[''a'', ''b'']" toy_env
        sample_server ctx "[''top()'', ''stats()'']"] ctx
    by (simp add: empty_request_config_def sample_server_def sample_world_def sample_pool_def)
qed

lemma forced_stream_reads_nothing_witness:
  "fst (snd (queryStream toy_env sample_server ''top()'' UQL (\<lambda>resp n. (n + 1, None))
      (Some (empty_request_config\<lparr>rc_Host := ''a''\<rparr>)) (0 :: nat) sample_world)) = 0"
  using forced_stream_reads_nothing [of "empty_request_config\<lparr>rc_Host := ''a''\<rparr>" toy_env sample_server
      "''top()''" UQL "\<lambda>resp n. (n + 1, None)" "0 :: nat" sample_world]
  by auto

end
