(* ===== verification/Names.thy ===== *)
theory Names
  imports GoLib
begin

text \<open>
  The checks of names: \<open>sdk/utils/validators.go\<close>, \<open>isDigits.go\<close> and the guards of
  \<open>sdk/api/utils.go\<close> that every statement built from a name goes through. The regular
  expressions are written out over the bytes of a name; their classes hold ASCII only, so
  matching bytes and matching runes agree.
\<close>

section \<open>The checks of the utilities\<close>

definition is_word :: "char \<Rightarrow> bool" where
  "is_word c \<longleftrightarrow> is_letter c \<or> is_digit c \<or> c = CHR ''_''"

definition id_names :: "gostring list" where
  "id_names = [''_id'', ''_uuid'', ''_from'', ''_to'', ''_from_uuid'', ''_to_uuid'']"

text \<open>
  The alternation binds weaker than the anchors: the first branch is anchored at the front
  only, the second at the end only.
\<close>

definition CheckCustomerName :: "gostring \<Rightarrow> bool" where
  "CheckCustomerName name \<longleftrightarrow>
     (case name of a # b # s \<Rightarrow> is_letter a \<and> is_word b | _ \<Rightarrow> False)
     \<or> list_ex (has_suffix name) id_names"

definition utils_CheckGraphName :: "gostring \<Rightarrow> bool" where
  "utils_CheckGraphName name = CheckCustomerName name"

definition CheckPropertyName :: "gostring \<Rightarrow> bool" where
  "CheckPropertyName name = CheckCustomerName name"

definition CheckSchemaName :: "gostring \<Rightarrow> bool" where
  "CheckSchemaName name = CheckCustomerName name"

definition CheckCustomerNonIdName :: "gostring \<Rightarrow> bool" where
  "CheckCustomerNonIdName name \<longleftrightarrow>
     (case name of [] \<Rightarrow> False | c # s \<Rightarrow> is_letter c \<and> s \<noteq> [] \<and> list_all is_word s)"

definition IsNeedToEscapeSchemaNameForProperty :: "gostring \<Rightarrow> bool" where
  "IsNeedToEscapeSchemaNameForProperty name \<longleftrightarrow>
     \<not> (case name of [] \<Rightarrow> False
        | c # s \<Rightarrow> (is_letter c \<or> c = CHR ''_'') \<and> s \<noteq> [] \<and> list_all is_word s)"

definition IsNeedToEscapeName :: "gostring \<Rightarrow> bool" where
  "IsNeedToEscapeName name = IsNeedToEscapeSchemaNameForProperty name"

definition IsBeginWithDigital :: "gostring \<Rightarrow> bool" where
  "IsBeginWithDigital name = (case name of [] \<Rightarrow> False | c # s \<Rightarrow> is_digit c)"

definition StartWithTilde :: "gostring \<Rightarrow> bool" where
  "StartWithTilde name = has_prefix name ''~''"

definition InvalidName :: "gostring list" where
  "InvalidName =
    [''this'', ''prev_n'', ''prev_e'', ''_uuid'', ''_from_uuid'', ''_to_uuid'', ''_id'',
     ''_from'', ''_to'', ''_graph'', ''_nodeSchema'', ''_edgeSchema'', ''_nodeProperty'',
     ''_edgeProperty'', ''_nodeIndex'', ''_edgeIndex'', ''_nodeFulltext'', ''_edgeFulltext'',
     ''_statistic'', ''_top'', ''_task'', ''_policy'', ''_user'', ''_privilege'', ''_algoList'',
     ''_extaList'']"

definition backquote :: char where
  "backquote = CHR 0x60"

definition IsValidName :: "gostring \<Rightarrow> bool" where
  "IsValidName name \<longleftrightarrow>
     \<not> (length name < 2 \<or> 64 < length name) \<and> \<not> contains name [backquote]
     \<and> \<not> StartWithTilde name \<and> name \<notin> set InvalidName"

text \<open>
  \<open>unicode.IsDigit\<close> also accepts the digits of other scripts; on ASCII names, the ids of jobs and
  tasks, it is this test. The test is a parameter: any rune predicate on the bytes.
\<close>

definition IsAllDigits :: "(gostring \<Rightarrow> bool) \<Rightarrow> gostring \<Rightarrow> bool" where
  "IsAllDigits unicode_digits s \<longleftrightarrow>
     (if list_all (\<lambda>c. (of_char c :: nat) < 128) s then list_all is_digit s
      else unicode_digits s)"

section \<open>The guards of the API\<close>

definition CheckName :: "gostring \<Rightarrow> unit go" where
  "CheckName name =
     (if length name < 2 \<or> 127 < length name
      then Fail (Err ''name bytes length should be between 2 and 127'')
      else if contains name [backquote]
      then Fail (Err (''name can not contain character '' @ [backquote]))
      else if StartWithTilde name then Fail (Err ''name can not start with character ~'')
      else if name \<in> set InvalidName
      then Fail (Err (name @ '' is preserved keyword, can NOT use as name''))
      else Ret ())"

definition CheckReplaceSchemaPropertyName :: "gostring \<Rightarrow> gostring go" where
  "CheckReplaceSchemaPropertyName name =
     (if name = [] \<or> name = ''*'' then Ret name
      else go_bind (CheckName name) (\<lambda>_. Ret ([backquote] @ name @ [backquote])))"

definition CheckGraphName :: "gostring \<Rightarrow> unit go" where
  "CheckGraphName name =
     go_bind (CheckName name) (\<lambda>_.
       if \<not> CheckCustomerNonIdName name
       then Fail (Err (''graph name must start with a letter and can only contain letters, ''
         @ ''underscores, and numbers (A-Z, a-z, _, 0-9)''))
       else Ret ())"

section \<open>Facts\<close>

lemma contains_char: "contains s [c] \<longleftrightarrow> c \<in> set s"
  by (auto simp: contains_iff in_set_conv_decomp)

lemma CheckName_no_panic [simp]: "CheckName name \<noteq> Panic p"
  by (auto simp: CheckName_def)

lemma CheckName_Ret:
  "CheckName name = Ret u \<longleftrightarrow> 2 \<le> length name \<and> length name \<le> 127 \<and> backquote \<notin> set name
     \<and> \<not> has_prefix name ''~'' \<and> name \<notin> set InvalidName"
  by (auto simp: CheckName_def contains_char StartWithTilde_def not_less)

lemma CheckName_IsValidName: "IsValidName name \<Longrightarrow> CheckName name = Ret ()"
  by (auto simp: IsValidName_def CheckName_Ret StartWithTilde_def contains_char)

lemma replaced_name:
  "CheckReplaceSchemaPropertyName name = Ret r \<longleftrightarrow>
     (if name = [] \<or> name = ''*'' then r = name
      else CheckName name = Ret () \<and> r = [backquote] @ name @ [backquote])"
  by (auto simp: CheckReplaceSchemaPropertyName_def go_simps)

text \<open>Words contain neither quotes, blanks nor the characters that have a meaning in a statement.\<close>

lemma word_bytes:
  "is_word c \<Longrightarrow> c \<noteq> backquote \<and> c \<noteq> CHR ''~'' \<and> c \<noteq> CHR 0x22 \<and> c \<noteq> CHR ''.'' \<and> c \<noteq> CHR '')''"
  by (auto simp: is_word_def is_letter_def is_lower_def is_upper_def is_digit_def backquote_def)

text \<open>How a reader of a statement takes a quoted name off its front.\<close>

fun read_quoted :: "gostring \<Rightarrow> (gostring \<times> gostring) option" where
  "read_quoted [] = None"
| "read_quoted (c # s) =
     (if c \<noteq> backquote then None
      else let name = takeWhile (\<lambda>x. x \<noteq> backquote) s
           in case drop (length name) s of [] \<Rightarrow> None | q # rest \<Rightarrow> Some (name, rest))"

lemma read_quoted_append:
  assumes "backquote \<notin> set name"
  shows "read_quoted ([backquote] @ name @ [backquote] @ rest) = Some (name, rest)"
proof -
  have "takeWhile (\<lambda>x. x \<noteq> backquote) (name @ backquote # rest) = name"
    using assms by (metis (mono_tags, lifting) takeWhile_append1 takeWhile_eq_all_conv
        takeWhile.simps(2) append_Nil2 takeWhile_append2)
  then show ?thesis by (simp add: Let_def)
qed

section \<open>What the guards promise\<close>

text \<open>
  Property C29. A name that \<open>CheckReplaceSchemaPropertyName\<close> accepts is either one of the two that
  mean every schema and pass unchanged, or is quoted so that the statement can be read back:
  whatever text follows, the quoted name ends where the guard ended it.
\<close>

theorem quoted_name_reads_back:
  assumes "CheckReplaceSchemaPropertyName name = Ret r"
  shows "(name \<in> {[], ''*''} \<and> r = name) \<or> read_quoted (r @ rest) = Some (name, rest)"
proof (cases "name = [] \<or> name = ''*''")
  case True
  then show ?thesis using assms by (auto simp: replaced_name)
next
  case False
  then have "CheckName name = Ret ()" "r = [backquote] @ name @ [backquote]"
    using assms by (simp_all add: replaced_name)
  then show ?thesis using read_quoted_append [of name rest] by (auto simp: CheckName_Ret)
qed

lemma quoted_name_reads_back_witness:
  "read_quoted ([backquote] @ ''my node'' @ [backquote] @ '',\"x\")'') = Some (''my node'', '',\"x\")'')"
proof -
  have "CheckReplaceSchemaPropertyName ''my node'' = Ret ([backquote] @ ''my node'' @ [backquote])"
    by code_simp
  from quoted_name_reads_back [OF this, of "'',\"x\")''"] show ?thesis by simp
qed

text \<open>
  The names a graph may have: two to 127 bytes, a letter and then letters, digits and
  underscores, and none of the three keywords of that shape.
\<close>

theorem graph_name_spec:
  "CheckGraphName name = Ret () \<longleftrightarrow>
     2 \<le> length name \<and> length name \<le> 127 \<and> is_letter (hd name) \<and> list_all is_word (tl name)
     \<and> name \<notin> {''this'', ''prev_n'', ''prev_e''}"
proof (cases name)
  case Nil
  then show ?thesis by (simp add: CheckGraphName_def go_simps CheckName_Ret)
next
  case (Cons c s)
  have word: "backquote \<notin> set name \<and> \<not> has_prefix name ''~''" if "is_letter c" "list_all is_word s"
    using that Cons word_bytes by (auto simp: list_all_iff has_prefix_def is_word_def)
  have letter: "name \<in> set InvalidName \<longleftrightarrow> name \<in> {''this'', ''prev_n'', ''prev_e''}"
    if "is_letter c"
  proof -
    have "c \<noteq> CHR ''_''" using that by (auto simp: is_letter_def is_lower_def is_upper_def)
    then show ?thesis by (simp add: InvalidName_def Cons)
  qed
  have "CheckGraphName name = Ret () \<longleftrightarrow> CheckName name = Ret () \<and> CheckCustomerNonIdName name"
    by (auto simp: CheckGraphName_def go_simps)
  then show ?thesis using word letter Cons
    by (auto simp: CheckName_Ret CheckCustomerNonIdName_def)
qed

text \<open>
  The older check, which the documentation describes as a match of the whole name, accepts
  every name that begins with a letter and a word byte, whatever follows.
\<close>

lemma customer_name_prefix: "is_letter a \<Longrightarrow> is_word b \<Longrightarrow> CheckCustomerName (a # b # s)"
  by (simp add: CheckCustomerName_def)

end
