(* ===== verification/DataTables.thy ===== *)
theory DataTables
  imports DataItem
begin

text \<open>
  \<open>sdk/http/dataitem.go\<close>, second part: the tables in which the server describes its graphs,
  schemas, properties, indexes, users, policies, privileges, jobs, tasks and so on, read into
  the structures of \<open>sdk/structs\<close>. \<open>encoding/json\<close> and the formatting of times and values are
  fields of \<open>json_env\<close>. \<open>log.Fatalln\<close> ends the process: the outcome \<open>Fatal\<close>.
\<close>

section \<open>Structures\<close>

record graph_set =
  gs_ID :: gostring
  gs_Name :: gostring
  gs_TotalNodes :: nat
  gs_TotalEdges :: nat
  gs_Description :: gostring
  gs_Status :: gostring
  gs_Shards :: "gostring list"
  gs_SlotNum :: int
  gs_PartitionBy :: gostring

record index =
  ix_Id :: gostring
  ix_Name :: gostring
  ix_Properties :: gostring
  ix_Schema :: gostring
  ix_Status :: gostring
  ix_DBType :: db_type

record algo =
  ag_Name :: gostring
  ag_Version :: gostring
  ag_Type :: gostring
  ag_WriteSupportType :: gostring
  ag_CanRollback :: gostring
  ag_Description :: gostring
  ag_ConfigContext :: gostring

record exta =
  ex_Name :: gostring
  ex_Author :: gostring
  ex_Version :: gostring
  ex_Detail :: gostring

record process =
  pr_ProcessId :: gostring
  pr_Status :: gostring
  pr_ProcessQuery :: gostring
  pr_Duration :: gostring

record stats =
  st_CPUUsage :: gostring
  st_MemUsage :: gostring
  st_ExpiredDate :: gostring
  st_CPUCores :: gostring
  st_Company :: gostring
  st_ServerType :: gostring
  st_Version :: gostring

datatype privilege_level = GraphPrivilege | SystemPrivilege

record privilege =
  pv_Name :: gostring
  pv_Level :: privilege_level

type_synonym graph_privileges = "gostring \<rightharpoonup> gostring list"

record privilege_element =
  pe_Read :: "gostring list list option"
  pe_Write :: "gostring list list option"
  pe_Deny :: "gostring list list option"

record property_privileges =
  pp_Node :: privilege_element
  pp_Edge :: privilege_element

record policy =
  po_Name :: gostring
  po_GraphPrivileges :: "graph_privileges option"
  po_SystemPrivileges :: "gostring list option"
  po_PropertyPrivileges :: property_privileges
  po_Policies :: "gostring list option"

record user =
  us_UserName :: gostring
  us_PassWord :: gostring
  us_CreatedTime :: gostring
  us_GraphPrivileges :: "graph_privileges option"
  us_SystemPrivileges :: "gostring list option"
  us_Policies :: "gostring list option"
  us_PropertyPrivileges :: property_privileges

record job =
  jb_Id :: gostring
  jb_GraphName :: gostring
  jb_Type :: gostring
  jb_Query :: gostring
  jb_Status :: gostring
  jb_ErrMsg :: gostring
  jb_Result :: "(gostring \<rightharpoonup> gostring) option"
  jb_StartTime :: gostring
  jb_EndTime :: gostring
  jb_Progress :: gostring

record hdc_graph =
  hg_Name :: gostring
  hg_GraphName :: gostring
  hg_Status :: gostring
  hg_Stats :: gostring
  hg_IsDefault :: gostring
  hg_HDCServerName :: gostring
  hg_HDCServerStatus :: gostring
  hg_Config :: gostring

record projection =
  pj_Name :: gostring
  pj_GraphName :: gostring
  pj_Status :: gostring
  pj_Stats :: gostring
  pj_Config :: gostring

record task_info =
  ti_TaskID :: int
  ti_ServerID :: int
  ti_AlgoName :: gostring
  ti_StartTime :: int
  ti_WritingStartTime :: int
  ti_EndTime :: int
  ti_TimeCost :: int
  ti_TaskStatus :: int
  ti_ReturnType :: int

record temp_task =
  tm_Param :: gostring
  tm_TaskInfo :: task_info
  tm_Result :: "gostring \<rightharpoonup> gostring"
  tm_ErrorMsg :: gostring

record task =
  tk_Param :: "gostring \<rightharpoonup> gostring"
  tk_TaskInfo :: task_info
  tk_Result :: "gostring \<rightharpoonup> gostring"
  tk_ErrorMsg :: gostring

record prop_json =
  pj_PropName :: gostring
  pj_PropType :: gostring
  pj_PropDescription :: gostring
  pj_PropLte :: gostring
  pj_PropExtra :: gostring

record json_env = env +
  js_props :: "bytes \<Rightarrow> prop_json option list go"
  js_decimal :: "bytes \<Rightarrow> decimal_extra \<Rightarrow> decimal_extra go"
  js_graph_privileges :: "bytes \<Rightarrow> graph_privileges option go"
  js_strings :: "bytes \<Rightarrow> gostring list option go"
  js_property_privileges :: "bytes \<Rightarrow> property_privileges go"
  js_task :: "bytes \<Rightarrow> temp_task go"
  js_string_map :: "bytes \<Rightarrow> (gostring \<rightharpoonup> gostring) go"
  js_object :: "bytes \<Rightarrow> values_map go"
  fm_value :: "gval \<Rightarrow> gostring"
  fm_time :: "gotime \<Rightarrow> gostring"
  fm_stats_date :: "gostring \<Rightarrow> gostring go"

section \<open>The guards of a table reader\<close>

text \<open>
  Every reader starts with the same tests: a nil payload and an unset item give the empty
  result, another type is an error, another payload panics, another table name is an error.
\<close>

definition table_item ::
  "data_item \<Rightarrow> gostring list \<Rightarrow> gostring \<Rightarrow> (proto_table \<Rightarrow> 'b list go) \<Rightarrow> 'b list go" where
  "table_item di keys what f =
     (if di_Data di = DNil then Ret []
      else if di_Type di = RT_UNSET then Ret []
      else if di_Type di \<noteq> RT_TABLE
      then Fail (Err (''DataItem '' @ di_Alias di @ '' should be a table as pre-condition''))
      else go_bind (data_table (di_Data di)) (\<lambda>t.
        if tt_TableName t \<notin> set keys
        then Fail (Err (''DataItem '' @ di_Alias di @ what)) else f t))"

definition column :: "bytes list \<Rightarrow> nat \<Rightarrow> gostring go" where
  "column values i = go_lift string_of (go_nth values i)"

definition kv_string :: "values_map \<Rightarrow> gostring \<Rightarrow> gostring go" where
  "kv_string v key = as_string (Values_Get v key)"

text \<open>The rows of the item as key-value maps (\<open>AsTable\<close>, then \<open>ToKV\<close>).\<close>

definition item_kvs :: "'a env_scheme \<Rightarrow> data_item \<Rightarrow> values_map list go" where
  "item_kvs env di = go_bind (AsTable env di) (\<lambda>g. go_bind (deref g) ToKV)"

section \<open>Graphs\<close>

text \<open>
  The error of the edge count and of the slot number is kept in one variable that every later
  conversion overwrites; what is left of it at the end is returned.
\<close>

definition graph_set_row ::
  "values_map \<Rightarrow> graph_set list \<times> go_error option \<Rightarrow> (graph_set list \<times> go_error option) go" where
  "graph_set_row v st =
     go_bind (kv_string v ''id'') (\<lambda>i.
     go_bind (kv_string v ''name'') (\<lambda>name.
     go_bind (kv_string v ''status'') (\<lambda>status.
     go_bind (kv_string v ''description'') (\<lambda>description.
     go_bind (kv_string v ''shards'') (\<lambda>shards.
     go_bind (kv_string v ''partition_by'') (\<lambda>partitionBy.
     go_bind (if Values_Get v ''total_nodes'' = GNil then Ret (0, None)
              else go_lift (\<lambda>s. parse_uint s 64) (kv_string v ''total_nodes'')) (\<lambda>tn.
     go_bind (if Values_Get v ''total_edges'' = GNil then Ret (0, snd st)
              else go_lift (\<lambda>s. parse_uint s 64) (kv_string v ''total_edges'')) (\<lambda>te.
     go_bind (if Values_Get v ''slot_num'' = GNil then Ret (0, snd te)
              else go_lift (\<lambda>s. parse_int s 64) (kv_string v ''slot_num'')) (\<lambda>sn.
       Ret (fst st @ [\<lparr>gs_ID = i, gs_Name = name, gs_TotalNodes = fst tn, gs_TotalEdges = fst te,
              gs_Description = description, gs_Status = status,
              gs_Shards = split_on (CHR '','') shards, gs_SlotNum = fst sn,
              gs_PartitionBy = partitionBy\<rparr>], snd sn))))))))))"

definition AsGraphSets :: "'a env_scheme \<Rightarrow> data_item \<Rightarrow> graph_set list go" where
  "AsGraphSets env di =
     table_item di [''_graph''] '' is not a Graph list'' (\<lambda>table.
       go_bind (item_kvs env di) (\<lambda>values.
       go_bind (go_fold graph_set_row values ([], None)) (\<lambda>(graphSets, err).
         case err of None \<Rightarrow> Ret graphSets | Some e \<Rightarrow> Fail e)))"

definition AsGraphCount :: "data_item \<Rightarrow> graph_count list go" where
  "AsGraphCount di =
     table_item di [''_graphCount''] '' is not a graph count list'' (\<lambda>table.
       if length (tt_Headers table) \<le> 4 then Ret []
       else go_map (\<lambda>values.
         go_bind (column values 4) (\<lambda>c.
         go_bind (column values 2) (\<lambda>from.
         go_bind (column values 3) (\<lambda>to.
         go_bind (column values 0) (\<lambda>ty.
         go_bind (column values 1) (\<lambda>sname.
           Ret \<lparr>gc_Type = ty, gc_Schema = sname,
               gc_Stat = \<lparr>ss_DBType = DBNODE, ss_Schema = [], ss_FromSchema = from,
                 ss_ToSchema = to, ss_Count = word_of_nat (fst (parse_uint c 64))\<rparr>\<rparr>))))))
         (tt_TableRows table))"

section \<open>Schemas and properties\<close>

text \<open>
  \<open>json.Unmarshal\<close> into a nil pointer is an error, whatever the data; both callers pass a nil
  pointer, and exit the process on the error.
\<close>

definition UnmarshalDecimalExtra ::
  "'a json_env_scheme \<Rightarrow> bytes \<Rightarrow> decimal_extra option \<Rightarrow> decimal_extra option go" where
  "UnmarshalDecimalExtra env data d =
     (if data = [] then Ret d
      else case d of
             None \<Rightarrow> Fail (ErrLibrary ''json: Unmarshal(nil *structs.DecimalExtra)'')
           | Some x \<Rightarrow> go_lift Some (js_decimal env data x))"

fun fatal_on_error :: "'a go \<Rightarrow> 'a go" where
  "fatal_on_error (Fail e) = Panic Fatal"
| "fatal_on_error m = m"

text \<open>The columns of a schema table, by header, over the fixed default positions.\<close>

record schema_columns =
  co_Id :: nat
  co_Name :: nat
  co_Desc :: nat
  co_Property :: nat

definition find_schema_columns :: "proto_property list \<Rightarrow> schema_columns" where
  "find_schema_columns headers =
     fold (\<lambda>(i, h) c.
       if pp_PropertyName h = ''id'' then c\<lparr>co_Id := i\<rparr>
       else if pp_PropertyName h = ''name'' then c\<lparr>co_Name := i\<rparr>
       else if pp_PropertyName h = ''description'' then c\<lparr>co_Desc := i\<rparr>
       else if pp_PropertyName h = ''properties'' then c\<lparr>co_Property := i\<rparr>
       else c) (zip [0..<length headers] headers)
       \<lparr>co_Id = 0, co_Name = 1, co_Desc = 3, co_Property = 4\<rparr>"

definition schema_property ::
  "'a json_env_scheme \<Rightarrow> gostring \<Rightarrow> prop_json option \<Rightarrow> property go" where
  "schema_property env schemaName p =
     go_bind (deref p) (\<lambda>prop.
     go_bind (if pj_PropLte prop \<noteq> []
              then fatal_on_error (err_val (parse_bool (pj_PropLte prop))) else Ret False) (\<lambda>lte.
     go_bind (fatal_on_error (UnmarshalDecimalExtra env (bytes_of (pj_PropExtra prop)) None))
       (\<lambda>exta.
       Ret (SetTypeByString
         (empty_property\<lparr>prop_name := pj_PropName prop, prop_description := pj_PropDescription prop,
            prop_lte := lte, prop_schema := schemaName, prop_decimal := exta\<rparr>)
         (pj_PropType prop)))))"

definition schema_row ::
  "'a json_env_scheme \<Rightarrow> schema_columns \<Rightarrow> db_type \<Rightarrow> bytes list \<Rightarrow> schema go" where
  "schema_row env cols dbType values =
     go_bind (column values (co_Name cols)) (\<lambda>name.
     go_bind (column values (co_Desc cols)) (\<lambda>description.
     go_bind (go_nth values (co_Property cols)) (\<lambda>propertyJson.
     go_bind (go_lift AsString (go_nth values 3)) (\<lambda>total.
     go_bind (column values (co_Id cols)) (\<lambda>i.
     go_bind (fatal_on_error (js_props env propertyJson)) (\<lambda>props.
     go_bind (go_map (schema_property env name) props) (\<lambda>properties.
       Ret ((NewSchema name)\<lparr>sc_Description := description, sc_Properties := properties,
         sc_Total := word_of_nat (fst (parse_uint total 64)), sc_Id := i,
         sc_DBType := dbType\<rparr>))))))))"

definition AsSchemas :: "'a json_env_scheme \<Rightarrow> data_item \<Rightarrow> schema list go" where
  "AsSchemas env di =
     table_item di [''_nodeSchema'', ''_edgeSchema''] '' is not a Schema list'' (\<lambda>table.
       go_map (schema_row env (find_schema_columns (tt_Headers table))
           (if tt_TableName table = ''_edgeSchema'' then DBEDGE else DBNODE))
         (tt_TableRows table))"

definition getOrDefault :: "gostring \<Rightarrow> gostring \<Rightarrow> (gostring \<rightharpoonup> bytes) \<Rightarrow> gostring" where
  "getOrDefault name defaultValue container =
     (case container name of Some bs \<Rightarrow> string_of bs | None \<Rightarrow> defaultValue)"

fun row_values_map ::
  "proto_property list \<Rightarrow> nat \<Rightarrow> bytes list \<Rightarrow> (gostring \<rightharpoonup> bytes) \<Rightarrow> (gostring \<rightharpoonup> bytes) go" where
  "row_values_map [] i values m = Ret m"
| "row_values_map (h # hs) i values m =
     go_bind (go_nth values i) (\<lambda>v.
       row_values_map hs (i + 1) values (m(pp_PropertyName h \<mapsto> v)))"

definition property_row ::
  "'a json_env_scheme \<Rightarrow> proto_property list \<Rightarrow> bytes list \<Rightarrow> property go" where
  "property_row env headers values =
     go_bind (row_values_map headers 0 values Map.empty) (\<lambda>rowValues.
     go_bind (fatal_on_error (err_val (parse_bool (getOrDefault ''lte'' ''false'' rowValues)))) (\<lambda>lte.
     go_bind (fatal_on_error (UnmarshalDecimalExtra env
         (bytes_of (getOrDefault ''extra'' [] rowValues)) None)) (\<lambda>exta.
       Ret (SetTypeByString
         (empty_property\<lparr>prop_name := getOrDefault ''name'' [] rowValues,
            prop_description := getOrDefault ''description'' [] rowValues, prop_lte := lte,
            prop_read := (getOrDefault ''read'' ''0'' rowValues = ''1''),
            prop_write := (getOrDefault ''write'' ''0'' rowValues = ''1''),
            prop_schema := getOrDefault ''schema'' ''0'' rowValues, prop_decimal := exta,
            prop_encrypt := getOrDefault ''encrypt'' [] rowValues\<rparr>)
         (getOrDefault ''type'' [] rowValues)))))"

definition AsProperties :: "'a json_env_scheme \<Rightarrow> data_item \<Rightarrow> property list go" where
  "AsProperties env di =
     table_item di [''_nodeProperty'', ''_edgeProperty''] '' is not a Property list'' (\<lambda>table.
       go_map (property_row env (tt_Headers table)) (tt_TableRows table))"

section \<open>Indexes\<close>

definition AsIndexes :: "data_item \<Rightarrow> index list go" where
  "AsIndexes di =
     table_item di [''_nodeIndex'', ''_edgeIndex''] '' is not a Index list'' (\<lambda>table.
       go_map (\<lambda>values.
         go_bind (column values 0) (\<lambda>i.
         go_bind (column values 1) (\<lambda>name.
         go_bind (column values 2) (\<lambda>properties.
         go_bind (column values 3) (\<lambda>sname.
         go_bind (column values 4) (\<lambda>status.
           Ret \<lparr>ix_Id = i, ix_Name = name, ix_Properties = properties, ix_Schema = sname,
               ix_Status = status,
               ix_DBType = (if tt_TableName table = ''_nodeIndex'' then DBNODE else DBEDGE)\<rparr>))))))
         (tt_TableRows table))"

definition AsFullTexts :: "data_item \<Rightarrow> index list go" where
  "AsFullTexts di =
     table_item di [''_nodeFulltext'', ''_edgeFulltext''] '' is not a fullText list'' (\<lambda>table.
       go_map (\<lambda>values.
         go_bind (column values 0) (\<lambda>name.
         go_bind (column values 1) (\<lambda>properties.
         go_bind (column values 2) (\<lambda>sname.
         go_bind (column values 3) (\<lambda>status.
           Ret \<lparr>ix_Id = [], ix_Name = name, ix_Properties = properties, ix_Schema = sname,
               ix_Status = status,
               ix_DBType = (if tt_TableName table = ''_nodeFulltext'' then DBNODE else DBEDGE)\<rparr>)))))
         (tt_TableRows table))"

section \<open>Algorithms, policies, users\<close>

definition AsAlgos :: "'a env_scheme \<Rightarrow> data_item \<Rightarrow> algo list go" where
  "AsAlgos env di =
     (if di_Data di = DNil then Ret []
      else if di_Type di \<noteq> RT_TABLE
      then Fail (Err (''DataItem '' @ di_Alias di @ '' should be a table(algo) as pre-condition''))
      else go_bind (item_kvs env di) (\<lambda>values.
        go_map (\<lambda>v.
          go_bind (kv_string v ''name'') (\<lambda>name.
          go_bind (kv_string v ''version'') (\<lambda>version.
          go_bind (kv_string v ''type'') (\<lambda>ty.
          go_bind (kv_string v ''write_support_type'') (\<lambda>write_support_type.
          go_bind (kv_string v ''can_rollback'') (\<lambda>can_rollback.
          go_bind (kv_string v ''description'') (\<lambda>description.
          go_bind (kv_string v ''config_context'') (\<lambda>config_context.
            Ret \<lparr>ag_Name = name, ag_Version = version, ag_Type = ty,
                ag_WriteSupportType = write_support_type, ag_CanRollback = can_rollback,
                ag_Description = description, ag_ConfigContext = config_context\<rparr>))))))))
          values))"

definition bytesToPolicy :: "'a json_env_scheme \<Rightarrow> bytes list \<Rightarrow> policy go" where
  "bytesToPolicy env data =
     (if length data \<noteq> 5 then Fail (Err (''invalid data length, expected 4 but got ''
          @ nat_str (length data)))
      else
        go_bind (column data 0) (\<lambda>name.
        go_bind (go_bind (go_nth data 1) (js_graph_privileges env)) (\<lambda>graphPrivileges.
        go_bind (go_bind (go_nth data 2) (js_strings env)) (\<lambda>systemPrivileges.
        go_bind (go_bind (go_nth data 3) (js_property_privileges env)) (\<lambda>propertyPrivileges.
        go_bind (go_bind (go_nth data 4) (js_strings env)) (\<lambda>policies.
          Ret \<lparr>po_Name = name, po_GraphPrivileges = graphPrivileges,
              po_SystemPrivileges = systemPrivileges,
              po_PropertyPrivileges = propertyPrivileges, po_Policies = policies\<rparr>))))))"

definition AsPolicies :: "'a json_env_scheme \<Rightarrow> data_item \<Rightarrow> policy list go" where
  "AsPolicies env di =
     (if di_Data di \<noteq> DNil \<and> di_Type di = RT_UNSET then Fail (Err ''RESULT_TYPE_UNSET'')
      else table_item di [''_policy''] '' is not a policy list'' (\<lambda>table.
        go_map (bytesToPolicy env) (tt_TableRows table)))"

definition AsExtas :: "data_item \<Rightarrow> exta list go" where
  "AsExtas di =
     table_item di [''_extaList''] '' is not a exta list'' (\<lambda>table.
       go_map (\<lambda>values.
         go_bind (column values 0) (\<lambda>name.
         go_bind (column values 1) (\<lambda>author.
         go_bind (column values 2) (\<lambda>version.
         go_bind (column values 3) (\<lambda>detail.
           Ret \<lparr>ex_Name = name, ex_Author = author, ex_Version = version,
               ex_Detail = detail\<rparr>)))))
         (tt_TableRows table))"

definition AsTasks :: "'a json_env_scheme \<Rightarrow> data_item \<Rightarrow> task list go" where
  "AsTasks env di =
     table_item di [''_task''] '' is not a task list'' (\<lambda>table.
       go_map (\<lambda>values.
         go_bind (go_bind (go_nth values 0) (js_task env)) (\<lambda>tempTask.
         go_bind (js_string_map env (bytes_of (tm_Param tempTask))) (\<lambda>param.
           Ret \<lparr>tk_Param = param, tk_TaskInfo = tm_TaskInfo tempTask,
               tk_Result = tm_Result tempTask, tk_ErrorMsg = tm_ErrorMsg tempTask\<rparr>)))
         (tt_TableRows table))"

definition AsProcesses :: "data_item \<Rightarrow> process list go" where
  "AsProcesses di =
     table_item di [''_top''] '' is not a top list'' (\<lambda>table.
       go_map (\<lambda>values.
         go_bind (column values 0) (\<lambda>i.
         go_bind (column values 1) (\<lambda>status.
         go_bind (column values 2) (\<lambda>query.
         go_bind (column values 3) (\<lambda>duration.
           Ret \<lparr>pr_ProcessId = i, pr_Status = status, pr_ProcessQuery = query,
               pr_Duration = duration\<rparr>)))))
         (tt_TableRows table))"

text \<open>The first row is read without a test that there is one.\<close>

definition AsStats :: "'a json_env_scheme \<Rightarrow> data_item \<Rightarrow> stats option go" where
  "AsStats env di =
     (if di_Data di = DNil then Ret None
      else if di_Type di = RT_UNSET then Fail (Err ''ResultType_RESULT_TYPE_UNSET'')
      else if di_Type di \<noteq> RT_TABLE
      then Fail (Err (''DataItem '' @ di_Alias di @ '' should be a table as pre-condition''))
      else go_bind (data_table (di_Data di)) (\<lambda>table.
        if tt_TableName table \<noteq> ''_statistic''
        then Fail (Err (''DataItem '' @ di_Alias di @ '' is not a stats list''))
        else
          go_bind (go_nth (tt_TableRows table) 0) (\<lambda>values.
          go_bind (column values 2) (\<lambda>dateStr.
          go_bind (fm_stats_date env dateStr) (\<lambda>formattedDate.
          go_bind (column values 0) (\<lambda>cpuUsage.
          go_bind (column values 1) (\<lambda>memUsage.
          go_bind (column values 3) (\<lambda>cpuCores.
          go_bind (column values 4) (\<lambda>company.
          go_bind (column values 5) (\<lambda>serverType.
          go_bind (column values 6) (\<lambda>version.
            Ret (Some \<lparr>st_CPUUsage = cpuUsage, st_MemUsage = memUsage,
                st_ExpiredDate = formattedDate, st_CPUCores = cpuCores, st_Company = company,
                st_ServerType = serverType, st_Version = version\<rparr>))))))))))))"

definition nil_list :: "'b list option \<Rightarrow> 'b list" where
  "nil_list xs = (case xs of None \<Rightarrow> [] | Some ys \<Rightarrow> ys)"

definition AsPrivileges :: "'a json_env_scheme \<Rightarrow> data_item \<Rightarrow> privilege list go" where
  "AsPrivileges env di =
     table_item di [''_privilege''] '' is not a privilege list'' (\<lambda>table.
       go_lift concat (go_map (\<lambda>values.
         go_bind (go_bind (go_nth values 0) (js_strings env)) (\<lambda>graphPrivileges.
         go_bind (go_bind (go_nth values 1) (js_strings env)) (\<lambda>systemPrivileges.
           Ret (map (\<lambda>gp. \<lparr>pv_Name = gp, pv_Level = GraphPrivilege\<rparr>) (nil_list graphPrivileges)
              @ map (\<lambda>gp. \<lparr>pv_Name = gp, pv_Level = SystemPrivilege\<rparr>)
                  (nil_list systemPrivileges)))))
         (tt_TableRows table)))"

text \<open>
  The creation time of a user is asserted to be a time pointer and formatted. The loop after
  the return of the source is dead code.
\<close>

fun as_time :: "gval \<Rightarrow> ultipa_time go" where
  "as_time (GTimePtr p) = deref p"
| "as_time _ = Panic TypeAssertion"

definition user_of_kv :: "'a json_env_scheme \<Rightarrow> values_map \<Rightarrow> user go" where
  "user_of_kv env v =
     go_bind (kv_string v ''username'') (\<lambda>username.
     go_bind (as_time (Values_Get v ''create'')) (\<lambda>create.
     go_bind (deref (ut_Time create)) (\<lambda>t.
     go_bind (kv_string v ''graphPrivileges'') (\<lambda>gp.
     go_bind (js_graph_privileges env (bytes_of gp)) (\<lambda>graphPrivileges.
     go_bind (kv_string v ''systemPrivileges'') (\<lambda>sp.
     go_bind (js_strings env (bytes_of sp)) (\<lambda>systemPrivileges.
     go_bind (kv_string v ''propertyPrivileges'') (\<lambda>pp.
     go_bind (js_property_privileges env (bytes_of pp)) (\<lambda>propertyPrivileges.
     go_bind (kv_string v ''policies'') (\<lambda>po.
     go_bind (js_strings env (bytes_of po)) (\<lambda>policies.
       Ret \<lparr>us_UserName = username, us_PassWord = [], us_CreatedTime = fm_time env t,
           us_GraphPrivileges = graphPrivileges, us_SystemPrivileges = systemPrivileges,
           us_Policies = policies, us_PropertyPrivileges = propertyPrivileges\<rparr>)))))))))))"

definition AsUsers :: "'a json_env_scheme \<Rightarrow> data_item \<Rightarrow> user list go" where
  "AsUsers env di =
     table_item di [''_user''] '' is not a user list'' (\<lambda>table.
       go_bind (item_kvs env di) (go_map (user_of_kv env)))"

definition bytesToUser :: "'a json_env_scheme \<Rightarrow> (gotime \<Rightarrow> gostring) \<Rightarrow> bytes list \<Rightarrow> user go" where
  "bytesToUser env format_date data =
     (if length data \<noteq> 6 then Fail (Err (''invalid data length, expected 6 but got ''
          @ nat_str (length data)))
      else
        go_bind (column data 0) (\<lambda>username.
        go_bind (column data 1) (\<lambda>ts.
        go_bind (go_bind (go_nth data 2) (js_graph_privileges env)) (\<lambda>graphPrivileges.
        go_bind (go_bind (go_nth data 3) (js_strings env)) (\<lambda>systemPrivileges.
        go_bind (go_bind (go_nth data 4) (js_property_privileges env)) (\<lambda>propertyPrivileges.
        go_bind (go_bind (go_nth data 5) (js_strings env)) (\<lambda>policies.
          Ret \<lparr>us_UserName = username, us_PassWord = [],
              us_CreatedTime = format_date (time_Unix (te_local env) (fst (parse_int ts 64)) 0),
              us_GraphPrivileges = graphPrivileges, us_SystemPrivileges = systemPrivileges,
              us_Policies = policies, us_PropertyPrivileges = propertyPrivileges\<rparr>)))))))"

section \<open>Jobs and projections\<close>

text \<open>A result that is no JSON object is reported on the console and left nil.\<close>

definition bytes2result :: "'a json_env_scheme \<Rightarrow> bytes \<Rightarrow> (gostring \<rightharpoonup> gostring) option go" where
  "bytes2result env data =
     (if length data = 0 then Ret None
      else case js_object env data of
             Ret result \<Rightarrow> Ret (Some (\<lambda>key. map_option (fm_value env) (result key)))
           | Fail e \<Rightarrow> Ret None
           | Panic p \<Rightarrow> Panic p)"

definition AsJobs :: "'a json_env_scheme \<Rightarrow> data_item \<Rightarrow> job list go" where
  "AsJobs env di =
     table_item di [''_job''] '' is not a job list'' (\<lambda>table.
       go_map (\<lambda>values.
         go_bind (column values 0) (\<lambda>i.
         go_bind (column values 1) (\<lambda>graphName.
         go_bind (column values 2) (\<lambda>ty.
         go_bind (column values 3) (\<lambda>query.
         go_bind (column values 4) (\<lambda>status.
         go_bind (column values 5) (\<lambda>errMsg.
         go_bind (go_bind (go_nth values 6) (bytes2result env)) (\<lambda>result.
         go_bind (column values 7) (\<lambda>startTime.
         go_bind (column values 8) (\<lambda>endTime.
         go_bind (column values 9) (\<lambda>progress.
           Ret \<lparr>jb_Id = i, jb_GraphName = graphName, jb_Type = ty, jb_Query = query,
               jb_Status = status, jb_ErrMsg = errMsg, jb_Result = result,
               jb_StartTime = startTime, jb_EndTime = endTime, jb_Progress = progress\<rparr>)))))))))))
         (tt_TableRows table))"

definition AsHDCGraphs :: "'a env_scheme \<Rightarrow> data_item \<Rightarrow> hdc_graph list go" where
  "AsHDCGraphs env di =
     table_item di [''_hdcGraphList''] '' is not a Graph list'' (\<lambda>table.
       go_bind (item_kvs env di) (go_map (\<lambda>v.
         go_bind (kv_string v ''name'') (\<lambda>name.
         go_bind (kv_string v ''graph_name'') (\<lambda>graph_name.
         go_bind (kv_string v ''status'') (\<lambda>status.
         go_bind (kv_string v ''stats'') (\<lambda>stats.
         go_bind (kv_string v ''is_default'') (\<lambda>is_default.
         go_bind (kv_string v ''hdc_server_name'') (\<lambda>hdc_server_name.
         go_bind (kv_string v ''hdc_server_status'') (\<lambda>hdc_server_status.
         go_bind (kv_string v ''config'') (\<lambda>config.
           Ret \<lparr>hg_Name = name, hg_GraphName = graph_name, hg_Status = status, hg_Stats = stats,
               hg_IsDefault = is_default, hg_HDCServerName = hdc_server_name,
               hg_HDCServerStatus = hdc_server_status, hg_Config = config\<rparr>)))))))))))"

definition AsProjections :: "'a env_scheme \<Rightarrow> data_item \<Rightarrow> projection list go" where
  "AsProjections env di =
     table_item di [''_projectionList''] '' is not a Projection list'' (\<lambda>table.
       go_bind (item_kvs env di) (go_map (\<lambda>v.
         go_bind (kv_string v ''name'') (\<lambda>name.
         go_bind (kv_string v ''graph_name'') (\<lambda>graph_name.
         go_bind (kv_string v ''status'') (\<lambda>status.
         go_bind (kv_string v ''stats'') (\<lambda>stats.
         go_bind (kv_string v ''config'') (\<lambda>config.
           Ret \<lparr>pj_Name = name, pj_GraphName = graph_name, pj_Status = status,
               pj_Stats = stats, pj_Config = config\<rparr>))))))))"

section \<open>The contract of a table reader\<close>

text \<open>
  What a caller may rely on, whatever table it asks for: a result that is not empty was read
  from a table of the reader's own kind.
\<close>

locale table_reader =
  fixes read :: "data_item \<Rightarrow> 'a list go" and keys :: "gostring list"
  assumes nil_item: "di_Data di = DNil \<Longrightarrow> read di = Ret []"
    and unset_item: "di_Type di = RT_UNSET \<Longrightarrow> read di = Ret xs \<Longrightarrow> xs = []"
    and wrong_type: "di_Data di \<noteq> DNil \<Longrightarrow> di_Type di \<noteq> RT_UNSET \<Longrightarrow> di_Type di \<noteq> RT_TABLE
      \<Longrightarrow> \<exists>e. read di = Fail e"
    and wrong_payload: "di_Type di = RT_TABLE \<Longrightarrow> di_Data di \<noteq> DNil \<Longrightarrow> \<forall>t. di_Data di \<noteq> DTable t
      \<Longrightarrow> read di = Panic TypeAssertion"
    and wrong_name: "di_Type di = RT_TABLE \<Longrightarrow> di_Data di = DTable t \<Longrightarrow> tt_TableName t \<notin> set keys
      \<Longrightarrow> \<exists>e. read di = Fail e"
begin

lemma own_table:
  assumes "read di = Ret xs" "xs \<noteq> []"
  obtains t where "di_Type di = RT_TABLE" "di_Data di = DTable t" "tt_TableName t \<in> set keys"
proof -
  have d: "di_Data di \<noteq> DNil" using assms nil_item by auto
  have "di_Type di \<noteq> RT_UNSET" using assms unset_item by auto
  with d have ty: "di_Type di = RT_TABLE" using assms(1) wrong_type by fastforce
  then obtain t where t: "di_Data di = DTable t" using assms(1) d wrong_payload by fastforce
  with ty have "tt_TableName t \<in> set keys" using assms(1) wrong_name by fastforce
  with ty t that show thesis by blast
qed

text \<open>Two readers of different kinds never both find something in one item.\<close>

lemma other_reader_empty:
  assumes "table_reader read' keys'" "set keys \<inter> set keys' = {}"
    "read di = Ret xs" "xs \<noteq> []" "read' di = Ret ys"
  shows "ys = []"
proof (rule ccontr)
  assume "ys \<noteq> []"
  from table_reader.own_table [OF assms(1,5) this] obtain t' where
    "di_Data di = DTable t'" "tt_TableName t' \<in> set keys'" by blast
  moreover obtain t where "di_Data di = DTable t" "tt_TableName t \<in> set keys"
    using own_table [OF assms(3,4)] by blast
  ultimately show False using assms(2) by auto
qed

end

lemma data_table_other: "d \<noteq> DNil \<Longrightarrow> \<forall>t. d \<noteq> DTable t \<Longrightarrow> data_table d = Panic TypeAssertion"
  by (cases d) simp_all

lemma table_item_reader: "table_reader (\<lambda>di. table_item di keys what (f di)) keys"
  by unfold_locales (auto simp: table_item_def data_table_other split: if_splits)

interpretation graph_sets: table_reader "AsGraphSets env" "[''_graph'']" for env
  unfolding AsGraphSets_def by (rule table_item_reader)

interpretation graph_counts: table_reader AsGraphCount "[''_graphCount'']"
  unfolding AsGraphCount_def by (rule table_item_reader)

interpretation schemas: table_reader "AsSchemas env" "[''_nodeSchema'', ''_edgeSchema'']" for env
  unfolding AsSchemas_def by (rule table_item_reader)

interpretation properties: table_reader "AsProperties env" "[''_nodeProperty'', ''_edgeProperty'']" for env
  unfolding AsProperties_def by (rule table_item_reader)

interpretation indexes: table_reader AsIndexes "[''_nodeIndex'', ''_edgeIndex'']"
  unfolding AsIndexes_def by (rule table_item_reader)

interpretation fulltexts: table_reader AsFullTexts "[''_nodeFulltext'', ''_edgeFulltext'']"
  unfolding AsFullTexts_def by (rule table_item_reader)

interpretation extas: table_reader AsExtas "[''_extaList'']"
  unfolding AsExtas_def by (rule table_item_reader)

interpretation tasks: table_reader "AsTasks env" "[''_task'']" for env
  unfolding AsTasks_def by (rule table_item_reader)

interpretation processes: table_reader AsProcesses "[''_top'']"
  unfolding AsProcesses_def by (rule table_item_reader)

interpretation privileges: table_reader "AsPrivileges env" "[''_privilege'']" for env
  unfolding AsPrivileges_def by (rule table_item_reader)

interpretation users: table_reader "AsUsers env" "[''_user'']" for env
  unfolding AsUsers_def by (rule table_item_reader)

interpretation jobs: table_reader "AsJobs env" "[''_job'']" for env
  unfolding AsJobs_def by (rule table_item_reader)

text \<open>A property table with one row, and an environment whose JSON decoder refuses everything.\<close>

definition toy_json_env :: json_env where
  "toy_json_env = env.extend toy_env (json_env.fields
     (\<lambda>_. Fail (ErrLibrary ''json'')) (\<lambda>_ _. Fail (ErrLibrary ''json''))
     (\<lambda>_. Fail (ErrLibrary ''json'')) (\<lambda>_. Fail (ErrLibrary ''json''))
     (\<lambda>_. Fail (ErrLibrary ''json'')) (\<lambda>_. Fail (ErrLibrary ''json''))
     (\<lambda>_. Fail (ErrLibrary ''json'')) (\<lambda>_. Fail (ErrLibrary ''json''))
     (\<lambda>_. []) (\<lambda>_. []) (\<lambda>s. Ret s))"

definition string_column :: "gostring \<Rightarrow> proto_property" where
  "string_column name = \<lparr>pp_PropertyName = name, pp_PropertyType = PT_STRING, pp_SubTypes = []\<rparr>"

definition sample_property_table :: "gostring \<Rightarrow> proto_table" where
  "sample_property_table extra = \<lparr>tt_TableName = ''_nodeProperty'',
     tt_Headers = map string_column [''extra'', ''lte'', ''name'', ''type''],
     tt_TableRows = [map bytes_of [extra, ''false'', ''age'', ''int32'']]\<rparr>"

definition table_data_item :: "proto_table \<Rightarrow> data_item" where
  "table_data_item t = \<lparr>di_Alias = tt_TableName t, di_Type = RT_TABLE, di_Data = DTable t\<rparr>"

lemma sample_properties:
  "\<exists>p. AsProperties toy_json_env (table_data_item (sample_property_table [])) = Ret [p]"
  by (simp add: AsProperties_def table_item_def table_data_item_def sample_property_table_def
      string_column_def property_row_def getOrDefault_def parse_bool_def UnmarshalDecimalExtra_def)

text \<open>
  An item in which one of the readers finds something is a table of that reader's
  kind, and then the readers of the other kinds never return anything from it: of the schema,
  property, index and full-text readers at most one returns a non-empty list.
\<close>

theorem readers_exclusive:
  assumes "AsProperties env di = Ret ps" "ps \<noteq> []"
  shows "(\<exists>t. di_Data di = DTable t \<and> tt_TableName t \<in> {''_nodeProperty'', ''_edgeProperty''}) \<and>
    (\<forall>ss. AsSchemas env di = Ret ss \<longrightarrow> ss = []) \<and> (\<forall>xs. AsIndexes di = Ret xs \<longrightarrow> xs = []) \<and>
    (\<forall>xs. AsFullTexts di = Ret xs \<longrightarrow> xs = [])"
proof -
  obtain t where "di_Data di = DTable t" "tt_TableName t \<in> set [''_nodeProperty'', ''_edgeProperty'']"
    using properties.own_table [OF assms] by blast
  moreover have "ss = []" if "AsSchemas env di = Ret ss" for ss
    by (rule properties.other_reader_empty [OF schemas.table_reader_axioms _ assms that]) simp
  moreover have "xs = []" if "AsIndexes di = Ret xs" for xs
    by (rule properties.other_reader_empty [OF indexes.table_reader_axioms _ assms that]) simp
  moreover have "xs = []" if "AsFullTexts di = Ret xs" for xs
    by (rule properties.other_reader_empty [OF fulltexts.table_reader_axioms _ assms that]) simp
  ultimately show ?thesis by simp
qed

theorem readers_exclusive_witness:
  "AsIndexes (table_data_item (sample_property_table [])) \<noteq> Ret [\<lparr>ix_Id = [], ix_Name = [], ix_Properties = [], ix_Schema = [],
      ix_Status = [], ix_DBType = DBNODE\<rparr>]
    \<and> (\<exists>t. di_Data (table_data_item (sample_property_table [])) = DTable t)"
proof -
  obtain p where "AsProperties toy_json_env (table_data_item (sample_property_table [])) = Ret [p]"
    using sample_properties by blast
  from readers_exclusive [OF this] show ?thesis by auto
qed

section \<open>Property tables\<close>

text \<open>The field of a row under a header name, or a default when no header has the name.\<close>

definition field :: "proto_table \<Rightarrow> bytes list \<Rightarrow> gostring \<Rightarrow> gostring \<Rightarrow> gostring" where
  "field t values name dflt =
     getOrDefault name dflt (map_of (rev (zip (map pp_PropertyName (tt_Headers t)) values)))"

lemma map_add_rev_Cons: "m ++ map_of (rev ((k, v) # zs)) = m(k \<mapsto> v) ++ map_of (rev zs)"
proof
  fix a
  show "(m ++ map_of (rev ((k, v) # zs))) a = (m(k \<mapsto> v) ++ map_of (rev zs)) a"
    by (cases "map_of (rev zs) a") (simp_all add: map_add_def)
qed

lemma row_values_map_Ret:
  "row_values_map hs i values m = Ret m' \<Longrightarrow> i \<le> length values \<Longrightarrow>
   i + length hs \<le> length values \<and>
   m' = m ++ map_of (rev (zip (map pp_PropertyName hs) (drop i values)))"
proof (induction hs arbitrary: i m)
  case Nil
  then show ?case by simp
next
  case (Cons h hs)
  then have i: "i < length values" by (auto simp: go_simps)
  then have d: "drop i values = values ! i # drop (i + 1) values" by (simp add: Cons_nth_drop_Suc)
  have "row_values_map hs (i + 1) values (m(pp_PropertyName h \<mapsto> values ! i)) = Ret m'"
    using Cons.prems by (auto simp: go_simps)
  moreover have "i + 1 \<le> length values" using i by simp
  ultimately have l: "i + 1 + length hs \<le> length values" and
    e: "m' = m(pp_PropertyName h \<mapsto> values ! i)
       ++ map_of (rev (zip (map pp_PropertyName hs) (drop (i + 1) values)))"
    using Cons.IH by blast+
  show ?case
  proof
    show "i + length (h # hs) \<le> length values" using l by simp
    show "m' = m ++ map_of (rev (zip (map pp_PropertyName (h # hs)) (drop i values)))"
      by (simp only: e d list.map zip_Cons_Cons map_add_rev_Cons)
  qed
qed

lemma SetTypeByString_other:
  "prop_name (SetTypeByString p s) = prop_name p"
  "prop_lte (SetTypeByString p s) = prop_lte p"
  "prop_read (SetTypeByString p s) = prop_read p"
  "prop_write (SetTypeByString p s) = prop_write p"
  "prop_schema (SetTypeByString p s) = prop_schema p"
  "prop_description (SetTypeByString p s) = prop_description p"
  "prop_encrypt (SetTypeByString p s) = prop_encrypt p"
  by (simp_all add: SetTypeByString_def Let_def split: option.splits)

lemma SetTypeByString_type_cong:
  "prop_subtypes p = prop_subtypes q \<Longrightarrow> prop_decimal p = prop_decimal q \<Longrightarrow>
   prop_type (SetTypeByString p s) = prop_type (SetTypeByString q s) \<and>
   prop_subtypes (SetTypeByString p s) = prop_subtypes (SetTypeByString q s) \<and>
   prop_decimal (SetTypeByString p s) = prop_decimal (SetTypeByString q s)"
  by (simp add: SetTypeByString_def Let_def split: option.splits)

lemma fatal_on_error_Ret [go_simps]: "fatal_on_error m = Ret x \<longleftrightarrow> m = Ret x"
  by (cases m) simp_all

lemma UnmarshalDecimalExtra_nil [go_simps]:
  "UnmarshalDecimalExtra env data None = Ret d \<longleftrightarrow> data = [] \<and> d = None"
  by (auto simp: UnmarshalDecimalExtra_def)

lemma property_row_Ret:
  assumes "property_row env (tt_Headers t) values = Ret p"
  shows "prop_name p = field t values ''name'' [] \<and>
    prop_schema p = field t values ''schema'' ''0'' \<and>
    prop_description p = field t values ''description'' [] \<and>
    prop_encrypt p = field t values ''encrypt'' [] \<and>
    prop_read p = (field t values ''read'' ''0'' = ''1'') \<and>
    prop_write p = (field t values ''write'' ''0'' = ''1'') \<and>
    parse_bool (field t values ''lte'' ''false'') = (prop_lte p, None) \<and>
    field t values ''extra'' [] = [] \<and>
    prop_type p = prop_type (SetTypeByString empty_property (field t values ''type'' [])) \<and>
    prop_subtypes p = prop_subtypes (SetTypeByString empty_property (field t values ''type'' [])) \<and>
    prop_decimal p = prop_decimal (SetTypeByString empty_property (field t values ''type'' []))"
proof -
  from assms obtain m where m: "row_values_map (tt_Headers t) 0 values Map.empty = Ret m"
    by (auto simp: property_row_def go_simps)
  from row_values_map_Ret [OF m] have f: "getOrDefault n d m = field t values n d" for n d
    by (simp add: field_def)
  have e: "err_val r = Ret x \<longleftrightarrow> r = (x, None)" for r :: "bool \<times> go_error option" and x
    by (cases r; cases "snd r") auto
  let ?q = "\<lambda>lte. empty_property\<lparr>prop_name := field t values ''name'' [],
            prop_description := field t values ''description'' [], prop_lte := lte,
            prop_read := (field t values ''read'' ''0'' = ''1''),
            prop_write := (field t values ''write'' ''0'' = ''1''),
            prop_schema := field t values ''schema'' ''0'', prop_decimal := None,
            prop_encrypt := field t values ''encrypt'' []\<rparr>"
  let ?ty = "field t values ''type'' []"
  from assms m f obtain lte where l: "parse_bool (field t values ''lte'' ''false'') = (lte, None)"
    and x: "field t values ''extra'' [] = []" and p: "p = SetTypeByString (?q lte) ?ty"
    by (auto simp: property_row_def go_simps e)
  have "prop_subtypes (?q lte) = prop_subtypes empty_property"
    "prop_decimal (?q lte) = prop_decimal empty_property" by (simp_all add: empty_property_def)
  from SetTypeByString_type_cong [OF this, of ?ty] show ?thesis
    using l x unfolding p by (simp add: SetTypeByString_other)
qed

text \<open>
  Reading a property table gives one property per row, each filled from the
  columns by their header names, whatever their order and whichever are missing; the decimal
  precision and scale can only come from the type string, because a row with anything in its
  \<open>extra\<close> column ends the process.
\<close>

theorem properties_by_header:
  assumes "AsProperties env di = Ret ps" "di_Data di = DTable t" "di_Type di = RT_TABLE"
  shows "length ps = length (tt_TableRows t) \<and> (\<forall>i < length ps.
    let f = field t (tt_TableRows t ! i); ty = SetTypeByString empty_property (f ''type'' []) in
    prop_name (ps ! i) = f ''name'' [] \<and> prop_schema (ps ! i) = f ''schema'' ''0'' \<and>
    prop_read (ps ! i) = (f ''read'' ''0'' = ''1'') \<and> prop_write (ps ! i) = (f ''write'' ''0'' = ''1'') \<and>
    prop_type (ps ! i) = prop_type ty \<and> prop_subtypes (ps ! i) = prop_subtypes ty \<and>
    prop_decimal (ps ! i) = prop_decimal ty \<and> f ''extra'' [] = [])"
proof -
  from assms have m: "go_map (property_row env (tt_Headers t)) (tt_TableRows t) = Ret ps"
    by (auto simp: AsProperties_def table_item_def split: if_splits)
  have "property_row env (tt_Headers t) (tt_TableRows t ! i) = Ret (ps ! i)" if "i < length ps" for i
    using go_map_nth [OF m] go_map_length [OF m] that by simp
  from property_row_Ret [OF this] show ?thesis
    using go_map_length [OF m] by (simp add: Let_def)
qed

theorem properties_by_header_witness:
  "\<exists>p. AsProperties toy_json_env (table_data_item (sample_property_table [])) = Ret [p] \<and>
    prop_name p = ''age''"
proof -
  obtain p where p: "AsProperties toy_json_env (table_data_item (sample_property_table [])) = Ret [p]"
    using sample_properties by blast
  have "prop_name p = field (sample_property_table []) (tt_TableRows (sample_property_table []) ! 0) ''name'' []"
    using properties_by_header [OF p, of "sample_property_table []"]
    by (simp add: table_data_item_def Let_def)
  also have "\<dots> = ''age''"
    by (simp add: field_def sample_property_table_def string_column_def getOrDefault_def)
  finally show ?thesis using p by blast
qed

text \<open>
  A property table with a row whose \<open>extra\<close> column is not empty is never read: the
  first such row, when the rows before it are readable and its own flag parses, ends the
  process.
\<close>

theorem decimal_extra_is_fatal:
  assumes "tt_TableRows t = pre @ values # post" "tt_TableName t = ''_nodeProperty''"
    "go_map (property_row env (tt_Headers t)) pre = Ret ps"
    "length (tt_Headers t) \<le> length values" "field t values ''extra'' [] \<noteq> []"
    "parse_bool (field t values ''lte'' ''false'') = (b, None)"
  shows "AsProperties env \<lparr>di_Alias = a, di_Type = RT_TABLE, di_Data = DTable t\<rparr> = Panic Fatal"
proof -
  have "i + length hs \<le> length values \<Longrightarrow> is_ret (row_values_map hs i values m)" for hs i m
    by (induction hs arbitrary: i m) (simp_all add: go_nth_def)
  from this [of 0 "tt_Headers t" Map.empty] assms(4) obtain m where
    m: "row_values_map (tt_Headers t) 0 values Map.empty = Ret m" by (auto simp: is_ret_iff)
  from row_values_map_Ret [OF m] have "getOrDefault n d m = field t values n d" for n d
    by (simp add: field_def)
  with m assms(5,6) have "property_row env (tt_Headers t) values = Panic Fatal"
    by (simp add: property_row_def UnmarshalDecimalExtra_def)
  with assms(3) have "go_map (property_row env (tt_Headers t)) (pre @ values # post) = Panic Fatal"
    by (induction pre arbitrary: ps) (auto simp: go_simps)
  then show ?thesis using assms(1,2) by (simp add: AsProperties_def table_item_def)
qed

theorem decimal_extra_is_fatal_witness:
  "AsProperties toy_json_env (table_data_item (sample_property_table ''{}'')) = Panic Fatal"
proof -
  let ?t = "sample_property_table ''{}''"
  have "AsProperties toy_json_env \<lparr>di_Alias = tt_TableName ?t, di_Type = RT_TABLE, di_Data = DTable ?t\<rparr>
      = Panic Fatal"
    by (rule decimal_extra_is_fatal [of ?t "[]" "map bytes_of [''{}'', ''false'', ''age'', ''int32'']"
        "[]" toy_json_env "[]" False])
      (simp_all add: sample_property_table_def string_column_def field_def getOrDefault_def
        parse_bool_def)
  then show ?thesis by (simp add: table_data_item_def)
qed


end
