(* ===== verification/Catalog.thy ===== *)
theory Catalog
  imports Api Names DataTables
begin

text \<open>
  \<open>sdk/api/schema.go\<close>, \<open>property.go\<close>, \<open>graph.go\<close> and \<open>model.go\<close>: reading and changing the schemas,
  properties and graphs of the database. Each operation checks its arguments, builds one
  statement, sends it and reads the response. A nil result beside a nil error is \<open>None\<close>.
\<close>

section \<open>Building and reading\<close>

text \<open>A name checked and quoted; \<open>what\<close> and \<open>shown\<close> are the text of the error.\<close>

definition named_error :: "gostring \<Rightarrow> gostring \<Rightarrow> 'a go \<Rightarrow> 'a go" where
  "named_error what shown r =
     (case r of Fail e \<Rightarrow> Fail (Err (error_text e @ '', '' @ what @ '' = '' @ shown)) | _ \<Rightarrow> r)"

definition quoted :: "gostring \<Rightarrow> gostring \<Rightarrow> gostring \<Rightarrow> gostring go" where
  "quoted what name shown = named_error what shown (CheckReplaceSchemaPropertyName name)"

definition db_type_error :: "'a go" where
  "db_type_error = Fail (Err ''DBType must be DBType_DBNODE or DBType_DBEDGE'')"

text \<open>\<open>node\<close> or \<open>edge\<close> in the name of a statement.\<close>

definition db_word :: "db_type \<Rightarrow> gostring go" where
  "db_word t = (case t of DBNODE \<Rightarrow> Ret ''node'' | DBEDGE \<Rightarrow> Ret ''edge'' | _ \<Rightarrow> db_type_error)"

definition dq :: "gostring \<Rightarrow> gostring" where
  "dq s = CHR 0x22 # s @ [CHR 0x22]"

text \<open>A statement that is built, unless its guards fail, and sent.\<close>

definition send ::
  "'a json_env_scheme \<Rightarrow> server \<Rightarrow> gostring go \<Rightarrow> request_config option \<Rightarrow> response action" where
  "send env srv uql config = act_bind (act_lift uql) (\<lambda>uql. Uql env srv uql config)"

text \<open>The reader of one item of a successful response.\<close>

definition success :: "server \<Rightarrow> response \<Rightarrow> unit go" where
  "success srv resp = (if \<not> IsSuccess (Some resp)
     then Fail (sv_errorf srv (st_Message (rs_Status resp))) else Ret ())"

definition item :: "gostring \<Rightarrow> (data_item \<Rightarrow> 'b go) \<Rightarrow> response \<Rightarrow> 'b go" where
  "item key reader resp = go_bind (Alias resp key) reader"

definition show_items ::
  "'a json_env_scheme \<Rightarrow> server \<Rightarrow> gostring go \<Rightarrow> (response \<Rightarrow> 'b go) \<Rightarrow> request_config option
   \<Rightarrow> 'b action" where
  "show_items env srv uql reader config =
     act_bind (send env srv uql config) (\<lambda>resp.
       act_lift (go_bind (success srv resp) (\<lambda>_. reader resp)))"

record exist_check =
  ec_Exist :: bool
  ec_Response :: "response option"

section \<open>Schemas\<close>

definition ShowSchema ::
  "'a json_env_scheme \<Rightarrow> server \<Rightarrow> request_config option \<Rightarrow> schema list action" where
  "ShowSchema env srv config =
     show_items env srv (Ret ''show().schema()'') (\<lambda>resp.
       go_bind (item ''_nodeSchema'' (AsSchemas env) resp) (\<lambda>nodeSchemas.
       go_bind (item ''_edgeSchema'' (AsSchemas env) resp) (\<lambda>edgeSchemas.
       go_bind (item ''_graphCount'' AsGraphCount resp) (\<lambda>graphCount.
         let schemas = nodeSchemas @ edgeSchemas
         in if graphCount = [] then Ret schemas
            else let schemas = map (\<lambda>s. SetStatsByGraphCount s graphCount) schemas
                 in if schemas = [] then Fail (Err ''no data return'') else Ret schemas)))) config"

definition ShowNodeSchema ::
  "'a json_env_scheme \<Rightarrow> server \<Rightarrow> request_config option \<Rightarrow> schema list action" where
  "ShowNodeSchema env srv config =
     act_bind (ShowSchema env srv config) (\<lambda>schemas.
       act_lift (Ret (filter (\<lambda>s. sc_DBType s = DBNODE) schemas)))"

definition ShowEdgeSchema ::
  "'a json_env_scheme \<Rightarrow> server \<Rightarrow> request_config option \<Rightarrow> schema list action" where
  "ShowEdgeSchema env srv config =
     act_bind (ShowSchema env srv config) (\<lambda>schemas.
       act_lift (Ret (filter (\<lambda>s. sc_DBType s = DBEDGE) schemas)))"

definition GetSchema ::
  "'a json_env_scheme \<Rightarrow> server \<Rightarrow> gostring \<Rightarrow> db_type \<Rightarrow> request_config option
   \<Rightarrow> schema option action" where
  "GetSchema env srv schemaName dbType config =
     (if \<not> (dbType = DBNODE \<or> dbType = DBEDGE) then act_lift db_type_error
      else act_bind (ShowSchema env srv config) (\<lambda>schemas.
        act_lift (Ret (List.find (\<lambda>s. schemaName = sc_Name s \<and> sc_DBType s = dbType) schemas))))"

definition GetNodeSchema where
  "GetNodeSchema env srv schemaName config = GetSchema env srv schemaName DBNODE config"

definition GetEdgeSchema where
  "GetEdgeSchema env srv schemaName config = GetSchema env srv schemaName DBEDGE config"

section \<open>Creating properties\<close>

definition create_property_uql :: "db_type \<Rightarrow> property \<Rightarrow> gostring go" where
  "create_property_uql dbType p =
     go_bind (GetStringType p) (\<lambda>propertyTypeStr.
     go_bind (quoted ''schemaName'' (prop_schema p) []) (\<lambda>schemaName.
     go_bind (quoted ''propertyName'' (prop_name p) (prop_name p)) (\<lambda>propertyName.
     go_bind (db_word dbType) (\<lambda>params.
       let uql = ''create().'' @ params @ ''_property(@'' @ schemaName @ '','' @ propertyName
             @ '','' @ dq propertyTypeStr @ '','' @ dq (prop_description p) @ '')''
       in if prop_encrypt p \<in> {''AES128'', ''AES256'', ''RSA'', ''ECC''}
          then Ret (uql @ ''.encrypt('' @ dq (prop_encrypt p) @ '')'')
          else if prop_encrypt p = [] then Ret uql
          else Fail (Err (''invalid property encrypt: '' @ prop_encrypt p))))))"

definition CreateProperty ::
  "'a json_env_scheme \<Rightarrow> server \<Rightarrow> db_type \<Rightarrow> property option \<Rightarrow> request_config option
   \<Rightarrow> response option action" where
  "CreateProperty env srv dbType property config =
     (case property of
        None \<Rightarrow> act_lift (Fail (Err ''create property: property can not be nil''))
      | Some p \<Rightarrow>
          if prop_schema p = [] then act_lift (Fail (Err ''property.Schema can not empty''))
          else if prop_name p = [] then act_lift (Fail (Err ''property.Name can not empty''))
          else if prop_type p = PT_UNSET then act_lift (Fail (Err ''property.Type unset''))
          else act_bind (act_lift (db_word dbType)) (\<lambda>_.
            if prop_type p = PT_IGNORE then act_lift (Ret None)
            else act_bind (send env srv (create_property_uql dbType p) config) (\<lambda>resp.
              act_lift (Ret (Some resp)))))"

definition CreateNodeProperty where
  "CreateNodeProperty env srv property config = CreateProperty env srv DBNODE property config"

definition CreateEdgeProperty where
  "CreateEdgeProperty env srv property config = CreateProperty env srv DBEDGE property config"

text \<open>The properties of a new schema, until one is refused: its response is returned.\<close>

fun create_properties ::
  "'a json_env_scheme \<Rightarrow> server \<Rightarrow> db_type \<Rightarrow> gostring \<Rightarrow> property list \<Rightarrow> request_config option
   \<Rightarrow> response option action" where
  "create_properties env srv dbType name [] config = act_lift (Ret None)"
| "create_properties env srv dbType name (p # ps) config =
     (if IsIDType p \<or> IsIgnore p then create_properties env srv dbType name ps config
      else act_bind (CreateProperty env srv dbType (Some (p\<lparr>prop_schema := name\<rparr>)) config) (\<lambda>resp.
        act_bind (act_lift (deref resp)) (\<lambda>resp.
          if st_Code (rs_Status resp) \<noteq> SUCCESS then act_lift (Ret (Some resp))
          else create_properties env srv dbType name ps config)))"

definition create_schema_uql :: "schema \<Rightarrow> gostring go" where
  "create_schema_uql s =
     go_bind (quoted ''schemaName'' (sc_Name s) (sc_Name s)) (\<lambda>schemaName.
     go_bind (db_word (sc_DBType s)) (\<lambda>w.
       Ret (''create().'' @ w @ ''_schema('' @ schemaName @ '','' @ dq (sc_Description s) @ '')'')))"

definition CreateSchema ::
  "'a json_env_scheme \<Rightarrow> server \<Rightarrow> schema option \<Rightarrow> bool \<Rightarrow> request_config option
   \<Rightarrow> response action" where
  "CreateSchema env srv sch isCreateProperties config =
     (case sch of
        None \<Rightarrow> act_lift (Fail (Err ''CreateSchema: schema can not nil''))
      | Some s \<Rightarrow>
          if sc_Name s = [] then act_lift (Fail (Err ''schemaName can not empty ''))
          else act_bind (send env srv (create_schema_uql s) config) (\<lambda>resp.
            if \<not> isCreateProperties then act_lift (Ret resp)
            else act_bind (create_properties env srv (sc_DBType s) (sc_Name s) (sc_Properties s) config)
              (\<lambda>refused. act_lift (Ret (case refused of None \<Rightarrow> resp | Some r \<Rightarrow> r)))))"

text \<open>The name of a nil schema is a nil dereference; the response of the creation is dropped.\<close>

definition CreateSchemaIfNotExist ::
  "'a json_env_scheme \<Rightarrow> server \<Rightarrow> schema option \<Rightarrow> bool \<Rightarrow> request_config option
   \<Rightarrow> exist_check action" where
  "CreateSchemaIfNotExist env srv sch isCreateProperties config =
     act_bind (act_lift (deref sch)) (\<lambda>s.
     act_try (GetSchema env srv (sc_Name s) (sc_DBType s) config)
       (\<lambda>e. act_lift (Fail (Err (''GetSchema error, '' @ error_text e))))
       (\<lambda>found. case found of
          Some _ \<Rightarrow> act_lift (Ret \<lparr>ec_Exist = True, ec_Response = None\<rparr>)
        | None \<Rightarrow> act_bind (CreateSchema env srv sch isCreateProperties config)
            (\<lambda>resp. act_lift (Ret \<lparr>ec_Exist = False, ec_Response = None\<rparr>))))"

definition DropSchema ::
  "'a json_env_scheme \<Rightarrow> server \<Rightarrow> schema option \<Rightarrow> request_config option \<Rightarrow> job_response action"
  where
  "DropSchema env srv sch config =
     (case sch of
        None \<Rightarrow> act_lift (Fail (Err ''drop schema: schema can not be nil''))
      | Some s \<Rightarrow>
          if sc_Name s = [] then act_lift (Fail (Err ''drop schema: schema name can not be empty''))
          else act_bind (send env srv
              (go_bind (quoted ''schemaName'' (sc_Name s) (sc_Name s)) (\<lambda>schemaName.
               go_bind (db_word (sc_DBType s)) (\<lambda>w.
                 Ret (''drop().'' @ w @ ''_schema(@'' @ schemaName @ '')'')))) config)
            (\<lambda>resp. act_lift (GetJobResponseFromUqlResponse env (Some resp))))"

text \<open>Quotes of the new name are escaped, those of the description are not.\<close>

definition escape_quotes :: "gostring \<Rightarrow> gostring" where
  "escape_quotes s = concat (map (\<lambda>c. if c = CHR 0x22 then [CHR 0x5C, c] else [c]) s)"

definition alter_schema_uql :: "schema \<Rightarrow> schema option \<Rightarrow> gostring go" where
  "alter_schema_uql originalSchema newSchema =
     go_bind (quoted ''schemaName'' (sc_Name originalSchema) (sc_Name originalSchema)) (\<lambda>schemaName.
     go_bind (deref newSchema) (\<lambda>new.
     go_bind (named_error ''schemaName'' (sc_Name new) (CheckName (sc_Name new))) (\<lambda>_.
     go_bind (db_word (sc_DBType originalSchema)) (\<lambda>w.
       let front = ''alter().'' @ w @ ''_schema(@'' @ schemaName @ '').set({''
       in Ret (if sc_Name new = []
          then front @ ''description: '' @ dq (sc_Description new) @ ''})''
          else front @ ''name: '' @ dq (escape_quotes (sc_Name new)) @ '', description: ''
            @ dq (sc_Description new) @ ''})'')))))"

definition AlterSchema ::
  "'a json_env_scheme \<Rightarrow> server \<Rightarrow> schema option \<Rightarrow> schema option \<Rightarrow> request_config option
   \<Rightarrow> response action" where
  "AlterSchema env srv originalSchema newSchema config =
     act_bind (act_lift (deref originalSchema)) (\<lambda>original.
       send env srv (alter_schema_uql original newSchema) config)"

section \<open>Properties\<close>

text \<open>The readers drop the error of \<open>AsProperties\<close>, which comes with a nil list.\<close>

definition drop_error :: "'b list go \<Rightarrow> 'b list go" where
  "drop_error r = (case r of Fail e \<Rightarrow> Ret [] | _ \<Rightarrow> r)"

definition show_property_uql :: "gostring \<Rightarrow> gostring \<Rightarrow> gostring go" where
  "show_property_uql w schemaName =
     go_bind (quoted ''schemaName'' schemaName []) (\<lambda>name.
       Ret (''show().'' @ w @ ''_property(''
         @ (if name = [] \<or> name = ''*'' then [] else CHR ''@'' # name) @ '')''))"

definition ShowNodeProperty ::
  "'a json_env_scheme \<Rightarrow> server \<Rightarrow> gostring \<Rightarrow> request_config option \<Rightarrow> property list action" where
  "ShowNodeProperty env srv schemaName config =
     show_items env srv (show_property_uql ''node'' schemaName)
       (\<lambda>resp. drop_error (item ''_nodeProperty'' (AsProperties env) resp)) config"

definition ShowEdgeProperty ::
  "'a json_env_scheme \<Rightarrow> server \<Rightarrow> gostring \<Rightarrow> request_config option \<Rightarrow> property list action" where
  "ShowEdgeProperty env srv schemaName config =
     show_items env srv (show_property_uql ''edge'' schemaName)
       (\<lambda>resp. drop_error (item ''_edgeProperty'' (AsProperties env) resp)) config"

text \<open>Asked for both, the error of the first is overwritten by the second.\<close>

definition ShowProperty ::
  "'a json_env_scheme \<Rightarrow> server \<Rightarrow> db_type \<Rightarrow> gostring \<Rightarrow> request_config option
   \<Rightarrow> (property list \<times> property list) action" where
  "ShowProperty env srv dbType schemaName config =
     (case dbType of
        DBNODE \<Rightarrow> act_bind (ShowNodeProperty env srv schemaName config)
          (\<lambda>ps. act_lift (Ret (ps, [])))
      | DBEDGE \<Rightarrow> act_bind (ShowEdgeProperty env srv schemaName config)
          (\<lambda>ps. act_lift (Ret ([], ps)))
      | _ \<Rightarrow>
          let edges = (\<lambda>ns. act_bind (ShowEdgeProperty env srv schemaName config)
                (\<lambda>es. act_lift (Ret (ns, es))))
          in act_try (ShowNodeProperty env srv schemaName config) (\<lambda>e. edges []) edges)"

definition api_GetProperty ::
  "'a json_env_scheme \<Rightarrow> server \<Rightarrow> db_type \<Rightarrow> gostring \<Rightarrow> gostring \<Rightarrow> request_config option
   \<Rightarrow> property option action" where
  "api_GetProperty env srv dbType schemaName propertyName config =
     act_bind (GetSchema env srv schemaName dbType config) (\<lambda>s. act_lift (Ret
       (case s of
          None \<Rightarrow> None
        | Some s \<Rightarrow> List.find (\<lambda>p. prop_name p = propertyName) (sc_Properties s))))"

definition GetNodeProperty where
  "GetNodeProperty env srv schemaName propertyName config =
     api_GetProperty env srv DBNODE schemaName propertyName config"

definition GetEdgeProperty where
  "GetEdgeProperty env srv schemaName propertyName config =
     api_GetProperty env srv DBEDGE schemaName propertyName config"

definition CreatePropertyIfNotExist ::
  "'a json_env_scheme \<Rightarrow> server \<Rightarrow> db_type \<Rightarrow> property option \<Rightarrow> request_config option
   \<Rightarrow> exist_check action" where
  "CreatePropertyIfNotExist env srv dbType property config =
     act_bind (act_lift (deref property)) (\<lambda>p.
     act_bind (api_GetProperty env srv dbType (prop_schema p) (prop_name p) config) (\<lambda>found.
       case found of
         Some _ \<Rightarrow> act_lift (Ret \<lparr>ec_Exist = True, ec_Response = None\<rparr>)
       | None \<Rightarrow> act_bind (CreateProperty env srv dbType property config) (\<lambda>resp.
           act_lift (Ret \<lparr>ec_Exist = False, ec_Response = resp\<rparr>))))"

definition drop_property_uql :: "db_type \<Rightarrow> property \<Rightarrow> gostring go" where
  "drop_property_uql dbType p =
     (if prop_schema p = [] then Fail (Err ''property.Schema can not empty'')
      else if prop_name p = [] then Fail (Err ''property.Name can not empty'')
      else go_bind (quoted ''schemaName'' (prop_schema p) []) (\<lambda>schemaName.
        go_bind (quoted ''propertyName'' (prop_name p) []) (\<lambda>propertyName.
        go_bind (db_word dbType) (\<lambda>w.
          Ret (''drop().'' @ w @ ''_property(@'' @ schemaName @ ''.'' @ propertyName @ '')'')))))"

definition DropProperty ::
  "'a json_env_scheme \<Rightarrow> server \<Rightarrow> db_type \<Rightarrow> property option \<Rightarrow> request_config option
   \<Rightarrow> response action" where
  "DropProperty env srv dbType property config =
     act_bind (act_lift (deref property)) (\<lambda>p. send env srv (drop_property_uql dbType p) config)"

definition DropNodeProperty where
  "DropNodeProperty env srv property config = DropProperty env srv DBNODE property config"

definition DropEdgeProperty where
  "DropEdgeProperty env srv property config = DropProperty env srv DBEDGE property config"

definition alter_property_uql :: "db_type \<Rightarrow> property option \<Rightarrow> property option \<Rightarrow> gostring go" where
  "alter_property_uql dbType originProp newProp =
     (case (originProp, newProp) of
        (None, _) \<Rightarrow> Fail (Err ''alter property: originProp can not be nil'')
      | (Some original, None) \<Rightarrow> Fail (Err ''alter property: newProp can not be nil'')
      | (Some original, Some new) \<Rightarrow>
          if prop_schema original = [] \<or> prop_name original = []
          then Fail (Err ''alter property: originProp Schema/Name can not be empty'')
          else if prop_name new = [] \<and> prop_description new = []
          then Fail (Err ''alter property: newProp Name/Description cannot be empty at the same time'')
          else go_bind (db_word dbType) (\<lambda>w.
            go_bind (quoted ''schemaName'' (prop_schema original) (prop_schema original)) (\<lambda>schemaName.
            go_bind (quoted ''propertyName'' (prop_name original) (prop_name original)) (\<lambda>propertyName.
              let front = ''alter().'' @ w @ ''_property(@'' @ schemaName @ ''.'' @ propertyName
                    @ '').set({'';
                  name = ''name: '' @ dq (prop_name new);
                  description = ''description: '' @ dq (prop_description new)
              in Ret (front @ (if prop_description new = [] then name
                 else if prop_name new = [] then description
                 else name @ '', '' @ description) @ ''})'')))))"

definition AlterProperty where
  "AlterProperty env srv dbType originProp newProp config =
     send env srv (alter_property_uql dbType originProp newProp) config"

definition AlterNodeProperty where
  "AlterNodeProperty env srv originProp newProp config =
     AlterProperty env srv DBNODE originProp newProp config"

definition AlterEdgeProperty where
  "AlterEdgeProperty env srv originProp newProp config =
     AlterProperty env srv DBEDGE originProp newProp config"

section \<open>Graphs\<close>

definition ShowGraph ::
  "'a json_env_scheme \<Rightarrow> server \<Rightarrow> request_config option \<Rightarrow> graph_set list action" where
  "ShowGraph env srv config =
     show_items env srv (Ret ''show().graph().more()'') (item ''_graph'' (AsGraphSets env)) config"

definition HasGraph ::
  "'a json_env_scheme \<Rightarrow> server \<Rightarrow> gostring \<Rightarrow> request_config option \<Rightarrow> bool action" where
  "HasGraph env srv graphName config =
     act_bind (ShowGraph env srv config) (\<lambda>graphSets.
       act_lift (Ret (list_ex (\<lambda>g. gs_Name g = graphName) graphSets)))"

definition api_GetGraph ::
  "'a json_env_scheme \<Rightarrow> server \<Rightarrow> gostring \<Rightarrow> request_config option \<Rightarrow> graph_set action" where
  "api_GetGraph env srv graphName config =
     act_bind (ShowGraph env srv config) (\<lambda>graphSets.
       act_lift (case List.find (\<lambda>g. gs_Name g = graphName) graphSets of
           Some g \<Rightarrow> Ret g | None \<Rightarrow> Fail (Err ''graph not found'')))"

definition create_graph_uql :: "graph_set option \<Rightarrow> gostring go" where
  "create_graph_uql graphSet =
     (case graphSet of
        None \<Rightarrow> Fail (Err ''graphSet cannot be nil'')
      | Some g \<Rightarrow>
          if gs_Name g = [] then Fail (Err ''graphSet name is required'')
          else Ret (''create().graph('' @ dq (gs_Name g)
            @ (if gs_Description g = [] then [] else '', '' @ dq (gs_Description g)) @ '')''
            @ (if gs_Shards g = [] then [] else ''.shards(['' @ join '','' (gs_Shards g) @ ''])'')
            @ (if gs_PartitionBy g = [] then []
               else ''.partitionByHash('' @ gs_PartitionBy g @ '',_id)'')))"

definition CreateGraph where
  "CreateGraph env srv graphSet config = send env srv (create_graph_uql graphSet) config"

text \<open>An error of the look-up is overwritten by the creation that follows.\<close>

definition CreateGraphIfNotExist ::
  "'a json_env_scheme \<Rightarrow> server \<Rightarrow> graph_set option \<Rightarrow> request_config option
   \<Rightarrow> exist_check action" where
  "CreateGraphIfNotExist env srv graphSet config =
     act_bind (act_lift (deref graphSet)) (\<lambda>g.
     let create = act_bind (CreateGraph env srv graphSet config) (\<lambda>resp.
           act_lift (Ret \<lparr>ec_Exist = False, ec_Response = Some resp\<rparr>))
     in act_try (HasGraph env srv (gs_Name g) config) (\<lambda>e. create)
       (\<lambda>exist. if exist then act_lift (Ret \<lparr>ec_Exist = True, ec_Response = None\<rparr>) else create))"

definition DropGraph where
  "DropGraph env srv graphName config =
     send env srv (Ret (''drop().graph('' @ dq graphName @ '')'')) config"

definition alter_graph_uql :: "gostring \<Rightarrow> graph_set option \<Rightarrow> gostring go" where
  "alter_graph_uql graphName alterGraphSet =
     (if graphName = [] then Fail (Err ''graphName is required'')
      else case alterGraphSet of
        None \<Rightarrow> Fail (Err ''alterGraphSet cannot be nil'')
      | Some g \<Rightarrow>
          if gs_Name g = [] \<and> gs_Description g = []
          then Fail (Err ''alterGraphSet name/description cannot be empty at the same time'')
          else
            let name = ''name: '' @ dq (gs_Name g);
                description = ''description: '' @ dq (gs_Description g)
            in Ret (''alter().graph('' @ dq graphName @ '').set({''
              @ (if gs_Description g = [] then name
                 else if gs_Name g = [] then description
                 else name @ '', '' @ description) @ ''})''))"

definition AlterGraph where
  "AlterGraph env srv graphName alterGraphSet config =
     send env srv (alter_graph_uql graphName alterGraphSet) config"

record truncate_params =
  tp_GraphName :: gostring
  tp_SchemaName :: gostring
  tp_DBType :: "db_type option"

definition truncate_uql :: "truncate_params \<Rightarrow> gostring go" where
  "truncate_uql params =
     (let dbType = (case tp_DBType params of None \<Rightarrow> DBGLOBAL | Some t \<Rightarrow> t);
          front = ''truncate().graph('' @ dq (tp_GraphName params) @ '')''
      in go_bind (named_error ''graphName'' (tp_GraphName params)
            (CheckReplaceSchemaPropertyName (tp_SchemaName params))) (\<lambda>schemaName.
         if tp_SchemaName params \<noteq> [] \<and> \<not> (dbType = DBNODE \<or> dbType = DBEDGE)
         then Fail (Err ''to truncate schema, DBType is required in the parameters'')
         else if tp_SchemaName params = [] \<and> dbType \<noteq> DBGLOBAL
         then Fail (Err ''to truncate graph, dbType must be DBType_DBGLOBAL or nil'')
         else
           let name = (if tp_SchemaName params = ''*'' then dq ''*'' else CHR ''@'' # schemaName)
           in Ret (case dbType of
               DBNODE \<Rightarrow> front @ ''.nodes('' @ name @ '')''
             | DBEDGE \<Rightarrow> front @ ''.edges('' @ name @ '')''
             | _ \<Rightarrow> front)))"

text \<open>What is left in the caller's parameters: the type filled in, and the name as it was sent.\<close>

definition truncate_after :: "truncate_params \<Rightarrow> truncate_params" where
  "truncate_after params =
     (let dbType = (case tp_DBType params of None \<Rightarrow> DBGLOBAL | Some t \<Rightarrow> t);
          params = params\<lparr>tp_DBType := Some dbType\<rparr>
      in case CheckReplaceSchemaPropertyName (tp_SchemaName params) of
           Ret schemaName \<Rightarrow>
             if tp_SchemaName params = [] \<or> \<not> (dbType = DBNODE \<or> dbType = DBEDGE) then params
             else params\<lparr>tp_SchemaName :=
               if tp_SchemaName params = ''*'' then dq ''*'' else CHR ''@'' # schemaName\<rparr>
         | _ \<Rightarrow> params)"

definition Truncate ::
  "'a json_env_scheme \<Rightarrow> server \<Rightarrow> truncate_params option \<Rightarrow> request_config option
   \<Rightarrow> response action" where
  "Truncate env srv params config =
     act_bind (act_lift (deref params)) (\<lambda>p. send env srv (truncate_uql p) config)"

definition Compact ::
  "'a json_env_scheme \<Rightarrow> server \<Rightarrow> gostring \<Rightarrow> request_config option \<Rightarrow> job_response action" where
  "Compact env srv graphName config =
     act_bind (send env srv (Ret (''compact().graph('' @ dq graphName @ '')'')) config)
       (\<lambda>resp. act_lift (GetJobResponseFromUqlResponse env (Some resp)))"

section \<open>Building a whole model\<close>

record graph_model =
  gm_Graph :: "graph_set option"
  gm_Schemas :: "schema option list"

definition NewGraphModel :: "graph_set option \<Rightarrow> graph_model" where
  "NewGraphModel g = \<lparr>gm_Graph = g, gm_Schemas = []\<rparr>"

definition AddSchema :: "graph_model \<Rightarrow> schema option \<Rightarrow> graph_model" where
  "AddSchema gm s = gm\<lparr>gm_Schemas := gm_Schemas gm @ [s]\<rparr>"

fun for_each :: "('b \<Rightarrow> unit action) \<Rightarrow> 'b list \<Rightarrow> unit action" where
  "for_each f [] = act_lift (Ret ())"
| "for_each f (x # xs) = act_bind (f x) (\<lambda>_. for_each f xs)"

text \<open>The properties of a schema that exists are created with no request configuration.\<close>

definition init_schema ::
  "'a json_env_scheme \<Rightarrow> server \<Rightarrow> request_config option \<Rightarrow> schema option \<Rightarrow> unit action" where
  "init_schema env srv config sch =
     act_bind (CreateSchemaIfNotExist env srv sch False config) (\<lambda>rwc.
     if ec_Exist rwc then
       act_bind (act_lift (deref sch)) (\<lambda>s.
         for_each (\<lambda>p. act_bind (CreatePropertyIfNotExist env srv (sc_DBType s) (Some p) None)
           (\<lambda>_. act_lift (Ret ()))) (sc_Properties s))
     else act_lift (Ret ()))"

definition InitModel ::
  "'a json_env_scheme \<Rightarrow> server \<Rightarrow> graph_model \<Rightarrow> request_config option \<Rightarrow> unit action" where
  "InitModel env srv model config =
     act_bind (act_lift (deref (gm_Graph model))) (\<lambda>g.
     act_bind (HasGraph env srv (gs_Name g) config) (\<lambda>graphExist.
     act_bind (if graphExist then act_lift (Ret ())
               else act_bind (CreateGraph env srv (gm_Graph model) None) (\<lambda>_. act_lift (Ret ())))
       (\<lambda>_. for_each (init_schema env srv config) (gm_Schemas model))))"

section \<open>What may be sent\<close>

definition starts :: "gostring list \<Rightarrow> call \<Rightarrow> bool" where
  "starts ps c \<longleftrightarrow> (case c of QueryCall h ctx req \<Rightarrow> list_ex (has_prefix (qq_QueryText req)) ps | _ \<Rightarrow> False)"

text \<open>An action that only queries, with statements that begin in one of the given ways.\<close>

abbreviation only_sends :: "gostring list \<Rightarrow> 'b action \<Rightarrow> bool" where
  "only_sends ps m \<equiv> allows (extends (starts ps)) m"

lemma Uql_sends:
  assumes "list_ex (has_prefix q) ps"
  shows "only_sends ps (Uql env srv q config)"
  unfolding allows_def
proof
  fix w
  obtain t n h ctx req where "fst (doExecuteQuery env srv q UQL config w) =
      \<lparr>wd_Pool = (wd_Pool w)\<lparr>cp_RandomTick := t\<rparr>,
       wd_Calls = wd_Calls w @ replicate n (QueryCall h ctx req)\<rparr>"
    "0 < n \<longrightarrow> qq_QueryText req = q"
    using doExecuteQuery_calls [of env srv q UQL config w] by blast
  moreover have "fst (Uql env srv q config w) = fst (doExecuteQuery env srv q UQL config w)"
    by (simp add: Uql_def api_query_def fst_act_bind split: go.split prod.split)
  ultimately show "extends (starts ps) w (fst (Uql env srv q config w))"
    using assms by (auto simp: extends_def starts_def list_all_iff)
qed

lemma send_sends:
  assumes "\<And>u. uql = Ret u \<Longrightarrow> list_ex (has_prefix u) ps"
  shows "only_sends ps (send env srv uql config)"
  unfolding send_def allows_def
proof
  fix w
  show "extends (starts ps) w (fst (act_bind (act_lift uql) (\<lambda>uql. Uql env srv uql config) w))"
    using assms Uql_sends [of _ ps env srv config]
    by (auto simp: fst_act_bind allows_def extends_refl split: go.split)
qed

lemma case_option_sends:
  "(x = None \<Longrightarrow> only_sends ps a) \<Longrightarrow> (\<And>y. x = Some y \<Longrightarrow> only_sends ps (b y)) \<Longrightarrow>
    only_sends ps (case x of None \<Rightarrow> a | Some y \<Rightarrow> b y)"
  by (cases x) auto

lemma if_sends:
  "(P \<Longrightarrow> only_sends ps a) \<Longrightarrow> (\<not> P \<Longrightarrow> only_sends ps b) \<Longrightarrow> only_sends ps (if P then a else b)"
  by simp

lemmas sends_intros = ext.lift ext.bind ext.handle send_sends case_option_sends if_sends

lemma show_items_sends:
  "(\<And>u. uql = Ret u \<Longrightarrow> list_ex (has_prefix u) ps) \<Longrightarrow>
    only_sends ps (show_items env srv uql reader config)"
  unfolding show_items_def by (intro sends_intros) auto

lemma ShowSchema_sends: "only_sends [''show().schema()''] (ShowSchema env srv config)"
  unfolding ShowSchema_def by (rule show_items_sends) (simp add: has_prefix_def)

lemma only_sends_mono:
  assumes "only_sends ps m" "\<And>p. p \<in> set ps \<Longrightarrow> list_ex (has_prefix p) qs"
  shows "only_sends qs m"
proof -
  have "starts ps c \<Longrightarrow> starts qs c" for c
    using assms(2) by (auto simp: starts_def list_ex_iff has_prefix_def intro: prefix_order.trans
        split: call.splits)
  then have "extends (starts ps) u v \<Longrightarrow> extends (starts qs) u v" for u v
    by (auto simp: extends_def list_all_iff)
  with assms(1) show ?thesis by (auto simp: allows_def)
qed

lemma GetSchema_sends: "only_sends [''show().schema()''] (GetSchema env srv name t config)"
  unfolding GetSchema_def by (intro sends_intros ShowSchema_sends)

lemma api_GetProperty_sends:
  "only_sends [''show().schema()''] (api_GetProperty env srv t schemaName propertyName config)"
  unfolding api_GetProperty_def by (intro sends_intros GetSchema_sends)

lemma ShowGraph_sends: "only_sends [''show().graph()''] (ShowGraph env srv config)"
  unfolding ShowGraph_def by (rule show_items_sends) (simp add: has_prefix_def)

lemma HasGraph_sends: "only_sends [''show().graph()''] (HasGraph env srv name config)"
  unfolding HasGraph_def by (intro sends_intros ShowGraph_sends)

lemma create_property_uql_prefix:
  "create_property_uql t p = Ret u \<Longrightarrow> has_prefix u ''create().''"
  by (auto simp: create_property_uql_def go_simps Let_def has_prefix_def split: if_splits)

lemma CreateProperty_sends: "only_sends [''create().''] (CreateProperty env srv t p config)"
  unfolding CreateProperty_def
  by (intro sends_intros) (auto dest: create_property_uql_prefix)

lemma create_graph_uql_prefix: "create_graph_uql g = Ret u \<Longrightarrow> has_prefix u ''create().''"
  by (auto simp: create_graph_uql_def has_prefix_def split: option.splits if_splits)

lemma CreateGraph_sends: "only_sends [''create().''] (CreateGraph env srv g config)"
  unfolding CreateGraph_def by (intro sends_intros) (auto dest: create_graph_uql_prefix)

lemma create_properties_sends:
  "only_sends [''create().''] (create_properties env srv t name ps config)"
proof (induction ps)
  case Nil
  then show ?case by (simp add: ext.lift)
next
  case (Cons p ps)
  then show ?case unfolding create_properties.simps
    by (intro sends_intros CreateProperty_sends)
qed

lemma create_schema_uql_prefix: "create_schema_uql s = Ret u \<Longrightarrow> has_prefix u ''create().''"
  by (auto simp: create_schema_uql_def go_simps has_prefix_def)

lemma CreateSchema_sends: "only_sends [''create().''] (CreateSchema env srv s b config)"
  unfolding CreateSchema_def
  by (intro sends_intros create_properties_sends) (auto dest: create_schema_uql_prefix)

text \<open>An action that only queries, with statements of a given set.\<close>

definition states :: "gostring set \<Rightarrow> call \<Rightarrow> bool" where
  "states Q c \<longleftrightarrow> (case c of QueryCall h ctx req \<Rightarrow> qq_QueryText req \<in> Q | _ \<Rightarrow> False)"

abbreviation only_states :: "gostring set \<Rightarrow> 'b action \<Rightarrow> bool" where
  "only_states Q m \<equiv> allows (extends (states Q)) m"

lemma Uql_states:
  assumes "q \<in> Q"
  shows "only_states Q (Uql env srv q config)"
  unfolding allows_def
proof
  fix w
  obtain t n h ctx req where "fst (Uql env srv q config w) =
      \<lparr>wd_Pool = (wd_Pool w)\<lparr>cp_RandomTick := t\<rparr>,
       wd_Calls = wd_Calls w @ replicate n (QueryCall h ctx req)\<rparr>"
    "0 < n \<longrightarrow> qq_QueryText req = q"
    using Uql_calls [of env srv q config w] by blast
  then show "extends (states Q) w (fst (Uql env srv q config w))"
    using assms by (auto simp: extends_def states_def list_all_iff)
qed

lemma send_states:
  assumes "\<And>u. uql = Ret u \<Longrightarrow> u \<in> Q"
  shows "only_states Q (send env srv uql config)"
  unfolding send_def allows_def
proof
  fix w
  show "extends (states Q) w (fst (act_bind (act_lift uql) (\<lambda>uql. Uql env srv uql config) w))"
    using assms Uql_states [of _ Q env srv config]
    by (auto simp: fst_act_bind allows_def extends_refl split: go.split)
qed

lemma case_option_states:
  "(x = None \<Longrightarrow> only_states Q a) \<Longrightarrow> (\<And>y. x = Some y \<Longrightarrow> only_states Q (b y)) \<Longrightarrow>
    only_states Q (case x of None \<Rightarrow> a | Some y \<Rightarrow> b y)"
  by (cases x) auto

lemma if_states:
  "(P \<Longrightarrow> only_states Q a) \<Longrightarrow> (\<not> P \<Longrightarrow> only_states Q b) \<Longrightarrow> only_states Q (if P then a else b)"
  by simp

lemma deref_states:
  "(\<And>y. x = Some y \<Longrightarrow> only_states Q (f y)) \<Longrightarrow> only_states Q (act_bind (act_lift (deref x)) f)"
  by (cases x) (auto simp: deref_def ext.lift)

lemmas states_intros = deref_states ext.lift ext.bind ext.handle send_states case_option_states if_states

lemma show_items_states:
  "(\<And>u. uql = Ret u \<Longrightarrow> u \<in> Q) \<Longrightarrow> only_states Q (show_items env srv uql reader config)"
  unfolding show_items_def by (intro states_intros) auto

lemma GetSchema_states: "''show().schema()'' \<in> Q \<Longrightarrow> only_states Q (GetSchema env srv name t config)"
  unfolding GetSchema_def ShowSchema_def by (intro states_intros show_items_states) auto

lemma HasGraph_states: "''show().graph().more()'' \<in> Q \<Longrightarrow> only_states Q (HasGraph env srv name config)"
  unfolding HasGraph_def ShowGraph_def by (intro states_intros show_items_states) auto

lemma CreateProperty_states:
  "(\<And>u. create_property_uql t p = Ret u \<Longrightarrow> u \<in> Q) \<Longrightarrow> only_states Q (CreateProperty env srv t (Some p) config)"
  unfolding CreateProperty_def by (intro states_intros) auto

lemma create_properties_states:
  "(\<And>p u. p \<in> set ps \<Longrightarrow> \<not> IsIDType p \<Longrightarrow> \<not> IsIgnore p \<Longrightarrow>
      create_property_uql t (p\<lparr>prop_schema := name\<rparr>) = Ret u \<Longrightarrow> u \<in> Q)
    \<Longrightarrow> only_states Q (create_properties env srv t name ps config)"
proof (induction ps)
  case Nil
  then show ?case by (simp add: ext.lift)
next
  case (Cons p ps)
  have "only_states Q (create_properties env srv t name ps config)"
    by (rule Cons.IH) (use Cons.prems in auto)
  then show ?case unfolding create_properties.simps
    by (intro states_intros CreateProperty_states) (use Cons.prems in auto)
qed

lemma CreateSchema_states:
  "(\<And>u. create_schema_uql s = Ret u \<Longrightarrow> u \<in> Q) \<Longrightarrow> only_states Q (CreateSchema env srv (Some s) False config)"
  unfolding CreateSchema_def by (intro states_intros) auto

lemma for_each_states: "(\<And>x. x \<in> set xs \<Longrightarrow> only_states Q (f x)) \<Longrightarrow> only_states Q (for_each f xs)"
  by (induction xs) (auto intro: states_intros)

text \<open>The statements that building a model may send: two look-ups and the creations of its items.\<close>

definition model_statements :: "graph_model \<Rightarrow> gostring set" where
  "model_statements model = {''show().graph().more()'', ''show().schema()''}
     \<union> {u. create_graph_uql (gm_Graph model) = Ret u}
     \<union> {u. \<exists>s. Some s \<in> set (gm_Schemas model) \<and> (create_schema_uql s = Ret u
          \<or> (\<exists>p \<in> set (sc_Properties s). create_property_uql (sc_DBType s) p = Ret u))}"

lemma init_schema_states:
  assumes "s \<in> set (gm_Schemas model)"
  shows "only_states (model_statements model) (init_schema env srv config s)"
  unfolding init_schema_def CreateSchemaIfNotExist_def CreatePropertyIfNotExist_def api_GetProperty_def
  by (intro states_intros for_each_states GetSchema_states CreateProperty_states)
    (use assms in \<open>auto simp: model_statements_def intro!: CreateSchema_states\<close>)

lemma InitModel_states: "only_states (model_statements model) (InitModel env srv model config)"
  unfolding InitModel_def CreateGraph_def
  by (intro states_intros for_each_states init_schema_states HasGraph_states)
    (auto simp: model_statements_def)

text \<open>
  Property C23. Whatever the server answers and however it ends, building a model only queries: all it
  changes in the driver is the counter of the pool, and every statement it sends is the look-up of the graphs or of
  the schemas, or the statement that creates the graph of the model, one of its schemas or a property of
  one of its schemas; nothing else is created, and nothing is altered, dropped or truncated by a statement
  of the driver's own. The texts of the creations are those of the builders: names of schemas and
  properties are checked and quoted, the name of the graph and all descriptions stand between quotation
  marks as they are (\<open>graph_name_not_escaped\<close>).
\<close>

theorem init_model_only_creates:
  "\<exists>t cs. fst (InitModel env srv model config w) =
      \<lparr>wd_Pool = (wd_Pool w)\<lparr>cp_RandomTick := t\<rparr>, wd_Calls = wd_Calls w @ cs\<rparr> \<and>
    list_all (\<lambda>c. case c of
        QueryCall h ctx req \<Rightarrow> qq_QueryText req \<in> {''show().graph().more()'', ''show().schema()''}
          \<or> create_graph_uql (gm_Graph model) = Ret (qq_QueryText req)
          \<or> (\<exists>s. Some s \<in> set (gm_Schemas model) \<and> (create_schema_uql s = Ret (qq_QueryText req)
              \<or> (\<exists>p \<in> set (sc_Properties s). create_property_uql (sc_DBType s) p = Ret (qq_QueryText req))))
      | _ \<Rightarrow> False) cs"
proof -
  have "extends (states (model_statements model)) w (fst (InitModel env srv model config w))"
    using InitModel_states [of model env srv config] by (simp add: allows_def)
  then obtain t cs where e: "wd_Pool (fst (InitModel env srv model config w))
        = (wd_Pool w)\<lparr>cp_RandomTick := t\<rparr>"
      "wd_Calls (fst (InitModel env srv model config w)) = wd_Calls w @ cs"
    and s: "list_all (states (model_statements model)) cs"
    by (auto simp: extends_def)
  have "fst (InitModel env srv model config w) =
      \<lparr>wd_Pool = (wd_Pool w)\<lparr>cp_RandomTick := t\<rparr>, wd_Calls = wd_Calls w @ cs\<rparr>"
    using e by (cases "fst (InitModel env srv model config w)") simp
  moreover have "list_all (\<lambda>c. case c of
        QueryCall h ctx req \<Rightarrow> qq_QueryText req \<in> {''show().graph().more()'', ''show().schema()''}
          \<or> create_graph_uql (gm_Graph model) = Ret (qq_QueryText req)
          \<or> (\<exists>s. Some s \<in> set (gm_Schemas model) \<and> (create_schema_uql s = Ret (qq_QueryText req)
              \<or> (\<exists>p \<in> set (sc_Properties s). create_property_uql (sc_DBType s) p = Ret (qq_QueryText req))))
      | _ \<Rightarrow> False) cs"
    by (rule list.pred_mono_strong [OF s]) (auto simp: states_def model_statements_def split: call.splits)
  ultimately show ?thesis by blast
qed

text \<open>The builder of the graph lets a name close its own quotation and go on with a statement of its own.\<close>

definition sample_graph :: "gostring \<Rightarrow> graph_set" where
  "sample_graph name = \<lparr>gs_ID = [], gs_Name = name, gs_TotalNodes = 0, gs_TotalEdges = 0,
     gs_Description = [], gs_Status = [], gs_Shards = [], gs_SlotNum = 0, gs_PartitionBy = []\<rparr>"

lemma graph_name_not_escaped:
  "create_graph_uql (Some (sample_graph (CHR ''a'' # CHR 0x22 # rest)))
     = Ret (''create().graph('' @ CHR 0x22 # CHR ''a'' # CHR 0x22 # rest @ CHR 0x22 # '')'')"
  by (simp add: create_graph_uql_def sample_graph_def dq_def)

text \<open>A server that shows nothing and accepts everything.\<close>

definition bare_server :: server where
  "bare_server = sample_server\<lparr>sv_query := (\<lambda>calls. Inr ([\<lparr>qr_Status = None, qr_Alias = [],
     qr_Paths = None, qr_Nodes = None, qr_Edges = None, qr_Attrs = None, qr_Tables = None,
     qr_Statistics = None, qr_ExplainPlan = None\<rparr>], None))\<rparr>"

definition sample_model :: graph_model where
  "sample_model = \<lparr>gm_Graph = Some (sample_graph ''g''), gm_Schemas = [Some (NewSchema ''ab'')]\<rparr>"

definition bare_reply :: query_reply where
  "bare_reply = \<lparr>qr_Status = None, qr_Alias = [], qr_Paths = None, qr_Nodes = None, qr_Edges = None,
     qr_Attrs = None, qr_Tables = None, qr_Statistics = None, qr_ExplainPlan = None\<rparr>"

definition bare_world :: "nat \<Rightarrow> call list \<Rightarrow> world" where
  "bare_world k cs = \<lparr>wd_Pool = after_calls k (wd_Pool sample_world), wd_Calls = cs\<rparr>"

lemma bare_response:
  obtains resp where "NewUQLResponse [bare_reply] None = Ret resp" "IsSuccess (Some resp)"
    "\<And>a. Alias resp a = Ret \<lparr>di_Alias = [], di_Type = RT_UNSET, di_Data = DNil\<rparr>"
proof -
  have "\<exists>resp. NewUQLResponse [bare_reply] None = Ret resp \<and> IsSuccess (Some resp) \<and> rs_Reply resp = Some bare_reply"
    by (simp add: NewUQLResponse_def receive_def receive_stats_def empty_response_def bare_reply_def
        ParseStatistic_def ParseExplainPlan_def receive_status_def deref_def IsSuccess_def)
  moreover have "FindAliasDataInReply bare_reply a = Ret (DNil, RT_UNSET)" for a
    by (simp add: FindAliasDataInReply_def CheckAliasExist_def bare_reply_def Find_def)
  ultimately show thesis using that by (auto simp: Alias_def deref_def)
qed

lemma bare_Uql:
  assumes "config = None \<or> config = Some empty_request_config" "k < 10" "NewUQLResponse [bare_reply] None = Ret resp"
  shows "\<exists>c. Uql toy_json_env bare_server q config (bare_world k cs) = (bare_world (Suc k) (cs @ [c]), Ret resp)"
proof -
  have w: "cp_Actives (wd_Pool sample_world) = map Some [''a'', ''b'']" "cp_RandomTick (wd_Pool sample_world) = 0"
    by code_simp+
  then obtain h where h: "snd (GetRandomConn (wd_Pool (bare_world k cs))) = Ret h"
    using choice [OF w(1), of k] assms(2) by (auto simp: bare_world_def)
  let ?c = empty_request_config
  have c: "the_config config = ?c" using assms(1) by (auto simp: the_config_def)
  obtain ctx where ctx: "NewContext toy_json_env (sv_zone bare_server) (cp_Config (wd_Pool (bare_world k cs))) (Some ?c) = Ret ctx"
    by (simp add: NewContext_def Let_def empty_request_config_def)
  let ?conf = "MergeRequestConfig (sv_copier bare_server) (cp_Config (wd_Pool (bare_world k cs))) ?c"
  let ?call = "QueryCall h ctx (buildQueryRequest bare_server q UQL ?c ?conf)"
  let ?w = "(bare_world k cs)\<lparr>wd_Pool := fst (GetRandomConn (wd_Pool (bare_world k cs)))\<rparr>"
  have "rc_Host ?c = []" by (simp add: empty_request_config_def)
  from doExecuteQuery_reaches [of bare_server config "bare_world k cs" ?w h ?conf toy_json_env ctx q UQL]
    GetClient_free [OF this h] ctx
  have "doExecuteQuery toy_json_env bare_server q UQL config (bare_world k cs)
      = act_bind (query_twice bare_server ?call) (\<lambda>resp. act_lift (Ret (resp, ?conf))) ?w"
    by (simp add: c)
  moreover have "query_twice bare_server ?call ?w = (?w\<lparr>wd_Calls := cs @ [?call]\<rparr>, Ret ([bare_reply], None))"
    by (simp add: query_twice_def receive_sum_def bare_server_def bare_reply_def bare_world_def)
  ultimately have "Uql toy_json_env bare_server q config (bare_world k cs) = (?w\<lparr>wd_Calls := cs @ [?call]\<rparr>, Ret resp)"
    using assms(3) by (simp add: Uql_def api_query_def act_bind_def act_lift_def)
  moreover have "?w\<lparr>wd_Calls := cs @ [?call]\<rparr> = bare_world (Suc k) (cs @ [?call])"
    by (simp add: bare_world_def after_calls_def)
  ultimately show ?thesis by auto
qed

lemma init_model_only_creates_witness:
  "\<exists>cs. wd_Calls (fst (InitModel toy_json_env bare_server sample_model (Some empty_request_config) sample_world)) = cs
   \<and> length cs = 4
   \<and> list_all (\<lambda>c. case c of QueryCall h ctx req \<Rightarrow>
         qq_QueryText req \<in> {''show().graph().more()'', ''show().schema()''}
         \<or> create_graph_uql (Some (sample_graph ''g'')) = Ret (qq_QueryText req)
         \<or> create_schema_uql (NewSchema ''ab'') = Ret (qq_QueryText req) | _ \<Rightarrow> False) cs"
proof -
  let ?c = "Some empty_request_config"
  let ?s = "NewSchema ''ab''"
  obtain resp where resp: "NewUQLResponse [bare_reply] None = Ret resp" "IsSuccess (Some resp)"
    "\<And>a. Alias resp a = Ret \<lparr>di_Alias = [], di_Type = RT_UNSET, di_Data = DNil\<rparr>" by (rule bare_response) blast
  note q = bare_Uql [OF _ _ resp(1)]
  have shown: "success bare_server resp = Ret ()" "item ''_graph'' (AsGraphSets toy_json_env) resp = Ret []"
      "item ''_nodeSchema'' (AsSchemas toy_json_env) resp = Ret []"
      "item ''_edgeSchema'' (AsSchemas toy_json_env) resp = Ret []" "item ''_graphCount'' AsGraphCount resp = Ret []"
    using resp(2,3) by (simp_all add: success_def item_def AsGraphSets_def AsSchemas_def AsGraphCount_def table_item_def)
  obtain c1 where "Uql toy_json_env bare_server ''show().graph().more()'' ?c (bare_world 0 [])
      = (bare_world 1 [c1], Ret resp)" using q [of ?c 0 "''show().graph().more()''" "[]"] by auto
  then have 1: "HasGraph toy_json_env bare_server ''g'' ?c (bare_world 0 []) = (bare_world 1 [c1], Ret False)"
    by (simp add: HasGraph_def ShowGraph_def show_items_def send_def act_bind_def act_lift_def shown)
  have "is_ret (create_graph_uql (Some (sample_graph ''g'')))" by code_simp
  then obtain u where u: "create_graph_uql (Some (sample_graph ''g'')) = Ret u" by (auto simp: is_ret_iff)
  obtain c2 where "Uql toy_json_env bare_server u None (bare_world 1 [c1]) = (bare_world 2 [c1, c2], Ret resp)"
    using q [of None 1 u "[c1]"] by (auto simp: numeral_2_eq_2)
  with u have 2: "CreateGraph toy_json_env bare_server (Some (sample_graph ''g'')) None (bare_world 1 [c1])
      = (bare_world 2 [c1, c2], Ret resp)" by (simp add: CreateGraph_def send_def act_bind_def act_lift_def)
  obtain c3 where "Uql toy_json_env bare_server ''show().schema()'' ?c (bare_world 2 [c1, c2])
      = (bare_world 3 [c1, c2, c3], Ret resp)" using q [of ?c 2 "''show().schema()''" "[c1, c2]"] by auto
  then have 3: "GetSchema toy_json_env bare_server (sc_Name ?s) (sc_DBType ?s) ?c (bare_world 2 [c1, c2])
      = (bare_world 3 [c1, c2, c3], Ret None)"
    by (simp add: GetSchema_def ShowSchema_def show_items_def send_def act_bind_def act_lift_def shown NewSchema_def)
  have "is_ret (create_schema_uql ?s)" by code_simp
  then obtain v where v: "create_schema_uql ?s = Ret v" by (auto simp: is_ret_iff)
  obtain c4 where "Uql toy_json_env bare_server v ?c (bare_world 3 [c1, c2, c3])
      = (bare_world 4 [c1, c2, c3, c4], Ret resp)" using q [of ?c 3 v "[c1, c2, c3]"] by auto
  then have 4: "CreateSchema toy_json_env bare_server (Some ?s) False ?c (bare_world 3 [c1, c2, c3])
      = (bare_world 4 [c1, c2, c3, c4], Ret resp)"
    using v by (simp add: CreateSchema_def send_def act_bind_def act_lift_def NewSchema_def)
  have "sample_world = bare_world 0 []" by (simp add: bare_world_def after_calls_def sample_world_def)
  moreover have "InitModel toy_json_env bare_server sample_model ?c (bare_world 0 []) = (bare_world 4 [c1, c2, c3, c4], Ret ())"
    using 1 2 3 4 by (simp add: InitModel_def sample_model_def deref_def act_bind_def act_lift_def
        init_schema_def CreateSchemaIfNotExist_def act_try_def sample_graph_def)
  ultimately have calls: "wd_Calls (fst (InitModel toy_json_env bare_server sample_model ?c sample_world)) = [c1, c2, c3, c4]"
    by (simp add: bare_world_def)
  with init_model_only_creates [of toy_json_env bare_server sample_model ?c sample_world]
  show ?thesis by (auto simp: sample_model_def sample_world_def NewSchema_def split: call.splits)
qed

lemma quoted_refused:
  assumes "CheckName name = Fail e" "name \<noteq> []" "name \<noteq> ''*''"
  shows "quoted what name shown = Fail (Err (error_text e @ '', '' @ what @ '' = '' @ shown))"
  using assms by (simp add: quoted_def named_error_def CheckReplaceSchemaPropertyName_def)

lemma send_not_Ret:
  "send env srv (Fail e) config w = (w, Fail e)" "send env srv (Panic p) config w = (w, Panic p)"
  by (simp_all add: send_def act_bind_def act_lift_def)

lemma CheckName_cases: "CheckName name = Ret () \<or> (\<exists>e. CheckName name = Fail e)"
  by (simp add: CheckName_def)

lemma quoted_cases: "(\<exists>qn. quoted what name shown = Ret qn) \<or> (\<exists>e. quoted what name shown = Fail e)"
  using CheckName_cases [of name]
  by (auto simp: quoted_def named_error_def CheckReplaceSchemaPropertyName_def)

text \<open>Every statement of a property with a refused name, of its schema or its own, is an error.\<close>

lemma bad_property_statements:
  assumes "CheckName name = Fail e" "name \<noteq> []" "name \<noteq> ''*''" "prop_schema p = name \<or> prop_name p = name"
  shows "\<not> is_ret (create_property_uql t p)" "\<exists>e'. drop_property_uql t p = Fail e'"
    "\<exists>e'. alter_property_uql t (Some p) new = Fail e'"
proof -
  note q = quoted_refused [OF assms(1-3)]
  have refused: "(\<exists>e'. quoted ''schemaName'' (prop_schema p) a = Fail e')
      \<or> (\<exists>qn. quoted ''schemaName'' (prop_schema p) a = Ret qn) \<and> (\<exists>e'. quoted ''propertyName'' (prop_name p) b = Fail e')"
    for a b using assms(4) q quoted_cases [of "''schemaName''" "prop_schema p" a] by metis
  show "\<not> is_ret (create_property_uql t p)"
    using refused [of "[]" "prop_name p"] by (cases "GetStringType p") (auto simp: create_property_uql_def)
  show "\<exists>e'. drop_property_uql t p = Fail e'"
    using refused [of "[]" "[]"] by (auto simp: drop_property_uql_def)
  show "\<exists>e'. alter_property_uql t (Some p) new = Fail e'"
    using refused [of "prop_schema p" "prop_name p"]
    by (cases t; cases new) (auto simp: alter_property_uql_def db_word_def db_type_error_def)
qed

lemma bad_schema_statements:
  assumes "CheckName name = Fail e" "name \<noteq> []" "name \<noteq> ''*''" "sc_Name s = name"
  shows "\<exists>e'. create_schema_uql s = Fail e'" "\<exists>e'. alter_schema_uql s new = Fail e'"
    "\<exists>e'. alter_schema_uql s0 (Some s) = Fail e'"
  using assms quoted_refused [OF assms(1-3)] quoted_cases [of "''schemaName''" "sc_Name s0" "sc_Name s0"]
  by (auto simp: create_schema_uql_def alter_schema_uql_def named_error_def deref_def)

text \<open>
  Property C24. A name that the check refuses never reaches the server. With a refused schema name, creating,
  dropping or altering the schema, giving it to another schema in an alteration, and truncating the
  schema make no call and are an error. With a refused name of a property or of its schema, dropping the property,
  altering it and creating it make no call; the first two are an error, and so is the third unless
  the property is of the ignored type, which is skipped silently before. The empty name and the star are
  special and not meant here. Two names are not checked at all: the new name of a property that is
  altered (\<open>new_property_name_unchecked\<close>), and that of a graph.
\<close>

theorem bad_names_send_nothing:
  assumes "CheckName name = Fail e" "name \<noteq> []" "name \<noteq> ''*''"
  shows "(sc_Name s = name \<longrightarrow> (\<exists>e'. CreateSchema env srv (Some s) b config w = (w, Fail e'))
        \<and> (\<exists>e'. DropSchema env srv (Some s) config w = (w, Fail e'))
        \<and> (\<exists>e'. AlterSchema env srv (Some s) new config w = (w, Fail e'))
        \<and> (\<exists>e'. AlterSchema env srv (Some s0) (Some s) config w = (w, Fail e')))
    \<and> (tp_SchemaName tp = name \<longrightarrow> (\<exists>e'. Truncate env srv (Some tp) config w = (w, Fail e')))
    \<and> (prop_schema p = name \<or> prop_name p = name \<longrightarrow>
        (\<exists>e'. DropProperty env srv t (Some p) config w = (w, Fail e'))
        \<and> (\<exists>e'. AlterProperty env srv t (Some p) new_p config w = (w, Fail e'))
        \<and> fst (CreateProperty env srv t (Some p) config w) = w
        \<and> (prop_type p \<noteq> PT_IGNORE \<longrightarrow> \<not> is_ret (snd (CreateProperty env srv t (Some p) config w))))"
proof (intro conjI impI)
  assume s: "sc_Name s = name"
  note r = bad_schema_statements [OF assms s]
  show "\<exists>e'. CreateSchema env srv (Some s) b config w = (w, Fail e')"
    using r(1) s assms(2) by (auto simp: CreateSchema_def send_not_Ret act_bind_def)
  show "\<exists>e'. DropSchema env srv (Some s) config w = (w, Fail e')"
    using s assms(2) by (simp add: DropSchema_def quoted_refused [OF assms] send_not_Ret act_bind_def)
  show "\<exists>e'. AlterSchema env srv (Some s) new config w = (w, Fail e')"
    using r(2) [of new] by (auto simp: AlterSchema_def deref_def send_not_Ret)
  show "\<exists>e'. AlterSchema env srv (Some s0) (Some s) config w = (w, Fail e')"
    using r(3) [of s0] by (auto simp: AlterSchema_def deref_def send_not_Ret)
next
  assume "tp_SchemaName tp = name"
  then show "\<exists>e'. Truncate env srv (Some tp) config w = (w, Fail e')"
    using assms by (simp add: Truncate_def truncate_uql_def Let_def named_error_def
        CheckReplaceSchemaPropertyName_def send_not_Ret deref_def)
next
  assume p: "prop_schema p = name \<or> prop_name p = name"
  note r = bad_property_statements [OF assms p]
  show "\<exists>e'. DropProperty env srv t (Some p) config w = (w, Fail e')"
    using r(2) [of t] by (auto simp: DropProperty_def deref_def send_not_Ret)
  show "\<exists>e'. AlterProperty env srv t (Some p) new_p config w = (w, Fail e')"
    using r(3) [of t new_p] by (auto simp: AlterProperty_def send_not_Ret)
  show "fst (CreateProperty env srv t (Some p) config w) = w"
    using r(1) [of t] by (cases "create_property_uql t p"; cases "db_word t")
      (simp_all add: CreateProperty_def send_not_Ret act_bind_def act_lift_def)
  show "\<not> is_ret (snd (CreateProperty env srv t (Some p) config w))" if "prop_type p \<noteq> PT_IGNORE"
    using r(1) [of t] that by (cases "create_property_uql t p"; cases "db_word t")
      (simp_all add: CreateProperty_def send_not_Ret act_bind_def act_lift_def)
qed

lemma bad_names_send_nothing_witness:
  "(\<exists>e. DropSchema toy_json_env sample_server (Some (NewSchema ''~x'')) None sample_world = (sample_world, Fail e))
   \<and> (\<exists>e. DropProperty toy_json_env sample_server DBNODE (Some (empty_property\<lparr>prop_name := ''~x'', prop_schema := ''ab''\<rparr>))
        None sample_world = (sample_world, Fail e))"
proof -
  have "CheckName ''~x'' = Fail (Err ''name can not start with character ~'')" by code_simp
  from bad_names_send_nothing [OF this, where s = "NewSchema ''~x''" and env = toy_json_env and srv = sample_server
      and config = None and w = sample_world and t = DBNODE
      and p = "empty_property\<lparr>prop_name := ''~x'', prop_schema := ''ab''\<rparr>"]
  show ?thesis by (simp add: NewSchema_def)
qed

text \<open>The new name of an altered property is put into the statement as it is, a refused one too.\<close>

lemma new_property_name_unchecked:
  assumes "CheckReplaceSchemaPropertyName (prop_schema p) = Ret sn" "CheckReplaceSchemaPropertyName (prop_name p) = Ret pn"
    "prop_schema p \<noteq> []" "prop_name p \<noteq> []" "prop_name new \<noteq> []" "prop_description new = []"
  shows "alter_property_uql DBNODE (Some p) (Some new)
    = Ret (''alter().node_property(@'' @ sn @ ''.'' @ pn @ '').set({name: '' @ dq (prop_name new) @ ''})'')"
  using assms by (simp add: alter_property_uql_def quoted_def named_error_def db_word_def Let_def)

text \<open>
  Property C30. What creating a schema of a name other than the star sends can be read back. A creation that
  returned has first sent one statement, once or again when it was refused, which after its fixed front
  is the quoted name of that schema, reading back as its name, and then its description. Without the
  creation of properties that is all; with it, every further call is a statement that creates one
  of the properties of the schema that are neither identifiers nor ignored, under the name of the schema.
\<close>

theorem schema_statement_reads_back:
  assumes "snd (CreateSchema env srv (Some s) b config w) = Ret resp" "sc_Name s \<noteq> ''*''"
  shows "\<exists>t n h ctx req rest cs. 0 < n \<and> fst (CreateSchema env srv (Some s) b config w) =
      \<lparr>wd_Pool = (wd_Pool w)\<lparr>cp_RandomTick := t\<rparr>,
       wd_Calls = wd_Calls w @ replicate n (QueryCall h ctx req) @ cs\<rparr>
    \<and> qq_QueryText req = ''create().'' @ (if sc_DBType s = DBNODE then ''node'' else ''edge'')
        @ ''_schema('' @ rest
    \<and> read_quoted rest = Some (sc_Name s, '','' @ dq (sc_Description s) @ '')'')
    \<and> (\<not> b \<longrightarrow> cs = [])
    \<and> list_all (\<lambda>c. case c of
        QueryCall h ctx req \<Rightarrow> \<exists>p \<in> set (sc_Properties s). \<not> IsIDType p \<and> \<not> IsIgnore p
          \<and> create_property_uql (sc_DBType s) (p\<lparr>prop_schema := sc_Name s\<rparr>) = Ret (qq_QueryText req)
      | _ \<Rightarrow> False) cs"
proof -
  let ?Q = "{u. \<exists>p \<in> set (sc_Properties s). \<not> IsIDType p \<and> \<not> IsIgnore p
      \<and> create_property_uql (sc_DBType s) (p\<lparr>prop_schema := sc_Name s\<rparr>) = Ret u}"
  let ?props = "create_properties env srv (sc_DBType s) (sc_Name s) (sc_Properties s) config"
  have ne: "sc_Name s \<noteq> []" using assms(1) by (auto simp: CreateSchema_def)
  let ?rest = "\<lambda>resp. if \<not> b then act_lift (Ret resp)
      else act_bind ?props (\<lambda>refused. act_lift (Ret (case refused of None \<Rightarrow> resp | Some r \<Rightarrow> r)))"
  have c: "CreateSchema env srv (Some s) b config = act_bind (send env srv (create_schema_uql s) config) ?rest"
    using ne by (simp add: CreateSchema_def)
  obtain u where u: "create_schema_uql s = Ret u"
    using assms(1) unfolding c by (cases "create_schema_uql s") (simp_all add: send_not_Ret act_bind_def)
  then obtain qn dw where q: "quoted ''schemaName'' (sc_Name s) (sc_Name s) = Ret qn" "db_word (sc_DBType s) = Ret dw"
    "u = ''create().'' @ dw @ ''_schema('' @ qn @ '','' @ dq (sc_Description s) @ '')''"
    by (auto simp: create_schema_uql_def go_simps)
  have dw: "dw = (if sc_DBType s = DBNODE then ''node'' else ''edge'')"
    using q(2) by (auto simp: db_word_def db_type_error_def split: db_type.splits)
  have name: "CheckReplaceSchemaPropertyName (sc_Name s) = Ret qn"
    using q(1) by (auto simp: quoted_def named_error_def split: go.splits)
  define rest where "rest = qn @ '','' @ dq (sc_Description s) @ '')''"
  have read: "read_quoted rest = Some (sc_Name s, '','' @ dq (sc_Description s) @ '')'')"
    using name ne assms(2) read_quoted_append [of "sc_Name s"]
    by (simp add: replaced_name rest_def CheckName_Ret)
  have e: "CreateSchema env srv (Some s) b config w = act_bind (Uql env srv u config) ?rest w"
    unfolding c u by (simp add: send_def)
  then obtain r where r: "snd (Uql env srv u config w) = Ret r"
    using assms(1) by (auto simp: snd_act_bind split: go.splits)
  obtain t n h ctx req where calls: "fst (Uql env srv u config w) =
      \<lparr>wd_Pool = (wd_Pool w)\<lparr>cp_RandomTick := t\<rparr>,
       wd_Calls = wd_Calls w @ replicate n (QueryCall h ctx req)\<rparr>"
    "is_ret (snd (Uql env srv u config w)) \<longrightarrow> 0 < n" "0 < n \<longrightarrow> qq_QueryText req = u"
    using Uql_calls [of env srv u config w] by blast
  have n: "0 < n" "qq_QueryText req = u" using calls(2,3) r by auto
  have f: "fst (CreateSchema env srv (Some s) b config w) = fst (?rest r (fst (Uql env srv u config w)))"
    unfolding e using r by (simp add: fst_act_bind)
  have "only_states ?Q ?props" by (rule create_properties_states) auto
  then have "extends (states (if b then ?Q else {})) v (fst (?rest r v))" for v
    by (auto simp: allows_def fst_act_bind extends_refl split: go.split)
  then obtain t' cs where cs: "wd_Pool (fst (?rest r (fst (Uql env srv u config w))))
      = (wd_Pool (fst (Uql env srv u config w)))\<lparr>cp_RandomTick := t'\<rparr>"
    "wd_Calls (fst (?rest r (fst (Uql env srv u config w)))) = wd_Calls (fst (Uql env srv u config w)) @ cs"
    "list_all (states (if b then ?Q else {})) cs"
    unfolding extends_def by blast
  have "\<not> b \<longrightarrow> cs = []" using cs(3) by (cases cs) (auto simp: states_def split: call.splits if_splits)
  moreover have "list_all (\<lambda>c. case c of
        QueryCall h ctx req \<Rightarrow> \<exists>p \<in> set (sc_Properties s). \<not> IsIDType p \<and> \<not> IsIgnore p
          \<and> create_property_uql (sc_DBType s) (p\<lparr>prop_schema := sc_Name s\<rparr>) = Ret (qq_QueryText req)
      | _ \<Rightarrow> False) cs"
    by (rule list.pred_mono_strong [OF cs(3)]) (auto simp: states_def split: call.splits if_splits)
  moreover have "fst (CreateSchema env srv (Some s) b config w) =
      \<lparr>wd_Pool = (wd_Pool w)\<lparr>cp_RandomTick := t'\<rparr>,
       wd_Calls = wd_Calls w @ replicate n (QueryCall h ctx req) @ cs\<rparr>"
    unfolding f using cs(1,2) calls(1) by (cases "fst (?rest r (fst (Uql env srv u config w)))") simp
  moreover have "qq_QueryText req = ''create().'' @ (if sc_DBType s = DBNODE then ''node'' else ''edge'')
        @ ''_schema('' @ rest" using n(2) q(3) dw by (simp add: rest_def)
  ultimately show ?thesis using n(1) read by blast
qed

lemma sample_creation:
  "is_ret (snd (CreateSchema toy_json_env sample_server (Some (NewSchema ''ab'')) False
     (Some empty_request_config) sample_world))"
  by code_simp

lemma schema_statement_reads_back_witness:
  "\<exists>h ctx req rest. QueryCall h ctx req \<in> set (wd_Calls (fst (CreateSchema toy_json_env sample_server
      (Some (NewSchema ''ab'')) False (Some empty_request_config) sample_world)))
    \<and> qq_QueryText req = ''create().node_schema('' @ rest
    \<and> read_quoted rest = Some (''ab'', '','' @ dq [] @ '')'')"
proof -
  obtain resp where "snd (CreateSchema toy_json_env sample_server (Some (NewSchema ''ab'')) False
      (Some empty_request_config) sample_world) = Ret resp"
    using sample_creation by (auto simp: is_ret_iff)
  from schema_statement_reads_back [OF this] show ?thesis by (fastforce simp: NewSchema_def)
qed

text \<open>
  Asked for a schema only if it does not exist, the driver tells that it exists after
  the look-up alone: every call it made is the statement that shows the schemas.
\<close>

theorem existing_schema_only_looked_up:
  assumes "snd (CreateSchemaIfNotExist env srv sch b config w) = Ret rwc" "ec_Exist rwc"
  shows "\<exists>s t n h ctx req. sch = Some s
    \<and> fst (CreateSchemaIfNotExist env srv sch b config w) =
      \<lparr>wd_Pool = (wd_Pool w)\<lparr>cp_RandomTick := t\<rparr>,
       wd_Calls = wd_Calls w @ replicate n (QueryCall h ctx req)\<rparr>
    \<and> qq_QueryText req = ''show().schema()''
    \<and> (\<exists>found. snd (GetSchema env srv (sc_Name s) (sc_DBType s) config w) = Ret (Some found)
        \<and> sc_Name found = sc_Name s \<and> sc_DBType found = sc_DBType s)"
proof -
  obtain s where sch: "sch = Some s"
    using assms(1) by (cases sch) (auto simp: CreateSchemaIfNotExist_def act_bind_def act_lift_def deref_def)
  let ?g = "GetSchema env srv (sc_Name s) (sc_DBType s) config w"
  have c: "CreateSchemaIfNotExist env srv sch b config w =
      act_try (GetSchema env srv (sc_Name s) (sc_DBType s) config)
       (\<lambda>e. act_lift (Fail (Err (''GetSchema error, '' @ error_text e))))
       (\<lambda>found. case found of
          Some _ \<Rightarrow> act_lift (Ret \<lparr>ec_Exist = True, ec_Response = None\<rparr>)
        | None \<Rightarrow> act_bind (CreateSchema env srv sch b config)
            (\<lambda>resp. act_lift (Ret \<lparr>ec_Exist = False, ec_Response = None\<rparr>))) w"
    by (simp only: CreateSchemaIfNotExist_def sch deref_def option.case act_bind_lift)
  obtain found where found: "snd ?g = Ret (Some found)" "fst (CreateSchemaIfNotExist env srv sch b config w) = fst ?g"
    using assms unfolding c
    by (auto simp: act_try_def act_bind_def act_lift_def split: prod.splits go.splits option.splits)
  have g: "GetSchema env srv (sc_Name s) (sc_DBType s) config =
      act_bind (ShowSchema env srv config) (\<lambda>schemas. act_lift (Ret
        (List.find (\<lambda>x. sc_Name s = sc_Name x \<and> sc_DBType x = sc_DBType s) schemas)))"
    using found(1) by (auto simp: GetSchema_def db_type_error_def act_lift_def split: if_splits)
  have "sc_Name found = sc_Name s" "sc_DBType found = sc_DBType s"
    using found(1) unfolding g by (auto simp: snd_act_bind find_Some_iff split: go.splits)
  moreover have "fst ?g = fst (Uql env srv ''show().schema()'' config w)"
    unfolding g
    by (simp add: fst_act_bind ShowSchema_def show_items_def send_def split: go.split)
  moreover have "is_ret (snd (Uql env srv ''show().schema()'' config w))"
    using found(1) unfolding g
    by (auto simp: snd_act_bind fst_act_bind ShowSchema_def show_items_def send_def split: go.splits)
  ultimately show ?thesis
    using Uql_calls [of env srv "''show().schema()''" config w] found sch by metis
qed

text \<open>
  Altering a schema needs a valid new name: the statement that would change only the
  description, which the source builds for an empty name, is never sent.
\<close>

theorem alter_schema_needs_name:
  assumes "sc_Name new = []"
  shows "\<exists>r. AlterSchema env srv original (Some new) config w = (w, r) \<and> \<not> is_ret r"
proof (cases original)
  case None
  then show ?thesis by (simp add: AlterSchema_def deref_def) (simp add: act_lift_def)
next
  case (Some s)
  have "\<not> is_ret (alter_schema_uql s (Some new))"
    using assms by (cases "quoted ''schemaName'' (sc_Name s) (sc_Name s)")
      (simp_all add: alter_schema_uql_def named_error_def CheckName_def deref_def)
  then show ?thesis
    by (cases "alter_schema_uql s (Some new)")
      (simp_all add: Some AlterSchema_def deref_def send_not_Ret)
qed

lemma alter_schema_needs_name_witness:
  "\<not> is_ret (snd (AlterSchema toy_json_env sample_server (Some (NewSchema ''ab''))
     (Some ((NewSchema [])\<lparr>sc_Description := ''new text''\<rparr>)) None sample_world))"
  using alter_schema_needs_name [of "(NewSchema [])\<lparr>sc_Description := ''new text''\<rparr>" toy_json_env
      sample_server "Some (NewSchema ''ab'')" None sample_world]
  by (auto simp: NewSchema_def)

text \<open>
  \<open>HasGraph\<close> and \<open>GetGraph\<close> agree: they send the same look-up, and the one tells that
  a graph exists exactly when the other returns it, under its name; otherwise \<open>GetGraph\<close> is an error.
\<close>

theorem graph_lookups_agree:
  "fst (HasGraph env srv name config w) = fst (api_GetGraph env srv name config w) \<and>
   (case snd (HasGraph env srv name config w) of
      Ret True \<Rightarrow> \<exists>g. snd (api_GetGraph env srv name config w) = Ret g \<and> gs_Name g = name
    | Ret False \<Rightarrow> snd (api_GetGraph env srv name config w) = Fail (Err ''graph not found'')
    | Fail e \<Rightarrow> snd (api_GetGraph env srv name config w) = Fail e
    | Panic p \<Rightarrow> snd (api_GetGraph env srv name config w) = Panic p)"
  by (auto simp: HasGraph_def api_GetGraph_def fst_act_bind snd_act_bind list_ex_iff find_None_iff
      find_Some_iff split: go.split bool.split option.split)

text \<open>
  Asked for a graph only if it does not exist, the driver drops an error of the
  look-up and creates the graph: the outcome is that of the creation alone.
\<close>

theorem failed_lookup_creates_graph:
  assumes "HasGraph env srv (gs_Name g) config w = (w', Fail e)"
  shows "CreateGraphIfNotExist env srv (Some g) config w =
    act_bind (CreateGraph env srv (Some g) config)
      (\<lambda>resp. act_lift (Ret \<lparr>ec_Exist = False, ec_Response = Some resp\<rparr>)) w'"
  using assms by (simp add: CreateGraphIfNotExist_def deref_def act_try_def Let_def)

text \<open>
  The truncation of a schema leaves its own quoted name in the parameters of the
  caller: the same parameters given once more are refused before anything is sent.
\<close>

theorem second_truncate_refused:
  assumes "truncate_uql params = Ret u" "tp_SchemaName params \<notin> {[], ''*''}"
  shows "\<exists>e. Truncate env srv (Some (truncate_after params)) config w = (w, Fail e)"
proof -
  let ?n = "tp_SchemaName params"
  have q: "CheckReplaceSchemaPropertyName ?n = Ret (backquote # ?n @ [backquote])"
    using assms by (auto simp: truncate_uql_def named_error_def Let_def CheckReplaceSchemaPropertyName_def
        go_simps split: go.splits if_splits)
  have t: "(case tp_DBType params of None \<Rightarrow> DBGLOBAL | Some t \<Rightarrow> t) \<in> {DBNODE, DBEDGE}"
    using assms q by (auto simp: truncate_uql_def named_error_def Let_def go_simps split: if_splits)
  have n: "tp_SchemaName (truncate_after params) = CHR ''@'' # backquote # ?n @ [backquote]"
    using q t assms(2) by (simp add: truncate_after_def Let_def)
  have "\<exists>e. CheckReplaceSchemaPropertyName (tp_SchemaName (truncate_after params)) = Fail e"
    by (simp add: n CheckReplaceSchemaPropertyName_def CheckName_def go_simps)
  then have "\<exists>e. truncate_uql (truncate_after params) = Fail e"
    by (auto simp: truncate_uql_def named_error_def Let_def go_simps)
  then show ?thesis by (auto simp: Truncate_def deref_def send_def act_bind_def act_lift_def)
qed

lemma second_truncate_refused_witness:
  "\<exists>e. Truncate toy_json_env sample_server (Some (truncate_after \<lparr>tp_GraphName = ''g'',
      tp_SchemaName = ''person'', tp_DBType = Some DBNODE\<rparr>)) None sample_world = (sample_world, Fail e)"
proof -
  have "\<exists>u. truncate_uql \<lparr>tp_GraphName = ''g'', tp_SchemaName = ''person'', tp_DBType = Some DBNODE\<rparr> = Ret u"
    by (simp add: truncate_uql_def Let_def named_error_def CheckReplaceSchemaPropertyName_def
        CheckName_def StartWithTilde_def InvalidName_def backquote_def has_prefix_def go_simps)
  then obtain u where "truncate_uql \<lparr>tp_GraphName = ''g'', tp_SchemaName = ''person'',
      tp_DBType = Some DBNODE\<rparr> = Ret u" ..
  then show ?thesis by (rule second_truncate_refused) simp
qed

text \<open>A server that refuses the first two calls and accepts the rest.\<close>

definition failing_server :: server where
  "failing_server = sample_server\<lparr>sv_query := (\<lambda>calls. if length calls \<le> 2
     then Inl (Err ''unavailable'') else Inr ([sample_rows [[[1]]]], None))\<rparr>"

lemma failed_lookup:
  "\<exists>w'. HasGraph toy_json_env failing_server ''g1'' (Some empty_request_config) sample_world
     = (w', Fail (Err ''unavailable''))"
proof -
  have "snd (Uql toy_json_env failing_server ''show().graph().more()'' (Some empty_request_config)
      sample_world) = Fail (Err ''unavailable'')" by code_simp
  then have "snd (HasGraph toy_json_env failing_server ''g1'' (Some empty_request_config) sample_world)
      = Fail (Err ''unavailable'')"
    by (simp add: HasGraph_def ShowGraph_def show_items_def send_def snd_act_bind)
  then show ?thesis by (metis prod.collapse)
qed

lemma failed_lookup_creates_graph_witness:
  "\<exists>w'. CreateGraphIfNotExist toy_json_env failing_server
      (Some \<lparr>gs_ID = [], gs_Name = ''g1'', gs_TotalNodes = 0, gs_TotalEdges = 0, gs_Description = [],
        gs_Status = [], gs_Shards = [], gs_SlotNum = 0, gs_PartitionBy = []\<rparr>)
      (Some empty_request_config) sample_world =
    act_bind (CreateGraph toy_json_env failing_server
        (Some \<lparr>gs_ID = [], gs_Name = ''g1'', gs_TotalNodes = 0, gs_TotalEdges = 0, gs_Description = [],
          gs_Status = [], gs_Shards = [], gs_SlotNum = 0, gs_PartitionBy = []\<rparr>)
        (Some empty_request_config))
      (\<lambda>resp. act_lift (Ret \<lparr>ec_Exist = False, ec_Response = Some resp\<rparr>)) w'"
proof -
  obtain w' where "HasGraph toy_json_env failing_server ''g1'' (Some empty_request_config) sample_world
     = (w', Fail (Err ''unavailable''))" using failed_lookup by blast
  then show ?thesis by (intro exI [of _ w'] failed_lookup_creates_graph) simp
qed

end
