(* ===== verification/Rows.thy ===== *)
theory Rows
  imports DataItem
begin

text \<open>
  \<open>sdk/api/check.rows.go\<close> and the conversion of nodes and edges into the rows of an insertion
  (\<open>insert.nodes.go\<close>, \<open>insert.edges.go\<close>). \<open>setPropertiesToNodeRow\<close> converts every row in a
  goroutine of its own; all of them, and the loop that starts them, assign and read one shared
  variable \<open>err\<close>. They are actors over program counters, as in the connection pool, and the
  schedule is an argument.
\<close>

section \<open>Checking a row against its schema\<close>

text \<open>The properties that carry a value: neither ids nor ignored.\<close>

definition data_properties :: "property list \<Rightarrow> property list" where
  "data_properties ps = filter (\<lambda>p. \<not> (IsIDType p \<or> IsIgnore p)) ps"

definition row_error :: "nat \<Rightarrow> gostring \<Rightarrow> 'a go" where
  "row_error index msg = Fail (Err (''row ['' @ itoa (int index) @ ''] error: '' @ msg))"

definition CheckValuesAndProperties ::
  "property list \<Rightarrow> values_map option \<Rightarrow> nat \<Rightarrow> unit go" where
  "CheckValuesAndProperties properties vals index =
     (let props = data_properties properties in
      if props \<noteq> [] then
        (case vals of
           None \<Rightarrow> row_error index ''values are empty but properties size >0.''
         | Some v \<Rightarrow>
             if length props < card (dom v)
             then row_error index ''values size larger than properties size.''
             else if card (dom v) < length props
             then row_error index ''values size smaller than properties size.''
             else (case List.find (\<lambda>p. v (prop_name p) = None) props of
                 Some p \<Rightarrow> row_error index
                   (''values doesn't contain property ['' @ prop_name p @ ''].'')
               | None \<Rightarrow> Ret ()))
      else
        (case vals of
           None \<Rightarrow> Ret ()
         | Some v \<Rightarrow> if 0 < card (dom v)
                     then row_error index ''properties are empty but values size >0.''
                     else Ret ()))"

definition is_id :: "gostring \<Rightarrow> bool" where
  "is_id s \<longleftrightarrow> s \<noteq> [] \<and> s \<noteq> ''nil'' \<and> s \<noteq> ''null''"

definition CheckEdgeRows :: "edge \<Rightarrow> property list \<Rightarrow> nat \<Rightarrow> unit go" where
  "CheckEdgeRows e properties index =
     go_bind (CheckValuesAndProperties properties (ed_Values e) index) (\<lambda>_.
       let hasFrom = is_id (ed_From e); hasTo = is_id (ed_To e);
           hasFromUuid = (ed_FromUUID e \<noteq> 0); hasToUuid = (ed_ToUUID e \<noteq> 0)
       in if \<not> hasFrom \<and> \<not> hasTo \<and> \<not> hasFromUuid \<and> \<not> hasToUuid
          then row_error index ''_from/_from_uuid and _to/_to_uuid are null.''
          else if hasFrom \<and> \<not> hasTo
          then row_error index (''_from has value ['' @ ed_From e @ ''] but _to got null'')
          else if hasTo \<and> \<not> hasFrom
          then row_error index (''_to has value ['' @ ed_To e @ ''] but _from got null'')
          else if hasFromUuid \<and> \<not> hasToUuid
          then row_error index (''_from_uuid has value ['' @ nat_str (unat (ed_FromUUID e))
            @ ''] but _to_uuid got null'')
          else if \<not> hasFromUuid \<and> hasToUuid
          then row_error index (''_to_uuid has value ['' @ nat_str (unat (ed_ToUUID e))
            @ ''] but _from_uuid got null'')
          else Ret ())"

definition nil_row_error :: "nat \<Rightarrow> 'a go" where
  "nil_row_error index =
     Fail (Err (''node row ['' @ itoa (int index) @ ''] error: node row is nil.''))"

definition checkNodeProperties :: "schema \<Rightarrow> node option \<Rightarrow> nat \<Rightarrow> unit go" where
  "checkNodeProperties sch row index =
     (case row of
        None \<Rightarrow> nil_row_error index
      | Some n \<Rightarrow> CheckValuesAndProperties (sc_Properties sch) (nd_Values n) index)"

definition checkEdgeProperties :: "schema \<Rightarrow> edge option \<Rightarrow> nat \<Rightarrow> unit go" where
  "checkEdgeProperties sch row index =
     (case row of
        None \<Rightarrow> nil_row_error index
      | Some e \<Rightarrow> CheckEdgeRows e (sc_Properties sch) index)"

section \<open>Converting a row\<close>

text \<open>
  One property of a row: \<open>values\<close> is dereferenced, the value must be there and must encode; \<open>what\<close>
  is \<open>node\<close> or \<open>edge\<close> in the error messages, which end in the printed value.
\<close>

definition convert_property ::
  "'a env_scheme \<Rightarrow> gostring \<Rightarrow> values_map option \<Rightarrow> nat \<Rightarrow> request_config option \<Rightarrow> property \<Rightarrow> bytes go"
  where
  "convert_property env what vals index config prop =
     go_bind (deref vals) (\<lambda>v.
       if \<not> Values_Contain v (prop_name prop)
       then Fail (Err (what @ '' row ['' @ itoa (int index)
         @ ''] error: values doesn't contain property ['' @ prop_name prop @ '']''))
       else case ConvertInterfaceToBytesSafe env (Values_Get v (prop_name prop)) (prop_type prop)
               (prop_subtypes prop) config of
              Ret bs \<Rightarrow> Ret bs
            | Fail e \<Rightarrow> Fail (Err (what @ '' row ['' @ itoa (int index)
                @ ''] error: failed to serialize value of property '' @ prop_name prop @ '',value=''))
            | Panic p \<Rightarrow> Panic p)"

definition doConvertSdkNodeRowToUltipaNodeRow ::
  "'a env_scheme \<Rightarrow> schema \<Rightarrow> node option \<Rightarrow> nat \<Rightarrow> request_config option \<Rightarrow> entity_row go" where
  "doConvertSdkNodeRowToUltipaNodeRow env sch row index config =
     go_bind (deref row) (\<lambda>n.
     go_lift (\<lambda>vs. \<lparr>er_Id = nd_ID n, er_Uuid = nd_UUID n, er_FromId = [], er_FromUuid = 0,
         er_ToId = [], er_ToUuid = 0, er_SchemaName = sc_Name sch, er_Values = vs,
         er_IsNull = False\<rparr>)
       (go_map (convert_property env ''node'' (nd_Values n) index config)
         (data_properties (sc_Properties sch))))"

definition doConvertSdkEdgeRowToUltipaEdgeRow ::
  "'a env_scheme \<Rightarrow> schema \<Rightarrow> edge option \<Rightarrow> nat \<Rightarrow> request_config option \<Rightarrow> entity_row go" where
  "doConvertSdkEdgeRowToUltipaEdgeRow env sch row index config =
     go_bind (deref row) (\<lambda>e.
     go_lift (\<lambda>vs. \<lparr>er_Id = [], er_Uuid = ed_UUID e, er_FromId = ed_From e,
         er_FromUuid = ed_FromUUID e, er_ToId = ed_To e, er_ToUuid = ed_ToUUID e,
         er_SchemaName = sc_Name sch, er_Values = vs, er_IsNull = False\<rparr>)
       (go_map (convert_property env ''edge'' (ed_Values e) index config)
         (data_properties (sc_Properties sch))))"

definition convertSdkNodeRowToUltipaNodeRow ::
  "'a env_scheme \<Rightarrow> schema \<Rightarrow> node option \<Rightarrow> nat \<Rightarrow> request_config option \<Rightarrow> entity_row go" where
  "convertSdkNodeRowToUltipaNodeRow env sch row index config =
     go_bind (checkNodeProperties sch row index) (\<lambda>_.
       doConvertSdkNodeRowToUltipaNodeRow env sch row index config)"

definition convertSdkEdgeRowToUltipaEdgeRow ::
  "'a env_scheme \<Rightarrow> schema \<Rightarrow> edge option \<Rightarrow> nat \<Rightarrow> request_config option \<Rightarrow> entity_row go" where
  "convertSdkEdgeRowToUltipaEdgeRow env sch row index config =
     go_bind (checkEdgeProperties sch row index) (\<lambda>_.
       doConvertSdkEdgeRowToUltipaEdgeRow env sch row index config)"

text \<open>The schema message of an insertion: the properties that carry a value.\<close>

definition insert_schema :: "schema \<Rightarrow> proto_schema" where
  "insert_schema sch = \<lparr>ps_SchemaName = sc_Name sch,
     ps_Properties = map (\<lambda>p. \<lparr>pp_PropertyName = prop_name p, pp_PropertyType = prop_type p,
       pp_SubTypes = prop_subtypes p\<rparr>) (data_properties (sc_Properties sch))\<rparr>"

section \<open>Converting all rows concurrently\<close>

text \<open>
  The loop checks a row (assigning \<open>err\<close>), starts its goroutine and looks whether the context was
  cancelled; after the last row it waits. A goroutine converts its row, assigning \<open>err\<close>, and
  then reads \<open>err\<close>, which others may have assigned meanwhile: if it is set it cancels, else it
  stores its row. A panic in any of them ends the process.
\<close>

datatype main_pc = Checking | Selecting | Waiting | Returned "go_error option" | Crashed panic

datatype row_pc = Converting | Storing "entity_row option" | RowDone

datatype row_actor = Main | Row nat

record conversion =
  cv_Err :: "go_error option"
  cv_Rows :: "entity_row option list"
  cv_Cancelled :: bool
  cv_Next :: nat
  cv_Main :: main_pc
  cv_Pc :: "nat \<Rightarrow> row_pc"

definition conversion_start :: "nat \<Rightarrow> conversion" where
  "conversion_start n = \<lparr>cv_Err = None, cv_Rows = replicate n None, cv_Cancelled = False,
     cv_Next = 0, cv_Main = Checking, cv_Pc = (\<lambda>_. Converting)\<rparr>"

definition main_step :: "nat \<Rightarrow> (nat \<Rightarrow> unit go) \<Rightarrow> conversion \<Rightarrow> conversion" where
  "main_step n check s =
     (case cv_Main s of
        Checking \<Rightarrow>
          if n \<le> cv_Next s then s\<lparr>cv_Main := Waiting\<rparr>
          else (case check (cv_Next s) of
              Fail e \<Rightarrow> s\<lparr>cv_Err := Some e, cv_Main := Returned (Some e)\<rparr>
            | Panic p \<Rightarrow> s\<lparr>cv_Main := Crashed p\<rparr>
            | Ret _ \<Rightarrow> s\<lparr>cv_Err := None, cv_Main := Selecting, cv_Next := cv_Next s + 1\<rparr>)
      | Selecting \<Rightarrow>
          if cv_Cancelled s then s\<lparr>cv_Main := Returned (cv_Err s)\<rparr> else s\<lparr>cv_Main := Checking\<rparr>
      | Waiting \<Rightarrow>
          if list_all (\<lambda>i. cv_Pc s i = RowDone) [0..<n]
          then s\<lparr>cv_Main := Returned (cv_Err s)\<rparr> else s
      | Returned e \<Rightarrow> s
      | Crashed p \<Rightarrow> s)"

definition is_crashed :: "main_pc \<Rightarrow> bool" where
  "is_crashed m = (case m of Crashed p \<Rightarrow> True | _ \<Rightarrow> False)"

definition row_step :: "(nat \<Rightarrow> entity_row go) \<Rightarrow> nat \<Rightarrow> conversion \<Rightarrow> conversion" where
  "row_step conv i s =
     (if cv_Next s \<le> i \<or> is_crashed (cv_Main s) then s
      else case cv_Pc s i of
        Converting \<Rightarrow>
          (case conv i of
             Ret r \<Rightarrow> s\<lparr>cv_Err := None, cv_Pc := (cv_Pc s)(i := Storing (Some r))\<rparr>
           | Fail e \<Rightarrow> s\<lparr>cv_Err := Some e, cv_Pc := (cv_Pc s)(i := Storing None)\<rparr>
           | Panic p \<Rightarrow> s\<lparr>cv_Main := Crashed p\<rparr>)
      | Storing r \<Rightarrow>
          if cv_Err s \<noteq> None then s\<lparr>cv_Cancelled := True, cv_Pc := (cv_Pc s)(i := RowDone)\<rparr>
          else s\<lparr>cv_Rows := (cv_Rows s)[i := r], cv_Pc := (cv_Pc s)(i := RowDone)\<rparr>
      | RowDone \<Rightarrow> s)"

definition conversion_exec ::
  "nat \<Rightarrow> (nat \<Rightarrow> unit go) \<Rightarrow> (nat \<Rightarrow> entity_row go) \<Rightarrow> row_actor \<Rightarrow> conversion \<Rightarrow> conversion" where
  "conversion_exec n check conv a s =
     (case a of Main \<Rightarrow> main_step n check s | Row i \<Rightarrow> row_step conv i s)"

text \<open>A schedule is followed first; then the loop, the goroutines and the wait run to their end.\<close>

definition conversion_schedule :: "nat \<Rightarrow> row_actor list \<Rightarrow> row_actor list" where
  "conversion_schedule n schedule = schedule @ replicate (2 * n + 2) Main
     @ concat (map (\<lambda>i. [Row i, Row i]) [0..<n]) @ [Main]"

definition conversion_run ::
  "nat \<Rightarrow> (nat \<Rightarrow> unit go) \<Rightarrow> (nat \<Rightarrow> entity_row go) \<Rightarrow> row_actor list \<Rightarrow> conversion \<Rightarrow> conversion" where
  "conversion_run n check conv as s = fold (conversion_exec n check conv) as s"

text \<open>The last branch is never reached: \<open>conversion_ends\<close>.\<close>

definition conversion_result :: "conversion \<Rightarrow> entity_row option list go" where
  "conversion_result s =
     (case cv_Main s of
        Returned None \<Rightarrow> Ret (cv_Rows s)
      | Returned (Some e) \<Rightarrow> Fail e
      | Crashed p \<Rightarrow> Panic p
      | _ \<Rightarrow> Panic (PanicCall ''unfinished''))"

definition setPropertiesToNodeRow ::
  "'a env_scheme \<Rightarrow> schema \<Rightarrow> node option list \<Rightarrow> request_config option \<Rightarrow> row_actor list
   \<Rightarrow> entity_row option list go" where
  "setPropertiesToNodeRow env sch rows config schedule =
     (let n = length rows in
      conversion_result (conversion_run n (\<lambda>i. checkNodeProperties sch (rows ! i) i)
        (\<lambda>i. doConvertSdkNodeRowToUltipaNodeRow env sch (rows ! i) i config)
        (conversion_schedule n schedule) (conversion_start n)))"

definition setPropertiesToEdgeRow ::
  "'a env_scheme \<Rightarrow> schema \<Rightarrow> edge option list \<Rightarrow> request_config option \<Rightarrow> row_actor list
   \<Rightarrow> entity_row option list go" where
  "setPropertiesToEdgeRow env sch rows config schedule =
     (let n = length rows in
      conversion_result (conversion_run n (\<lambda>i. checkEdgeProperties sch (rows ! i) i)
        (\<lambda>i. doConvertSdkEdgeRowToUltipaEdgeRow env sch (rows ! i) i config)
        (conversion_schedule n schedule) (conversion_start n)))"

section \<open>The conversion ends\<close>

lemma run_simps [simp]:
  "conversion_run n check conv [] s = s"
  "conversion_run n check conv (a # as) s
    = conversion_run n check conv as (conversion_exec n check conv a s)"
  "conversion_run n check conv (as @ bs) s
    = conversion_run n check conv bs (conversion_run n check conv as s)"
  by (simp_all add: conversion_run_def)

lemma run_invariant:
  assumes "I s" "\<And>a s. I s \<Longrightarrow> I (conversion_exec n check conv a s)"
  shows "I (conversion_run n check conv as s)"
  using assms by (induction as arbitrary: s) auto

definition rank :: "nat \<Rightarrow> conversion \<Rightarrow> nat" where
  "rank n s =
     (case cv_Main s of
        Checking \<Rightarrow> 2 * (n - cv_Next s) + 1
      | Selecting \<Rightarrow> 2 * (n - cv_Next s) + 2
      | _ \<Rightarrow> 0)"

lemma rank_step: "rank n (main_step n check s) \<le> rank n s - 1"
  by (auto simp: rank_def main_step_def split: main_pc.splits go.splits)

lemma rank_bound: "rank n s \<le> 2 * n + 2"
  by (auto simp: rank_def split: main_pc.split)

lemma rank_main_steps:
  "rank n (conversion_run n check conv (replicate k Main) s) \<le> rank n s - k"
proof (induction k arbitrary: s)
  case 0
  then show ?case by simp
next
  case (Suc k)
  have "rank n (conversion_run n check conv (replicate k Main) (main_step n check s))
      \<le> rank n (main_step n check s) - k" by (rule Suc)
  also have "\<dots> \<le> rank n s - Suc k" using rank_step [of n check s] by simp
  finally show ?case by (simp add: conversion_exec_def)
qed

definition stopped :: "main_pc \<Rightarrow> bool" where
  "stopped m = (case m of Returned e \<Rightarrow> True | Crashed p \<Rightarrow> True | _ \<Rightarrow> False)"

text \<open>When the loop waits, every goroutine has been started.\<close>

definition waits_for_all :: "nat \<Rightarrow> conversion \<Rightarrow> bool" where
  "waits_for_all n s \<longleftrightarrow> (cv_Main s = Waiting \<longrightarrow> n \<le> cv_Next s)"

lemma waits_for_all_exec:
  "waits_for_all n s \<Longrightarrow> waits_for_all n (conversion_exec n check conv a s)"
  by (auto simp: waits_for_all_def conversion_exec_def main_step_def row_step_def
      split: row_actor.split main_pc.splits row_pc.splits go.splits if_splits)

lemma stopped_or_waiting:
  assumes "waits_for_all n s"
  shows "stopped (cv_Main (conversion_run n check conv (replicate (2 * n + 2) Main) s)) \<or>
    (cv_Main (conversion_run n check conv (replicate (2 * n + 2) Main) s) = Waiting \<and>
     n \<le> cv_Next (conversion_run n check conv (replicate (2 * n + 2) Main) s))"
proof -
  let ?t = "conversion_run n check conv (replicate (2 * n + 2) Main) s"
  have "rank n ?t = 0" using rank_main_steps [of n check conv "2 * n + 2" s] rank_bound [of n s] by simp
  moreover have "waits_for_all n ?t"
    by (rule run_invariant [of "waits_for_all n"]) (auto simp: assms waits_for_all_exec)
  ultimately show ?thesis
    by (auto simp: rank_def stopped_def waits_for_all_def split: main_pc.splits)
qed

lemma row_step_main:
  "cv_Main (row_step conv i s) = cv_Main s \<or> is_crashed (cv_Main (row_step conv i s))"
  by (auto simp: row_step_def is_crashed_def split: row_pc.splits go.splits)

lemma row_step_done:
  "cv_Pc s i = RowDone \<Longrightarrow> cv_Pc (row_step conv j s) i = RowDone"
  by (auto simp: row_step_def split: row_pc.splits go.splits)

lemma row_step_next [simp]: "cv_Next (row_step conv i s) = cv_Next s"
  by (auto simp: row_step_def split: row_pc.splits go.splits)

lemma two_row_steps:
  assumes "i < cv_Next s"
  shows "is_crashed (cv_Main (row_step conv i (row_step conv i s))) \<or>
    cv_Pc (row_step conv i (row_step conv i s)) i = RowDone"
  using assms by (cases "cv_Pc s i"; cases "conv i")
    (auto simp: row_step_def is_crashed_def split: main_pc.splits)

lemma rows_phase:
  fixes check :: "nat \<Rightarrow> unit go" and conv :: "nat \<Rightarrow> entity_row go"
  assumes "n \<le> cv_Next s" "cv_Main s = Waiting \<or> is_crashed (cv_Main s)" "m \<le> n"
  defines "t \<equiv> conversion_run n check conv (concat (map (\<lambda>i. [Row i, Row i]) [0..<m])) s"
  shows "is_crashed (cv_Main t) \<or>
    cv_Main t = Waiting \<and> n \<le> cv_Next t \<and> (\<forall>i < m. cv_Pc t i = RowDone)"
  using assms(3) unfolding t_def
proof (induction m)
  case 0
  then show ?case using assms(1,2) by auto
next
  case (Suc m)
  let ?t = "conversion_run n check conv (concat (map (\<lambda>i. [Row i, Row i]) [0..<m])) s"
  let ?u = "row_step conv m (row_step conv m ?t)"
  have e: "conversion_run n check conv (concat (map (\<lambda>i. [Row i, Row i]) [0..<Suc m])) s = ?u"
    by (simp add: conversion_exec_def)
  have ih: "is_crashed (cv_Main ?t) \<or>
    cv_Main ?t = Waiting \<and> n \<le> cv_Next ?t \<and> (\<forall>i < m. cv_Pc ?t i = RowDone)" using Suc by simp
  show ?case unfolding e
  proof (cases "is_crashed (cv_Main ?u)")
    case False
    then have w: "cv_Main ?u = cv_Main (row_step conv m ?t)" "\<not> is_crashed (cv_Main (row_step conv m ?t))"
      using row_step_main [of conv m "row_step conv m ?t"] by auto
    then have "cv_Main (row_step conv m ?t) = cv_Main ?t"
      using row_step_main [of conv m ?t] by auto
    with w ih have t: "cv_Main ?u = Waiting" "n \<le> cv_Next ?t" "\<forall>i < m. cv_Pc ?t i = RowDone" by auto
    then have "cv_Pc ?u m = RowDone"
      using False two_row_steps [of m ?t conv] Suc.prems by auto
    moreover have "cv_Pc ?u i = RowDone" if "i < m" for i
      using t(3) that by (simp add: row_step_done)
    ultimately have "\<forall>i < Suc m. cv_Pc ?u i = RowDone" by (simp add: less_Suc_eq)
    then show "is_crashed (cv_Main ?u) \<or>
      cv_Main ?u = Waiting \<and> n \<le> cv_Next ?u \<and> (\<forall>i < Suc m. cv_Pc ?u i = RowDone)"
      using t(1,2) by simp
  qed simp
qed

lemma stopped_exec:
  "stopped (cv_Main s) \<Longrightarrow> stopped (cv_Main (conversion_exec n check conv a s))"
  by (auto simp: stopped_def conversion_exec_def main_step_def row_step_def
      split: row_actor.split main_pc.splits row_pc.splits go.splits)

lemma conversion_ends:
  "stopped (cv_Main (conversion_run n check conv (conversion_schedule n schedule) (conversion_start n)))"
proof -
  let ?s1 = "conversion_run n check conv schedule (conversion_start n)"
  let ?s2 = "conversion_run n check conv (replicate (2 * n + 2) Main) ?s1"
  let ?s3 = "conversion_run n check conv (concat (map (\<lambda>i. [Row i, Row i]) [0..<n])) ?s2"
  have e: "conversion_run n check conv (conversion_schedule n schedule) (conversion_start n)
      = main_step n check ?s3"
    by (simp add: conversion_schedule_def conversion_exec_def del: replicate_Suc)
  have "waits_for_all n ?s1"
    by (rule run_invariant [of "waits_for_all n"], simp add: waits_for_all_def conversion_start_def,
      rule waits_for_all_exec)
  from stopped_or_waiting [OF this, of check conv] show ?thesis
  proof (elim disjE conjE)
    assume "stopped (cv_Main ?s2)"
    then have "stopped (cv_Main (conversion_run n check conv
        (concat (map (\<lambda>i. [Row i, Row i]) [0..<n]) @ [Main]) ?s2))"
      by (rule run_invariant [of "\<lambda>s. stopped (cv_Main s)"]) (rule stopped_exec)
    then show ?thesis unfolding e by (simp add: conversion_exec_def)
  next
    assume "cv_Main ?s2 = Waiting" "n \<le> cv_Next ?s2"
    from rows_phase [OF this(2) disjI1 [OF this(1)] order_refl, of check conv] show ?thesis
      unfolding e by (auto simp: main_step_def stopped_def is_crashed_def list_all_iff
          split: main_pc.splits)
  qed
qed

section \<open>What the conversion promises\<close>

text \<open>
  Whatever the schedule: an error, kept or returned, is the error of a row; a panic is the panic
  of a row; and a row that is stored is the conversion of the row at its own index.
\<close>

definition conversion_inv ::
  "nat \<Rightarrow> (nat \<Rightarrow> unit go) \<Rightarrow> (nat \<Rightarrow> entity_row go) \<Rightarrow> conversion \<Rightarrow> bool" where
  "conversion_inv n check conv s \<longleftrightarrow>
     (let failing = (\<lambda>e. \<exists>i < n. check i = Fail e \<or> conv i = Fail e) in
      cv_Next s \<le> n \<and> length (cv_Rows s) = n \<and>
      (\<forall>e. cv_Err s = Some e \<longrightarrow> failing e) \<and>
      (\<forall>e. cv_Main s = Returned (Some e) \<longrightarrow> failing e) \<and>
      (\<forall>p. cv_Main s = Crashed p \<longrightarrow> (\<exists>i < n. check i = Panic p \<or> conv i = Panic p)) \<and>
      (\<forall>i r. cv_Pc s i = Storing (Some r) \<longrightarrow> conv i = Ret r) \<and>
      (\<forall>i < n. \<forall>r. cv_Rows s ! i = Some r \<longrightarrow> conv i = Ret r))"

lemma conversion_inv_start: "conversion_inv n check conv (conversion_start n)"
  by (simp add: conversion_inv_def conversion_start_def)

lemma conversion_inv_main:
  assumes "conversion_inv n check conv s"
  shows "conversion_inv n check conv (main_step n check s)"
proof (cases "cv_Main s")
  case Checking
  then show ?thesis using assms
    by (cases "check (cv_Next s)")
      (auto simp: conversion_inv_def main_step_def Let_def not_le intro: exI [of _ "cv_Next s"])
qed (use assms in \<open>auto simp: conversion_inv_def main_step_def Let_def\<close>)

lemma conversion_inv_row:
  assumes "conversion_inv n check conv s"
  shows "conversion_inv n check conv (row_step conv i s)"
proof (cases "cv_Next s \<le> i \<or> is_crashed (cv_Main s)")
  case True
  then show ?thesis using assms by (simp add: row_step_def)
next
  case False
  then have i: "i < n" using assms by (auto simp: conversion_inv_def Let_def)
  show ?thesis
  proof (cases "cv_Pc s i")
    case Converting
    then show ?thesis using assms False i
      by (cases "conv i")
        (auto simp: conversion_inv_def row_step_def Let_def is_crashed_def intro: exI [of _ i])
  next
    case (Storing r)
    then show ?thesis using assms False i
      by (auto simp: conversion_inv_def row_step_def Let_def nth_list_update)
  next
    case RowDone
    then show ?thesis using assms False by (simp add: row_step_def)
  qed
qed

lemma conversion_inv_exec:
  "conversion_inv n check conv s \<Longrightarrow> conversion_inv n check conv (conversion_exec n check conv a s)"
  by (cases a) (simp_all add: conversion_exec_def conversion_inv_main conversion_inv_row)

lemma conversion_inv_run:
  "conversion_inv n check conv (conversion_run n check conv as (conversion_start n))"
  by (rule run_invariant [of "conversion_inv n check conv"], rule conversion_inv_start,
    rule conversion_inv_exec)

definition converted ::
  "nat \<Rightarrow> (nat \<Rightarrow> unit go) \<Rightarrow> (nat \<Rightarrow> entity_row go) \<Rightarrow> row_actor list \<Rightarrow> entity_row option list go" where
  "converted n check conv schedule =
     conversion_result (conversion_run n check conv (conversion_schedule n schedule) (conversion_start n))"

lemma converted_sound:
  "case converted n check conv schedule of
     Ret rows \<Rightarrow> length rows = n \<and> (\<forall>i < n. \<forall>r. rows ! i = Some r \<longrightarrow> conv i = Ret r)
   | Fail e \<Rightarrow> \<exists>i < n. check i = Fail e \<or> conv i = Fail e
   | Panic p \<Rightarrow> \<exists>i < n. check i = Panic p \<or> conv i = Panic p"
  using conversion_inv_run [of n check conv "conversion_schedule n schedule"]
    conversion_ends [of n check conv schedule]
  by (auto simp: converted_def conversion_result_def conversion_inv_def stopped_def Let_def
      split: main_pc.splits option.splits)

text \<open>When no row fails, nothing is lost.\<close>

definition clean_inv :: "nat \<Rightarrow> (nat \<Rightarrow> entity_row) \<Rightarrow> conversion \<Rightarrow> bool" where
  "clean_inv n f s \<longleftrightarrow>
     cv_Next s \<le> n \<and> length (cv_Rows s) = n \<and> cv_Err s = None \<and> \<not> cv_Cancelled s \<and>
     \<not> is_crashed (cv_Main s) \<and>
     (\<forall>e. cv_Main s = Returned e \<longrightarrow> e = None \<and> (\<forall>i < n. cv_Pc s i = RowDone)) \<and>
     (\<forall>i r. cv_Pc s i = Storing r \<longrightarrow> r = Some (f i)) \<and>
     (\<forall>i < n. cv_Pc s i = RowDone \<longrightarrow> cv_Rows s ! i = Some (f i))"

lemma clean_inv_exec:
  assumes "clean_inv n f s" "\<And>i. i < n \<Longrightarrow> check i = Ret ()" "\<And>i. i < n \<Longrightarrow> conv i = Ret (f i)"
  shows "clean_inv n f (conversion_exec n check conv a s)"
proof (cases a)
  case Main
  then show ?thesis using assms
    by (auto simp: clean_inv_def conversion_exec_def main_step_def is_crashed_def list_all_iff
        split: main_pc.splits go.splits)
next
  case (Row i)
  show ?thesis
  proof (cases "cv_Next s \<le> i")
    case True
    then show ?thesis using assms Row by (simp add: conversion_exec_def row_step_def)
  next
    case False
    then have "conv i = Ret (f i)" "\<not> is_crashed (cv_Main s)" "i < n"
      using assms by (auto simp: clean_inv_def)
    then show ?thesis using assms(1) Row False
      by (cases "cv_Pc s i")
        (auto simp: clean_inv_def conversion_exec_def row_step_def nth_list_update)
  qed
qed

lemma converted_clean:
  assumes "\<And>i. i < n \<Longrightarrow> check i = Ret ()" "\<And>i. i < n \<Longrightarrow> conv i = Ret (f i)"
  shows "converted n check conv schedule = Ret (map (\<lambda>i. Some (f i)) [0..<n])"
proof -
  let ?t = "conversion_run n check conv (conversion_schedule n schedule) (conversion_start n)"
  have "clean_inv n f ?t"
    by (rule run_invariant [of "clean_inv n f"],
      simp add: clean_inv_def conversion_start_def is_crashed_def, rule clean_inv_exec)
      (use assms in auto)
  then show ?thesis using conversion_ends [of n check conv schedule]
    by (auto simp: clean_inv_def converted_def conversion_result_def stopped_def is_crashed_def
        intro!: nth_equalityI split: main_pc.splits option.splits)
qed

lemma node_rows_converted:
  "setPropertiesToNodeRow env sch rows config schedule
   = converted (length rows) (\<lambda>i. checkNodeProperties sch (rows ! i) i)
       (\<lambda>i. doConvertSdkNodeRowToUltipaNodeRow env sch (rows ! i) i config) schedule"
  by (simp add: setPropertiesToNodeRow_def converted_def Let_def)

lemma edge_rows_converted:
  "setPropertiesToEdgeRow env sch rows config schedule
   = converted (length rows) (\<lambda>i. checkEdgeProperties sch (rows ! i) i)
       (\<lambda>i. doConvertSdkEdgeRowToUltipaEdgeRow env sch (rows ! i) i config) schedule"
  by (simp add: setPropertiesToEdgeRow_def converted_def Let_def)

text \<open>
  Property C39. Whatever the schedule, the rows of an insertion are converted soundly: a returned
  error is the error of checking or converting some row, a panic is that of some row, and
  otherwise there is a place for every row, and what is stored there is that very row's
  conversion, never another's.
\<close>

theorem conversion_sound:
  "case setPropertiesToNodeRow env sch rows config schedule of
     Ret out \<Rightarrow> length out = length rows \<and> (\<forall>i < length rows. \<forall>r. out ! i = Some r \<longrightarrow>
       doConvertSdkNodeRowToUltipaNodeRow env sch (rows ! i) i config = Ret r)
   | Fail e \<Rightarrow> \<exists>i < length rows. checkNodeProperties sch (rows ! i) i = Fail e \<or>
       doConvertSdkNodeRowToUltipaNodeRow env sch (rows ! i) i config = Fail e
   | Panic p \<Rightarrow> \<exists>i < length rows. checkNodeProperties sch (rows ! i) i = Panic p \<or>
       doConvertSdkNodeRowToUltipaNodeRow env sch (rows ! i) i config = Panic p"
  unfolding node_rows_converted by (rule converted_sound)

lemma convert_split:
  "convertSdkNodeRowToUltipaNodeRow env sch row i config = Ret r \<longleftrightarrow>
     checkNodeProperties sch row i = Ret () \<and>
     doConvertSdkNodeRowToUltipaNodeRow env sch row i config = Ret r"
  by (auto simp: convertSdkNodeRowToUltipaNodeRow_def go_simps)

text \<open>
  Property C13. The concurrent conversion of rows agrees with the sequential one of the automatic
  batches: when every row converts one by one, then under every schedule the goroutines give
  exactly those rows, each at its index, and no error.
\<close>

theorem conversion_schedule_free:
  assumes "\<And>i. i < length rows \<Longrightarrow>
    convertSdkNodeRowToUltipaNodeRow env sch (rows ! i) i config = Ret (f i)"
  shows "setPropertiesToNodeRow env sch rows config schedule
    = Ret (map (\<lambda>i. Some (f i)) [0..<length rows])"
  unfolding node_rows_converted
  by (rule converted_clean) (use assms in \<open>auto simp: convert_split\<close>)

text \<open>A schema of one int64 property, and nodes that fit it.\<close>

definition sample_schema :: schema where
  "sample_schema = (NewSchema ''s'')\<lparr>sc_Properties :=
     [empty_property\<lparr>prop_name := ''x'', prop_type := PT_INT64\<rparr>]\<rparr>"

definition sample_node :: "gostring \<Rightarrow> gval \<Rightarrow> node" where
  "sample_node i v = NewNode\<lparr>nd_ID := i, nd_Schema := ''s'', nd_Values := Some [''x'' \<mapsto> v]\<rparr>"

lemma sample_data_properties:
  "data_properties (sc_Properties sample_schema)
    = [empty_property\<lparr>prop_name := ''x'', prop_type := PT_INT64\<rparr>]"
  by (simp add: data_properties_def sample_schema_def IsIDType_def IsIgnore_def id_types_def)

lemma sample_name: "sc_Name sample_schema = ''s''"
  by (simp add: sample_schema_def NewSchema_def)

lemma sample_check: "checkNodeProperties sample_schema (Some (sample_node i v)) k = Ret ()"
  by (simp add: checkNodeProperties_def CheckValuesAndProperties_def sample_data_properties sample_node_def
      Let_def)

definition sample_converted :: "gostring \<Rightarrow> bytes \<Rightarrow> entity_row" where
  "sample_converted i bs = \<lparr>er_Id = i, er_Uuid = 0, er_FromId = [], er_FromUuid = 0, er_ToId = [],
     er_ToUuid = 0, er_SchemaName = ''s'', er_Values = [bs], er_IsNull = False\<rparr>"

lemma sample_conversion:
  "doConvertSdkNodeRowToUltipaNodeRow toy_env sample_schema (Some (sample_node i (GInt64 v))) k config
    = Ret (sample_converted i (put_uint64 v))"
  "doConvertSdkNodeRowToUltipaNodeRow toy_env sample_schema (Some (sample_node i (GBool b))) k config
    = Fail (Err (''node row ['' @ itoa (int k)
        @ ''] error: failed to serialize value of property x,value=''))"
  by (simp_all add: doConvertSdkNodeRowToUltipaNodeRow_def sample_data_properties convert_property_def
      sample_node_def Values_Contain_def Values_Get_def ConvertInterfaceToBytesSafe.simps
      serialize_scalar_def ConvertInterfaceToBytes_def NewNode_def sample_name sample_converted_def
      empty_property_def)

definition sample_edge :: "gostring \<Rightarrow> gostring \<Rightarrow> int64 \<Rightarrow> edge" where
  "sample_edge a b v = NewEdge\<lparr>ed_From := a, ed_To := b, ed_Schema := ''s'',
     ed_Values := Some [''x'' \<mapsto> GInt64 v]\<rparr>"

definition sample_edge_row :: "gostring \<Rightarrow> gostring \<Rightarrow> bytes \<Rightarrow> entity_row" where
  "sample_edge_row a b bs = \<lparr>er_Id = [], er_Uuid = 0, er_FromId = a, er_FromUuid = 0, er_ToId = b,
     er_ToUuid = 0, er_SchemaName = ''s'', er_Values = [bs], er_IsNull = False\<rparr>"

lemma sample_edge_check:
  "is_id a \<Longrightarrow> is_id b \<Longrightarrow> checkEdgeProperties sample_schema (Some (sample_edge a b v)) k = Ret ()"
  by (simp add: checkEdgeProperties_def CheckEdgeRows_def CheckValuesAndProperties_def sample_data_properties
      sample_edge_def NewEdge_def Let_def)

lemma sample_edge_conversion:
  "doConvertSdkEdgeRowToUltipaEdgeRow toy_env sample_schema (Some (sample_edge a b v)) k None
    = Ret (sample_edge_row a b (put_uint64 v))"
  by (simp add: doConvertSdkEdgeRowToUltipaEdgeRow_def sample_data_properties convert_property_def
      sample_edge_def Values_Contain_def Values_Get_def ConvertInterfaceToBytesSafe.simps
      serialize_scalar_def ConvertInterfaceToBytes_def NewEdge_def sample_name sample_edge_row_def
      empty_property_def)

lemma conversion_schedule_free_witness:
  "setPropertiesToNodeRow toy_env sample_schema
      [Some (sample_node ''a'' (GInt64 1)), Some (sample_node ''b'' (GInt64 1))] None
      [Main, Row 0, Main, Main, Row 1, Row 0]
    = Ret [Some (sample_converted ''a'' (put_uint64 1)), Some (sample_converted ''b'' (put_uint64 1))]"
proof -
  let ?rows = "[Some (sample_node ''a'' (GInt64 1)), Some (sample_node ''b'' (GInt64 1))]"
  have "convertSdkNodeRowToUltipaNodeRow toy_env sample_schema (?rows ! i) i None
      = Ret (sample_converted (if i = 0 then ''a'' else ''b'') (put_uint64 1))" if "i < length ?rows" for i
  proof -
    have "i = 0 \<or> i = 1" using that by auto
    then show ?thesis by (elim disjE) (simp_all add: convert_split sample_check sample_conversion)
  qed
  from conversion_schedule_free [where rows = ?rows, OF this,
      of "[Main, Row 0, Main, Main, Row 1, Row 0]"]
  show ?thesis by (simp add: upt_rec)
qed

lemma conversion_sound_witness:
  "case setPropertiesToNodeRow toy_env sample_schema [Some (sample_node ''a'' (GInt64 1))] None
      [Row 0, Main] of
     Ret out \<Rightarrow> out ! 0 \<in> {None, Some (sample_converted ''a'' (put_uint64 1))}
   | Fail e \<Rightarrow> False
   | Panic p \<Rightarrow> False"
  using conversion_sound [where env = toy_env and sch = sample_schema and config = None
      and rows = "[Some (sample_node ''a'' (GInt64 1))]" and schedule = "[Row 0, Main]"]
  by (simp add: sample_conversion sample_check split: go.splits)
    (metis not_None_eq option.inject)

text \<open>The same in two parts, for the calls that carry the rows.\<close>

lemma node_rows_sound:
  assumes "setPropertiesToNodeRow env sch rows config schedule = Ret out"
  shows "length out = length rows \<and> (\<forall>i < length rows. \<forall>r. out ! i = Some r \<longrightarrow>
       doConvertSdkNodeRowToUltipaNodeRow env sch (rows ! i) i config = Ret r)"
  using converted_sound [where n = "length rows" and check = "\<lambda>i. checkNodeProperties sch (rows ! i) i"
      and conv = "\<lambda>i. doConvertSdkNodeRowToUltipaNodeRow env sch (rows ! i) i config" and schedule = schedule] assms
  unfolding node_rows_converted by simp

lemma node_rows_complete:
  assumes "setPropertiesToNodeRow env sch rows config schedule = Ret out"
  shows "(\<forall>i < length rows. is_ret (convertSdkNodeRowToUltipaNodeRow env sch (rows ! i) i config))
    \<longrightarrow> None \<notin> set out"
proof
  assume "\<forall>i < length rows. is_ret (convertSdkNodeRowToUltipaNodeRow env sch (rows ! i) i config)"
  then obtain f where f: "\<And>i. i < length rows \<Longrightarrow>
      convertSdkNodeRowToUltipaNodeRow env sch (rows ! i) i config = Ret (f i)"
    unfolding is_ret_iff by metis
  have "setPropertiesToNodeRow env sch rows config schedule = Ret (map (\<lambda>i. Some (f i)) [0..<length rows])"
    unfolding node_rows_converted by (rule converted_clean) (use f in \<open>auto simp: convert_split\<close>)
  with assms show "None \<notin> set out" by auto
qed

text \<open>
  The shared error variable loses errors: when the first of two rows fails to
  convert and the second succeeds, there is a schedule under which no error is returned and
  the first row is silently left nil in the request, because the success of the second row
  overwrites the error before its goroutine looks at it.
\<close>

theorem conversion_error_lost:
  assumes "checkNodeProperties sch a 0 = Ret ()" "checkNodeProperties sch b 1 = Ret ()"
    "doConvertSdkNodeRowToUltipaNodeRow env sch a 0 config = Fail e"
    "doConvertSdkNodeRowToUltipaNodeRow env sch b 1 config = Ret r"
  shows "setPropertiesToNodeRow env sch [a, b] config [Main, Main, Main, Row 0, Row 1]
    = Ret [None, Some r]"
proof -
  let ?check = "\<lambda>i. checkNodeProperties sch ([a, b] ! i) i"
  let ?conv = "\<lambda>i. doConvertSdkNodeRowToUltipaNodeRow env sch ([a, b] ! i) i config"
  have c: "?check 0 = Ret ()" "?check 1 = Ret ()" "?check (Suc 0) = Ret ()"
    "?conv 0 = Fail e" "?conv 1 = Ret r" "?conv (Suc 0) = Ret r" using assms by simp_all
  have sched: "conversion_schedule 2 [Main, Main, Main, Row 0, Row 1]
    = [Main, Main, Main, Row 0, Row 1, Main, Main, Main, Main, Main, Main, Row 0, Row 0, Row 1, Row 1, Main]"
    by (simp add: conversion_schedule_def numeral_eq_Suc upt_rec)
  have "converted 2 check conv [Main, Main, Main, Row 0, Row 1] = Ret [None, Some r]"
    if "check 0 = Ret ()" "check (Suc 0) = Ret ()" "conv 0 = Fail e" "conv (Suc 0) = Ret r" for check conv
    unfolding converted_def sched run_simps using that
    by (simp add: conversion_exec_def conversion_start_def main_step_def row_step_def is_crashed_def
        conversion_result_def numeral_2_eq_2)
  from this [of ?check ?conv] show ?thesis using c by (simp add: node_rows_converted numeral_2_eq_2)
qed

lemma conversion_error_lost_witness:
  "setPropertiesToNodeRow toy_env sample_schema
      [Some (sample_node ''a'' (GBool True)), Some (sample_node ''b'' (GInt64 1))] None
      [Main, Main, Main, Row 0, Row 1] = Ret [None, Some (sample_converted ''b'' (put_uint64 1))]"
  by (rule conversion_error_lost) (simp_all add: sample_check sample_conversion)

section \<open>What the check accepts\<close>

lemma check_values_iff:
  assumes "finite (dom v)" "distinct (map prop_name (data_properties ps))"
  shows "CheckValuesAndProperties ps (Some v) i = Ret () \<longleftrightarrow>
    dom v = prop_name ` set (data_properties ps)"
proof -
  let ?names = "prop_name ` set (data_properties ps)"
  have c: "card ?names = length (data_properties ps)"
    using distinct_card [OF assms(2)] by simp
  show ?thesis
  proof (cases "data_properties ps = []")
    case True
    then show ?thesis using assms(1)
      by (auto simp: CheckValuesAndProperties_def row_error_def)
  next
    case False
    have "CheckValuesAndProperties ps (Some v) i = Ret () \<longleftrightarrow>
        card (dom v) = length (data_properties ps) \<and>
        List.find (\<lambda>p. v (prop_name p) = None) (data_properties ps) = None"
      using False by (auto simp: CheckValuesAndProperties_def Let_def row_error_def split: option.split)
    also have "List.find (\<lambda>p. v (prop_name p) = None) (data_properties ps) = None \<longleftrightarrow> ?names \<subseteq> dom v"
      by (auto simp: find_None_iff)
    also have "card (dom v) = length (data_properties ps) \<and> ?names \<subseteq> dom v \<longleftrightarrow> dom v = ?names"
      unfolding c [symmetric] using card_subset_eq [OF assms(1), of ?names] by fastforce
    finally show ?thesis .
  qed
qed

text \<open>
  An edge is accepted for insertion exactly when its values are those of the
  properties of the schema that carry one, no more and no fewer, and its end points are
  given in pairs: both ids or none, both uuids or none, and at least one of the two pairs.
\<close>

theorem edge_row_accepted:
  assumes "ed_Values e = Some v" "finite (dom v)" "distinct (map prop_name (data_properties ps))"
  shows "CheckEdgeRows e ps i = Ret () \<longleftrightarrow>
    dom v = prop_name ` set (data_properties ps) \<and>
    is_id (ed_From e) = is_id (ed_To e) \<and> (ed_FromUUID e \<noteq> 0) = (ed_ToUUID e \<noteq> 0) \<and>
    (is_id (ed_From e) \<or> ed_FromUUID e \<noteq> 0)"
  using check_values_iff [OF assms(2,3), of i] assms(1)
  by (auto simp: CheckEdgeRows_def go_simps Let_def row_error_def)

lemma edge_row_accepted_witness:
  "CheckEdgeRows (NewEdge\<lparr>ed_From := ''a'', ed_To := ''b'', ed_Values := Some [''x'' \<mapsto> GNil]\<rparr>)
      (sc_Properties sample_schema) 0 = Ret ()"
  using edge_row_accepted [of "NewEdge\<lparr>ed_From := ''a'', ed_To := ''b'', ed_Values := Some [''x'' \<mapsto> GNil]\<rparr>"
      "[''x'' \<mapsto> GNil]" "sc_Properties sample_schema" 0]
  by (simp add: sample_data_properties is_id_def NewEdge_def)

section \<open>An inserted node, read back\<close>

lemma set_row_values_decodes:
  assumes "sc_Properties sch = qs @ map property_of_proto hs"
    "list_all2 (\<lambda>h b. ConvertBytesToInterface env b (pp_PropertyType h) (pp_SubTypes h) = Ret (g h)) hs bs"
  shows "set_row_values env (Some sch) (length qs) bs m
    = Ret (vals.put_all m (map (\<lambda>h. (pp_PropertyName h, g h)) hs))"
  using assms(2,1)
proof (induction hs bs arbitrary: qs m rule: list_all2_induct)
  case Nil
  then show ?case by simp
next
  case (Cons h hs b bs)
  have "set_row_values env (Some sch) (length (qs @ [property_of_proto h])) bs
      (Values_Set m (pp_PropertyName h) (g h))
    = Ret (vals.put_all (Values_Set m (pp_PropertyName h) (g h)) (map (\<lambda>h. (pp_PropertyName h, g h)) hs))"
    by (rule Cons.IH) (simp add: Cons.prems)
  then show ?case using Cons.hyps Cons.prems
    by (simp add: go_nth_def nth_append property_of_proto_def)
qed

definition proto_of_property :: "property \<Rightarrow> proto_property" where
  "proto_of_property p = \<lparr>pp_PropertyName = prop_name p, pp_PropertyType = prop_type p,
     pp_SubTypes = prop_subtypes p\<rparr>"

lemma proto_of_property_simps [simp]:
  "pp_PropertyName (proto_of_property p) = prop_name p"
  "pp_PropertyType (proto_of_property p) = prop_type p"
  "pp_SubTypes (proto_of_property p) = prop_subtypes p"
  by (simp_all add: proto_of_property_def)

lemma insert_schema_eq:
  "insert_schema sch = \<lparr>ps_SchemaName = sc_Name sch,
     ps_Properties = map proto_of_property (data_properties (sc_Properties sch))\<rparr>"
  by (simp add: insert_schema_def proto_of_property_def)

text \<open>The values of a row are of the Go types of their properties.\<close>

definition well_typed :: "property list \<Rightarrow> values_map \<Rightarrow> bool" where
  "well_typed ps v \<longleftrightarrow>
     list_all (\<lambda>p. \<exists>x. v (prop_name p) = Some x \<and> has_go_type x (prop_type p)) ps"

lemma convert_property_typed:
  assumes "v (prop_name p) = Some x" "has_go_type x (prop_type p)"
  shows "\<exists>bs. convert_property env what (Some v) i config p = Ret bs \<and>
    ConvertBytesToInterface env bs (prop_type p) (prop_subtypes p) = Ret (read_back env x (prop_type p))"
proof -
  obtain bs where "ConvertInterfaceToBytesSafe env x (prop_type p) (prop_subtypes p) config = Ret bs"
    "ConvertBytesToInterface env bs (prop_type p) (prop_subtypes p) = Ret (read_back env x (prop_type p))"
    using scalar_codec [OF assms(2)] by blast
  then show ?thesis using assms(1)
    by (simp add: convert_property_def Values_Contain_def Values_Get_def)
qed

definition value_read :: "'a env_scheme \<Rightarrow> values_map \<Rightarrow> proto_property \<Rightarrow> gval" where
  "value_read env v h = read_back env (the (v (pp_PropertyName h))) (pp_PropertyType h)"

lemma convert_values:
  assumes "well_typed ps v"
  shows "\<exists>bs. go_map (convert_property env what (Some v) i config) ps = Ret bs \<and>
    list_all2 (\<lambda>h b. ConvertBytesToInterface env b (pp_PropertyType h) (pp_SubTypes h)
      = Ret (value_read env v h)) (map proto_of_property ps) bs"
  using assms
proof (induction ps)
  case Nil
  then show ?case by simp
next
  case (Cons p ps)
  then obtain bs where bs: "go_map (convert_property env what (Some v) i config) ps = Ret bs"
    "list_all2 (\<lambda>h b. ConvertBytesToInterface env b (pp_PropertyType h) (pp_SubTypes h)
      = Ret (value_read env v h)) (map proto_of_property ps) bs" by (auto simp: well_typed_def)
  obtain x where x: "v (prop_name p) = Some x" "has_go_type x (prop_type p)"
    using Cons.prems by (auto simp: well_typed_def)
  from convert_property_typed [of v p x, OF x] obtain b where
    "convert_property env what (Some v) i config p = Ret b"
    "ConvertBytesToInterface env b (prop_type p) (prop_subtypes p) = Ret (read_back env x (prop_type p))"
    by blast
  with bs x(1) show ?case by (simp add: value_read_def)
qed

text \<open>
  The values of a converted row decode, under any schema with the properties that were sent, to the
  values they came from.
\<close>

lemma converted_values:
  fixes env :: "'a env_scheme" and i :: nat and config :: "request_config option"
  assumes "distinct (map prop_name ps)" "well_typed ps v"
  shows "\<exists>bs vals. go_map (convert_property env what (Some v) i config) ps = Ret bs \<and>
    (\<forall>s. sc_Properties s = map property_of_proto (map proto_of_property ps) \<longrightarrow>
       set_row_values env (Some s) 0 bs NewValues = Ret vals) \<and>
    (\<forall>p \<in> set ps. \<forall>x. v (prop_name p) = Some x \<longrightarrow>
       same_value x (prop_type p) (Values_Get vals (prop_name p)))"
proof -
  let ?hs = "map proto_of_property ps"
  let ?kvs = "map (\<lambda>h. (pp_PropertyName h, value_read env v h)) ?hs"
  from convert_values [OF assms(2), of env what i config] obtain bs where bs:
    "go_map (convert_property env what (Some v) i config) ps = Ret bs"
    "list_all2 (\<lambda>h b. ConvertBytesToInterface env b (pp_PropertyType h) (pp_SubTypes h)
      = Ret (value_read env v h)) ?hs bs" by blast
  have "set_row_values env (Some s) 0 bs NewValues = Ret (vals.put_all NewValues ?kvs)"
    if "sc_Properties s = map property_of_proto ?hs" for s
    using set_row_values_decodes [of s "[]" ?hs env "value_read env v" bs NewValues] bs(2) that by simp
  moreover have "same_value x (prop_type p) (Values_Get (vals.put_all NewValues ?kvs) (prop_name p))"
    if mem: "p \<in> set ps" and x: "v (prop_name p) = Some x" for p x
  proof -
    have t: "has_go_type x (prop_type p)" using assms(2) mem x by (auto simp: well_typed_def list_all_iff)
    obtain j where j: "j < length ps" "ps ! j = p" using mem unfolding in_set_conv_nth by blast
    have "distinct (map fst ?kvs)" using assms(1) by (simp add: comp_def)
    from vals.get_put_all_distinct [OF this, of j NewValues] j x
    have "Values_Get (vals.put_all NewValues ?kvs) (prop_name p) = read_back env x (prop_type p)"
      by (simp add: value_read_def)
    then show ?thesis using read_back_same [OF t] by simp
  qed
  ultimately show ?thesis using bs(1)
    by (intro exI [of _ bs] exI [of _ "vals.put_all NewValues ?kvs"]) simp
qed

lemma converted_node_row:
  fixes env :: "'a env_scheme" and i :: nat and config :: "request_config option" and sch :: schema
  defines "ps \<equiv> data_properties (sc_Properties sch)"
  assumes "nd_Values n = Some v" "distinct (map prop_name ps)" "well_typed ps v"
  shows "\<exists>r vals. doConvertSdkNodeRowToUltipaNodeRow env sch (Some n) i config = Ret r \<and>
    er_Id r = nd_ID n \<and> er_Uuid r = nd_UUID n \<and> er_SchemaName r = sc_Name sch \<and> \<not> er_IsNull r \<and>
    (\<forall>s. sc_Properties s = map property_of_proto (map proto_of_property ps) \<longrightarrow>
       set_row_values env (Some s) 0 (er_Values r) NewValues = Ret vals) \<and>
    (\<forall>p \<in> set ps. \<forall>x. v (prop_name p) = Some x \<longrightarrow>
       same_value x (prop_type p) (Values_Get vals (prop_name p)))"
  using converted_values [OF assms(3,4), of env "''node''" i config] assms(2)
  by (auto simp: ps_def doConvertSdkNodeRowToUltipaNodeRow_def)

lemma converted_edge_row:
  fixes env :: "'a env_scheme" and i :: nat and config :: "request_config option" and sch :: schema
  defines "ps \<equiv> data_properties (sc_Properties sch)"
  assumes "ed_Values e = Some v" "distinct (map prop_name ps)" "well_typed ps v"
  shows "\<exists>r vals. doConvertSdkEdgeRowToUltipaEdgeRow env sch (Some e) i config = Ret r \<and>
    er_Uuid r = ed_UUID e \<and> er_FromId r = ed_From e \<and> er_ToId r = ed_To e \<and>
    er_FromUuid r = ed_FromUUID e \<and> er_ToUuid r = ed_ToUUID e \<and>
    er_SchemaName r = sc_Name sch \<and> \<not> er_IsNull r \<and>
    (\<forall>s. sc_Properties s = map property_of_proto (map proto_of_property ps) \<longrightarrow>
       set_row_values env (Some s) 0 (er_Values r) NewValues = Ret vals) \<and>
    (\<forall>p \<in> set ps. \<forall>x. v (prop_name p) = Some x \<longrightarrow>
       same_value x (prop_type p) (Values_Get vals (prop_name p)))"
  using converted_values [OF assms(3,4), of env "''edge''" i config] assms(2)
  by (auto simp: ps_def doConvertSdkEdgeRowToUltipaEdgeRow_def)

text \<open>
  Property C2. A node whose schema names every property once and which has, for every property
  of its schema that is sent, a value of the Go type of that property (as the statement on
  scalars has them: no Go \<open>int\<close>, no point, no list) is converted without error, and its row,
  decoded with the schema message of the insertion, gives one node with the same id, the same
  uuid, the name of the schema it was inserted under, and under every property the same value;
  as the statement on scalars says, a value whose encoding is the null sentinel of its type
  reads back as nil, the date-time 0 as the number 0, and a time as a pointer to a time with the
  same packed date-time or seconds.
\<close>

theorem insert_roundtrip:
  assumes "nd_Values n = Some v" "distinct (map prop_name (data_properties (sc_Properties sch)))"
    "well_typed (data_properties (sc_Properties sch)) v"
  shows "\<exists>r n' m schemas. doConvertSdkNodeRowToUltipaNodeRow env sch (Some n) i config = Ret r \<and>
    NodeTableToNodes env (Some \<lparr>et_Schemas = [insert_schema sch], et_EntityRows = [r]\<rparr>) alias
      = Ret ([n'], m, schemas) \<and>
    nd_ID n' = nd_ID n \<and> nd_UUID n' = nd_UUID n \<and> nd_Schema n' = sc_Name sch \<and>
    (\<forall>p \<in> set (data_properties (sc_Properties sch)). \<forall>x. v (prop_name p) = Some x \<longrightarrow>
       (\<exists>y. Node_Get n' (prop_name p) = Ret y \<and> same_value x (prop_type p) y))"
proof -
  let ?s = "(NewSchema (sc_Name sch))\<lparr>sc_DBType := DBNODE, sc_Properties :=
    map property_of_proto (map proto_of_property (data_properties (sc_Properties sch)))\<rparr>"
  obtain r vals where r: "doConvertSdkNodeRowToUltipaNodeRow env sch (Some n) i config = Ret r"
    "er_Id r = nd_ID n" "er_Uuid r = nd_UUID n" "er_SchemaName r = sc_Name sch" "\<not> er_IsNull r" and
    d: "set_row_values env (Some ?s) 0 (er_Values r) NewValues = Ret vals" and
    v: "\<forall>p \<in> set (data_properties (sc_Properties sch)). \<forall>x. v (prop_name p) = Some x \<longrightarrow>
       same_value x (prop_type p) (Values_Get vals (prop_name p))"
    using converted_node_row [OF assms, of env i config] by auto
  have "table_schemas DBNODE [insert_schema sch] (sc_Name sch) = Some ?s"
    by (simp add: table_schemas_def insert_schema_eq NewSchema_def Let_def)
  then have "row_to_node env (table_schemas DBNODE [insert_schema sch]) r
      = Ret \<lparr>nd_ID = nd_ID n, nd_UUID = nd_UUID n, nd_Schema = sc_Name sch, nd_Values = Some vals\<rparr>"
    using r d by (simp add: row_to_node_def)
  then have "\<exists>m schemas. NodeTableToNodes env (Some \<lparr>et_Schemas = [insert_schema sch], et_EntityRows = [r]\<rparr>) alias
      = Ret ([\<lparr>nd_ID = nd_ID n, nd_UUID = nd_UUID n, nd_Schema = sc_Name sch, nd_Values = Some vals\<rparr>], m, schemas)"
    using r(5) by (simp add: NodeTableToNodes_eq live_rows_def)
  with r(1) v show ?thesis by (fastforce simp: Node_Get_def)
qed

lemma insert_roundtrip_witness:
  "\<exists>r n' m schemas. doConvertSdkNodeRowToUltipaNodeRow toy_env sample_schema
      (Some (sample_node ''a'' (GInt64 7))) 0 None = Ret r \<and>
    NodeTableToNodes toy_env (Some \<lparr>et_Schemas = [insert_schema sample_schema], et_EntityRows = [r]\<rparr>) []
      = Ret ([n'], m, schemas) \<and>
    nd_ID n' = ''a'' \<and> Node_Get n' ''x'' = Ret (GInt64 7)"
  using insert_roundtrip [of "sample_node ''a'' (GInt64 7)" "[''x'' \<mapsto> GInt64 7]" sample_schema toy_env 0 None "[]"]
  by (auto simp: sample_data_properties sample_node_def well_typed_def NewNode_def
      empty_property_def)

end
