(* ===== verification/Insert.thy ===== *)
theory Insert
  imports Catalog Rows "HOL-Library.Multiset"
begin

text \<open>
  The insertions of \<open>sdk/api/insert.nodes.go\<close> and \<open>insert.edges.go\<close>, composed of the conversion of
  rows (\<open>Rows\<close>), the calls (\<open>Api\<close>) and the look-up of schemas (\<open>Catalog\<close>), and the rendering of
  rows for the insertion statement (\<open>structs/node.go\<close>, \<open>structs/edge.go\<close>). The handlers for nodes
  and for edges are the same up to the call and the reading of its reply.
\<close>

section \<open>The pieces of an insertion\<close>

type_synonym insert_call = "gostring \<Rightarrow> go_context \<Rightarrow> insert_request \<Rightarrow> call"

definition the_insert_config ::
  "insert_request_config option \<Rightarrow> insert_request_config \<times> request_config" where
  "the_insert_config config =
     (let c = (case config of
          None \<Rightarrow> \<lparr>irc_RequestConfig = None, irc_InsertType = INSERT_NORMAL, irc_Silent = False\<rparr>
        | Some c \<Rightarrow> c)
      in (c, the_config (irc_RequestConfig c)))"

text \<open>A client, a context, the rows, and the call.\<close>

definition insert_rows ::
  "'a env_scheme \<Rightarrow> server \<Rightarrow> insert_call \<Rightarrow> insert_request_config \<Rightarrow> request_config \<Rightarrow> gostring
   \<Rightarrow> proto_schema list \<Rightarrow> entity_row option list go \<Rightarrow> insert_reply action" where
  "insert_rows env srv call config rc graphName schemas rows =
     act_bind (GetClient srv (Some rc)) (\<lambda>(client, conf).
     act_bind (api_NewContext env srv (Some rc)) (\<lambda>ctx.
     act_bind (act_lift rows) (\<lambda>rows.
       receive_sum (sv_insert srv) (call client ctx
         \<lparr>nq_GraphName = graphName, nq_Schemas = schemas, nq_Rows = rows,
          nq_InsertType = irc_InsertType config, nq_Silent = irc_Silent config\<rparr>))))"

text \<open>A reply whose status is an error is an error with its message.\<close>

definition accepted :: "insert_reply \<Rightarrow> unit go" where
  "accepted reply =
     go_bind (deref (ir_Status reply)) (\<lambda>(code, msg).
       if code \<noteq> SUCCESS then Fail (Err msg) else Ret ())"

section \<open>One batch\<close>

text \<open>The graph of the request is read through the embedded request configuration.\<close>

definition insert_batch ::
  "'a env_scheme \<Rightarrow> server \<Rightarrow> insert_call \<Rightarrow> (insert_reply \<Rightarrow> insert_response go)
   \<Rightarrow> proto_schema list \<Rightarrow> entity_row option list \<Rightarrow> insert_request_config option
   \<Rightarrow> insert_response action" where
  "insert_batch env srv call read schemas rows config =
     act_bind (act_lift (deref config)) (\<lambda>c.
     act_bind (act_lift (deref (irc_RequestConfig c))) (\<lambda>rc w.
       act_bind (insert_rows env srv call c rc (graph_of rc (cp_Config (wd_Pool w))) schemas (Ret rows))
         (\<lambda>reply. act_lift (go_bind (accepted reply) (\<lambda>_. read reply))) w))"

definition InsertNodesBatch where
  "InsertNodesBatch env srv schemas rows config =
     insert_batch env srv InsertNodesCall NewNodesInsertResponse schemas rows config"

definition InsertEdgesBatch where
  "InsertEdgesBatch env srv schemas rows config =
     insert_batch env srv InsertEdgesCall NewEdgesInsertResponse schemas rows config"

section \<open>Rows of one schema\<close>

text \<open>\<open>convert\<close> is the conversion of the rows; the schema is not nil.\<close>

definition insert_by_schema ::
  "'a env_scheme \<Rightarrow> server \<Rightarrow> insert_call \<Rightarrow> (insert_reply \<Rightarrow> insert_response go) \<Rightarrow> schema
   \<Rightarrow> (request_config option \<Rightarrow> entity_row option list go) \<Rightarrow> insert_request_config option
   \<Rightarrow> insert_response action" where
  "insert_by_schema env srv call read sch convert config =
     (case the_insert_config config of (c, rc) \<Rightarrow> \<lambda>w.
       act_bind (insert_rows env srv call c rc (graph_of rc (cp_Config (wd_Pool w)))
           [insert_schema sch] (convert (Some rc)))
         (\<lambda>reply. act_lift (go_bind (accepted reply) (\<lambda>_. read reply))) w)"

definition InsertNodesBatchBySchema ::
  "'a env_scheme \<Rightarrow> server \<Rightarrow> schema \<Rightarrow> node option list \<Rightarrow> row_actor list
   \<Rightarrow> insert_request_config option \<Rightarrow> insert_response action" where
  "InsertNodesBatchBySchema env srv sch rows schedule config =
     insert_by_schema env srv InsertNodesCall NewNodesInsertResponse sch
       (\<lambda>rc. setPropertiesToNodeRow env sch rows rc schedule) config"

definition InsertEdgesBatchBySchema ::
  "'a env_scheme \<Rightarrow> server \<Rightarrow> schema \<Rightarrow> edge option list \<Rightarrow> row_actor list
   \<Rightarrow> insert_request_config option \<Rightarrow> insert_response action" where
  "InsertEdgesBatchBySchema env srv sch rows schedule config =
     insert_by_schema env srv InsertEdgesCall NewEdgesInsertResponse sch
       (\<lambda>rc. setPropertiesToEdgeRow env sch rows rc schedule) config"

section \<open>Rows of many schemas\<close>

record batch =
  ba_Rows :: "entity_row list"
  ba_Schema :: schema

text \<open>
  The rows are distributed over one batch per schema name; \<open>m\<close> tells for every schema which row
  of the argument is at which position of its batch.
\<close>

type_synonym positions = "gostring \<rightharpoonup> (nat \<rightharpoonup> nat)"

definition batch_for ::
  "gostring \<Rightarrow> schema list \<Rightarrow> (gostring \<rightharpoonup> batch) \<Rightarrow> gostring \<Rightarrow> batch go" where
  "batch_for missing schemas batches name =
     (case batches name of
        Some b \<Rightarrow> Ret b
      | None \<Rightarrow> (case List.find (\<lambda>s. sc_Name s = name) schemas of
            Some s \<Rightarrow> Ret \<lparr>ba_Rows = [], ba_Schema = s\<rparr>
          | None \<Rightarrow> Fail (Err (missing @ name))))"

definition the_positions :: "positions \<Rightarrow> gostring \<Rightarrow> (nat \<rightharpoonup> nat)" where
  "the_positions m name = (case m name of None \<Rightarrow> Map.empty | Some p \<Rightarrow> p)"

fun distribute ::
  "(schema \<Rightarrow> 'r option \<Rightarrow> nat \<Rightarrow> entity_row go) \<Rightarrow> ('r \<Rightarrow> gostring) \<Rightarrow> gostring \<Rightarrow> schema list \<Rightarrow> nat
   \<Rightarrow> 'r option list \<Rightarrow> positions \<times> (gostring \<rightharpoonup> batch) \<Rightarrow> (positions \<times> (gostring \<rightharpoonup> batch)) go" where
  "distribute convert schema_of missing schemas index [] st = Ret st"
| "distribute convert schema_of missing schemas index (row # rows) (m, batches) =
     go_bind (deref row) (\<lambda>r.
     let name = schema_of r in
     go_bind (batch_for missing schemas batches name) (\<lambda>b.
     go_bind (convert (ba_Schema b) row index) (\<lambda>new.
       distribute convert schema_of missing schemas (index + 1) rows
         (m(name \<mapsto> (the_positions m name)(length (ba_Rows b) \<mapsto> index)),
          batches(name \<mapsto> b\<lparr>ba_Rows := ba_Rows b @ [new]\<rparr>)))))"

text \<open>
  The batches are sent one after the other; a reply with an error status does not stop them. The
  source also sums up the costs, the messages and the errors by row, in a structure of which it
  returns the responses only.
\<close>

fun send_batches ::
  "'a env_scheme \<Rightarrow> server \<Rightarrow> insert_call \<Rightarrow> (insert_reply \<Rightarrow> insert_response go)
   \<Rightarrow> insert_request_config \<Rightarrow> request_config \<Rightarrow> gostring \<Rightarrow> (gostring \<rightharpoonup> batch) \<Rightarrow> gostring list
   \<Rightarrow> (gostring \<rightharpoonup> insert_response) \<Rightarrow> (gostring \<rightharpoonup> insert_response) action" where
  "send_batches env srv call read c rc graphName batches [] resps = act_lift (Ret resps)"
| "send_batches env srv call read c rc graphName batches (name # names) resps =
     (case batches name of
        None \<Rightarrow> send_batches env srv call read c rc graphName batches names resps
      | Some b \<Rightarrow>
          act_bind (insert_rows env srv call c rc graphName [insert_schema (ba_Schema b)]
            (Ret (map Some (ba_Rows b)))) (\<lambda>reply.
          act_bind (act_lift (read reply)) (\<lambda>response.
            send_batches env srv call read c rc graphName batches names
              (resps(sc_Name (ba_Schema b) \<mapsto> response)))))"

definition insert_auto ::
  "'a json_env_scheme \<Rightarrow> server \<Rightarrow> insert_call \<Rightarrow> (insert_reply \<Rightarrow> insert_response go)
   \<Rightarrow> (request_config option \<Rightarrow> schema list action)
   \<Rightarrow> (request_config option \<Rightarrow> schema list \<Rightarrow> (positions \<times> (gostring \<rightharpoonup> batch)) go)
   \<Rightarrow> gostring list \<Rightarrow> insert_request_config option \<Rightarrow> (gostring \<rightharpoonup> insert_response) action" where
  "insert_auto env srv call read show_schemas spread enum config =
     (case the_insert_config config of (c, rc) \<Rightarrow> \<lambda>w.
       let graphName = graph_of rc (cp_Config (wd_Pool w)) in
       act_bind (show_schemas (Some rc)) (\<lambda>schemas.
       act_bind (act_lift (spread (Some rc) schemas)) (\<lambda>(m, batches).
         send_batches env srv call read c rc graphName batches enum Map.empty)) w)"

definition InsertNodesBatchAuto ::
  "'a json_env_scheme \<Rightarrow> server \<Rightarrow> gostring list \<Rightarrow> node option list \<Rightarrow> insert_request_config option
   \<Rightarrow> (gostring \<rightharpoonup> insert_response) action" where
  "InsertNodesBatchAuto env srv enum rows config =
     insert_auto env srv InsertNodesCall NewNodesInsertResponse (ShowNodeSchema env srv)
       (\<lambda>rc schemas. distribute
          (\<lambda>s row i. convertSdkNodeRowToUltipaNodeRow env s row i rc) nd_Schema
          ''Schema not found : '' schemas 0 rows (Map.empty, Map.empty))
       enum config"

definition InsertEdgesBatchAuto ::
  "'a json_env_scheme \<Rightarrow> server \<Rightarrow> gostring list \<Rightarrow> edge option list \<Rightarrow> insert_request_config option
   \<Rightarrow> (gostring \<rightharpoonup> insert_response) action" where
  "InsertEdgesBatchAuto env srv enum rows config =
     insert_auto env srv InsertEdgesCall NewEdgesInsertResponse (ShowEdgeSchema env srv)
       (\<lambda>rc schemas. distribute
          (\<lambda>s row i. convertSdkEdgeRowToUltipaEdgeRow env s row i rc) ed_Schema
          ''Edge Schema not found : '' schemas 0 rows (Map.empty, Map.empty))
       enum config"

section \<open>Insertion by statement\<close>

text \<open>
  The JSON encoder is an argument: the text of a map of values, or \<open>None\<close> for an error. Values of
  the row overwrite the system keys; a row that cannot be encoded is left out.
\<close>

definition nodeToString :: "(values_map \<Rightarrow> gostring option) \<Rightarrow> node \<Rightarrow> gostring" where
  "nodeToString marshal n =
     (let m = (if nd_ID n \<noteq> [] then [''_id'' \<mapsto> GString (nd_ID n)] else Map.empty);
          m = (if nd_UUID n \<noteq> 0 then m(''_uuid'' \<mapsto> GUint64 (nd_UUID n)) else m);
          m = (case nd_Values n of None \<Rightarrow> m | Some vals \<Rightarrow> m ++ vals)
      in case marshal m of None \<Rightarrow> [] | Some s \<Rightarrow> s)"

definition edgeToString :: "(values_map \<Rightarrow> gostring option) \<Rightarrow> edge \<Rightarrow> gostring" where
  "edgeToString marshal e =
     (let m = (if ed_UUID e \<noteq> 0 then [''_uuid'' \<mapsto> GUint64 (ed_UUID e)] else Map.empty);
          m = (if ed_FromUUID e \<noteq> 0 then m(''_from_uuid'' \<mapsto> GUint64 (ed_FromUUID e)) else m);
          m = (if ed_ToUUID e \<noteq> 0 then m(''_to_uuid'' \<mapsto> GUint64 (ed_ToUUID e)) else m);
          m = (if ed_From e \<noteq> [] then m(''_from'' \<mapsto> GString (ed_From e)) else m);
          m = (if ed_To e \<noteq> [] then m(''_to'' \<mapsto> GString (ed_To e)) else m);
          m = (case ed_Values e of None \<Rightarrow> m | Some vals \<Rightarrow> m ++ vals)
      in case marshal m of None \<Rightarrow> [] | Some s \<Rightarrow> s)"

definition NodesToInsertUql :: "(values_map \<Rightarrow> gostring option) \<Rightarrow> node list \<Rightarrow> gostring" where
  "NodesToInsertUql marshal nodes =
     join '', '' (filter (\<lambda>s. s \<noteq> []) (map (nodeToString marshal) nodes))"

definition EdgesToInsertUql :: "(values_map \<Rightarrow> gostring option) \<Rightarrow> edge list \<Rightarrow> gostring" where
  "EdgesToInsertUql marshal edges =
     join '', '' (filter (\<lambda>s. s \<noteq> []) (map (edgeToString marshal) edges))"

definition insert_params :: "insert_type \<Rightarrow> gostring" where
  "insert_params t = (case t of INSERT_NORMAL \<Rightarrow> ''insert()''
     | INSERT_OVERWRITE \<Rightarrow> ''insert().overwrite()'' | INSERT_UPSERT \<Rightarrow> ''upsert()'')"

definition InsertNodes ::
  "'a env_scheme \<Rightarrow> server \<Rightarrow> (values_map \<Rightarrow> gostring option) \<Rightarrow> gostring \<Rightarrow> node list
   \<Rightarrow> insert_request_config option \<Rightarrow> response action" where
  "InsertNodes env srv marshal schemaName nodes config =
     act_bind (act_lift (deref config)) (\<lambda>c.
       Uql env srv (insert_params (irc_InsertType c) @ ''.into(@'' @ schemaName @ '').nodes([''
         @ NodesToInsertUql marshal nodes @ ''])''
         @ (if irc_Silent c then [] else '' as nodes return nodes{*}'')) (irc_RequestConfig c))"

definition InsertEdges ::
  "'a env_scheme \<Rightarrow> server \<Rightarrow> (values_map \<Rightarrow> gostring option) \<Rightarrow> gostring \<Rightarrow> edge list
   \<Rightarrow> insert_request_config option \<Rightarrow> response action" where
  "InsertEdges env srv marshal schemaName edges config =
     act_bind (act_lift (deref config)) (\<lambda>c.
       Uql env srv (insert_params (irc_InsertType c) @ ''.into(@'' @ schemaName @ '').edges([''
         @ EdgesToInsertUql marshal edges @ ''])''
         @ (if irc_Silent c then [] else '' as edges return edges{*}'')) (irc_RequestConfig c))"

section \<open>Distributing the rows\<close>

definition name_at :: "('r \<Rightarrow> gostring) \<Rightarrow> 'r option list \<Rightarrow> nat \<Rightarrow> gostring" where
  "name_at schema_of rows i = schema_of (the (rows ! i))"

text \<open>The indexes of the rows of a schema.\<close>

definition indices :: "('r \<Rightarrow> gostring) \<Rightarrow> 'r option list \<Rightarrow> gostring \<Rightarrow> nat list" where
  "indices schema_of rows name = filter (\<lambda>i. name_at schema_of rows i = name) [0..<length rows]"

definition list_map :: "'b list \<Rightarrow> nat \<rightharpoonup> 'b" where
  "list_map xs j = (if j < length xs then Some (xs ! j) else None)"

lemma list_map_snoc: "list_map (xs @ [x]) = (list_map xs)(length xs \<mapsto> x)"
  by (auto simp: list_map_def nth_append fun_eq_iff)

lemma indices_snoc:
  "indices schema_of (rows @ [row]) name = indices schema_of rows name
     @ (if schema_of (the row) = name then [length rows] else [])"
proof -
  have "filter (\<lambda>i. name_at schema_of (rows @ [row]) i = name) [0..<length rows] = indices schema_of rows name"
    unfolding indices_def by (rule filter_cong) (simp_all add: name_at_def nth_append)
  then show ?thesis by (simp add: indices_def name_at_def)
qed

lemma indices_bound: "i \<in> set (indices schema_of rows name) \<Longrightarrow> i < length rows"
  by (simp add: indices_def)

definition found_schema :: "schema list \<Rightarrow> gostring \<Rightarrow> schema option" where
  "found_schema schemas name = List.find (\<lambda>s. sc_Name s = name) schemas"

text \<open>
  What the loop has built after the rows \<open>done\<close>, whose conversions are \<open>news\<close>: every batch has
  the conversions of the rows of its schema, in order, and the positions tell which they are.
\<close>

definition distributed ::
  "(schema \<Rightarrow> 'r option \<Rightarrow> nat \<Rightarrow> entity_row go) \<Rightarrow> ('r \<Rightarrow> gostring) \<Rightarrow> schema list \<Rightarrow> 'r option list
   \<Rightarrow> entity_row list \<Rightarrow> positions \<times> (gostring \<rightharpoonup> batch) \<Rightarrow> bool" where
  "distributed convert schema_of schemas rows news st \<longleftrightarrow>
     length news = length rows
     \<and> (\<forall>i < length rows. rows ! i \<noteq> None \<and> (\<exists>s. found_schema schemas (name_at schema_of rows i) = Some s
          \<and> convert s (rows ! i) i = Ret (news ! i)))
     \<and> (\<forall>name. let at = indices schema_of rows name in
          the_positions (fst st) name = list_map at
          \<and> snd st name = (if at = [] then None
              else Some \<lparr>ba_Rows = map (\<lambda>i. news ! i) at, ba_Schema = the (found_schema schemas name)\<rparr>))"

lemma batch_for_distributed:
  assumes "distributed convert schema_of schemas rows news (m, batches)"
    "batch_for missing schemas batches name = Ret b"
  shows "found_schema schemas name \<noteq> None"
    and "b = \<lparr>ba_Rows = map (\<lambda>i. news ! i) (indices schema_of rows name),
              ba_Schema = the (found_schema schemas name)\<rparr>"
proof -
  have batch: "batches name = (if indices schema_of rows name = [] then None
      else Some \<lparr>ba_Rows = map (\<lambda>i. news ! i) (indices schema_of rows name),
        ba_Schema = the (found_schema schemas name)\<rparr>)"
    using assms(1) by (simp add: distributed_def Let_def)
  have found: "found_schema schemas name \<noteq> None" if "indices schema_of rows name \<noteq> []"
  proof -
    obtain i where "i \<in> set (indices schema_of rows name)" using \<open>indices schema_of rows name \<noteq> []\<close>
      by (cases "indices schema_of rows name") auto
    then have "i < length rows" "name_at schema_of rows i = name" by (simp_all add: indices_def)
    then show ?thesis using assms(1) by (auto simp: distributed_def)
  qed
  show "found_schema schemas name \<noteq> None"
    using assms(2) batch found
    by (auto simp: batch_for_def found_schema_def split: option.splits if_splits)
  show "b = \<lparr>ba_Rows = map (\<lambda>i. news ! i) (indices schema_of rows name),
              ba_Schema = the (found_schema schemas name)\<rparr>"
    using assms(2) batch
    by (auto simp: batch_for_def found_schema_def split: option.splits if_splits)
qed

lemma distributed_step:
  assumes d: "distributed convert schema_of schemas rows news (m, batches)"
    and b: "batch_for missing schemas batches (schema_of r) = Ret b"
    and new: "convert (ba_Schema b) (Some r) (length rows) = Ret new"
  shows "distributed convert schema_of schemas (rows @ [Some r]) (news @ [new])
    (m(schema_of r \<mapsto> (the_positions m (schema_of r))(length (ba_Rows b) \<mapsto> length rows)),
     batches(schema_of r \<mapsto> b\<lparr>ba_Rows := ba_Rows b @ [new]\<rparr>))"
proof -
  note bf = batch_for_distributed [OF d b]
  have l: "length news = length rows" using d by (simp add: distributed_def)
  have old: "map (\<lambda>i. (news @ [new]) ! i) (indices schema_of rows name)
      = map (\<lambda>i. news ! i) (indices schema_of rows name)" for name
    by (auto simp: nth_append l dest: indices_bound)
  have rows: "(rows @ [Some r]) ! i \<noteq> None \<and>
      (\<exists>s. found_schema schemas (name_at schema_of (rows @ [Some r]) i) = Some s
        \<and> convert s ((rows @ [Some r]) ! i) i = Ret ((news @ [new]) ! i))"
    if "i < length (rows @ [Some r])" for i
  proof (cases "i < length rows")
    case True
    then show ?thesis using d l by (simp add: distributed_def nth_append name_at_def)
  next
    case False
    then have "i = length rows" using that by simp
    then show ?thesis using bf new l by (auto simp: nth_append name_at_def)
  qed
  have names: "the_positions (m(schema_of r \<mapsto> (the_positions m (schema_of r))
          (length (ba_Rows b) \<mapsto> length rows))) name = list_map (indices schema_of (rows @ [Some r]) name)
      \<and> (batches(schema_of r \<mapsto> b\<lparr>ba_Rows := ba_Rows b @ [new]\<rparr>)) name =
        (if indices schema_of (rows @ [Some r]) name = [] then None
         else Some \<lparr>ba_Rows = map (\<lambda>i. (news @ [new]) ! i) (indices schema_of (rows @ [Some r]) name),
           ba_Schema = the (found_schema schemas name)\<rparr>)" for name
  proof (cases "name = schema_of r")
    case True
    have "the_positions m name = list_map (indices schema_of rows name)"
      using d by (simp add: distributed_def Let_def)
    moreover have "(news @ [new]) ! length rows = new" using l by (metis nth_append_length)
    ultimately show ?thesis
      using True bf(2) l by (simp add: indices_snoc list_map_snoc old the_positions_def)
  next
    case False
    have at: "indices schema_of (rows @ [Some r]) name = indices schema_of rows name"
      using False by (simp add: indices_snoc)
    have n: "the_positions m name = list_map (indices schema_of rows name)"
      "batches name = (if indices schema_of rows name = [] then None
          else Some \<lparr>ba_Rows = map (\<lambda>i. news ! i) (indices schema_of rows name),
            ba_Schema = the (found_schema schemas name)\<rparr>)"
      using d by (simp_all add: distributed_def Let_def)
    have e: "the_positions (m(schema_of r \<mapsto> p)) name = the_positions m name"
      "(batches(schema_of r \<mapsto> q)) name = batches name" for p q
      using False by (simp_all add: the_positions_def)
    show ?thesis unfolding at old e by (intro conjI n)
  qed
  have l': "length (news @ [new]) = length (rows @ [Some r])" using l by simp
  show ?thesis unfolding distributed_def Let_def fst_conv snd_conv
    by (rule conjI [OF l' conjI]) (rule allI, rule impI, erule rows, rule allI, rule names)
qed

lemma distribute_distributed:
  assumes "distribute convert schema_of missing schemas (length rows) rest (m, batches) = Ret st"
    "distributed convert schema_of schemas rows news (m, batches)"
  shows "\<exists>news'. distributed convert schema_of schemas (rows @ rest) (news @ news') st"
  using assms
proof (induction rest arbitrary: rows news m batches)
  case Nil
  then show ?case by (intro exI [of _ "[]"]) auto
next
  case (Cons row rest)
  then obtain r b new where row: "row = Some r"
    and b: "batch_for missing schemas batches (schema_of r) = Ret b"
    and new: "convert (ba_Schema b) (Some r) (length rows) = Ret new"
    and rest: "distribute convert schema_of missing schemas (length (rows @ [Some r])) rest
      (m(schema_of r \<mapsto> (the_positions m (schema_of r))(length (ba_Rows b) \<mapsto> length rows)),
       batches(schema_of r \<mapsto> b\<lparr>ba_Rows := ba_Rows b @ [new]\<rparr>)) = Ret st"
    by (auto simp: go_simps deref_def Let_def split: option.splits)
  from Cons.IH [OF rest distributed_step [OF Cons.prems(2) b new]] show ?case
    by (auto simp: row)
qed

lemma distributed_start: "distributed convert schema_of schemas [] [] (Map.empty, Map.empty)"
  by (simp add: distributed_def indices_def Let_def the_positions_def list_map_def fun_eq_iff)

text \<open>
  The rows of an automatic insertion are distributed without loss: every row is
  converted under the schema of its name, the batch of a name has exactly the conversions of the
  rows of that name, in their order, there is no other batch, and the recorded positions give
  for every place in a batch the index of its row in the argument.
\<close>

theorem rows_distributed:
  assumes "distribute convert schema_of missing schemas 0 rows (Map.empty, Map.empty) = Ret (m, batches)"
  shows "\<exists>news. length news = length rows
    \<and> (\<forall>i < length rows. \<exists>r s. rows ! i = Some r \<and> found_schema schemas (schema_of r) = Some s
        \<and> convert s (rows ! i) i = Ret (news ! i))
    \<and> (\<forall>name. let at = indices schema_of rows name in
        the_positions m name = list_map at
        \<and> batches name = (if at = [] then None
            else Some \<lparr>ba_Rows = map (\<lambda>i. news ! i) at, ba_Schema = the (found_schema schemas name)\<rparr>))"
proof -
  obtain news where "distributed convert schema_of schemas rows news (m, batches)"
    using distribute_distributed [of convert schema_of missing schemas "[]" rows Map.empty Map.empty
        "(m, batches)" "[]"] assms distributed_start by auto
  then have l: "length news = length rows"
    and rows: "\<And>i. i < length rows \<Longrightarrow> rows ! i \<noteq> None \<and>
      (\<exists>s. found_schema schemas (name_at schema_of rows i) = Some s
        \<and> convert s (rows ! i) i = Ret (news ! i))"
    and names: "\<forall>name. let at = indices schema_of rows name in
        the_positions m name = list_map at
        \<and> batches name = (if at = [] then None
            else Some \<lparr>ba_Rows = map (\<lambda>i. news ! i) at, ba_Schema = the (found_schema schemas name)\<rparr>)"
    unfolding distributed_def by simp_all
  have "\<exists>r s. rows ! i = Some r \<and> found_schema schemas (schema_of r) = Some s
      \<and> convert s (rows ! i) i = Ret (news ! i)" if "i < length rows" for i
    using rows [OF that] by (auto simp: name_at_def)
  with l names show ?thesis by blast
qed

section \<open>What is sent\<close>

text \<open>The rows of the insertion calls, in order.\<close>

fun rows_of_call :: "call \<Rightarrow> entity_row option list" where
  "rows_of_call (InsertNodesCall h ctx req) = nq_Rows req"
| "rows_of_call (InsertEdgesCall h ctx req) = nq_Rows req"
| "rows_of_call _ = []"

definition sent_rows :: "call list \<Rightarrow> entity_row option list" where
  "sent_rows cs = concat (map rows_of_call cs)"

lemma sent_rows_simps [simp]:
  "sent_rows [] = []" "sent_rows (cs @ ds) = sent_rows cs @ sent_rows ds"
  "sent_rows (c # cs) = rows_of_call c @ sent_rows cs"
  by (simp_all add: sent_rows_def)

definition carries :: "insert_call \<Rightarrow> bool" where
  "carries call \<longleftrightarrow> (\<forall>h ctx req. rows_of_call (call h ctx req) = nq_Rows req)"

lemma carries_calls [simp]: "carries InsertNodesCall" "carries InsertEdgesCall"
  by (simp_all add: carries_def)

text \<open>An action that sends no rows.\<close>

definition sends_no_rows :: "call \<Rightarrow> bool" where
  "sends_no_rows c \<longleftrightarrow> rows_of_call c = []"

lemma starts_no_rows: "starts ps c \<Longrightarrow> sends_no_rows c"
  by (auto simp: starts_def sends_no_rows_def split: call.splits)

lemma only_sends_no_rows:
  assumes "only_sends ps m"
  shows "\<exists>cs. wd_Calls (fst (m w)) = wd_Calls w @ cs \<and> sent_rows cs = []"
proof -
  obtain cs where "wd_Calls (fst (m w)) = wd_Calls w @ cs" "list_all (starts ps) cs"
    using assms by (auto simp: allows_def extends_def)
  moreover have "sent_rows cs = []"
    using \<open>list_all (starts ps) cs\<close>
    by (auto simp: sent_rows_def list_all_iff dest: starts_no_rows [unfolded sends_no_rows_def])
  ultimately show ?thesis by blast
qed

text \<open>The one call of an insertion, if it is made.\<close>

lemma insert_rows_calls:
  "\<exists>t cs. fst (insert_rows env srv call c rc g schemas rows w) =
      \<lparr>wd_Pool = (wd_Pool w)\<lparr>cp_RandomTick := t\<rparr>, wd_Calls = wd_Calls w @ cs\<rparr>
    \<and> (cs = [] \<and> \<not> is_ret (snd (insert_rows env srv call c rc g schemas rows w))
       \<or> (\<exists>h ctx rs. rows = Ret rs \<and> cs = [call h ctx \<lparr>nq_GraphName = g, nq_Schemas = schemas,
            nq_Rows = rs, nq_InsertType = irc_InsertType c, nq_Silent = irc_Silent c\<rparr>]
            \<and> may_reach (Some rc) (wd_Pool w) h))"
proof -
  obtain t where t: "fst (GetClient srv (Some rc) w) = w\<lparr>wd_Pool := (wd_Pool w)\<lparr>cp_RandomTick := t\<rparr>\<rparr>"
    using GetClient_Some by blast
  let ?w = "\<lparr>wd_Pool = (wd_Pool w)\<lparr>cp_RandomTick := t\<rparr>, wd_Calls = wd_Calls w\<rparr>"
  have w: "w\<lparr>wd_Pool := (wd_Pool w)\<lparr>cp_RandomTick := t\<rparr>\<rparr> = ?w" by (cases w) simp
  have quiet: ?thesis if "fst (insert_rows env srv call c rc g schemas rows w) = ?w"
    "\<not> is_ret (snd (insert_rows env srv call c rc g schemas rows w))"
    using that by (intro exI [of _ t] exI [of _ "[]"]) simp
  show ?thesis
  proof (cases "snd (GetClient srv (Some rc) w)")
    case (Ret hc)
    obtain h conf where hc: "hc = (h, conf)" by (cases hc)
    have reach: "may_reach (Some rc) (wd_Pool w) h" using Ret hc GetClient_host by blast
    show ?thesis
    proof (cases "snd (api_NewContext env srv (Some rc) ?w)")
      case ctx: (Ret ctx)
      show ?thesis
      proof (cases rows)
        case (Ret rs)
        define req where "req = \<lparr>nq_GraphName = g, nq_Schemas = schemas,
            nq_Rows = rs, nq_InsertType = irc_InsertType c, nq_Silent = irc_Silent c\<rparr>"
        have "fst (insert_rows env srv call c rc g schemas rows w) =
            ?w\<lparr>wd_Calls := wd_Calls w @ [call h ctx req]\<rparr>"
          using \<open>snd (GetClient srv (Some rc) w) = Ret hc\<close> hc t w ctx Ret
          by (simp add: insert_rows_def fst_act_bind snd_act_bind receive_sum_def Let_def req_def)
        then show ?thesis using Ret reach req_def
          by (intro exI [of _ t] exI [of _ "[call h ctx req]"] conjI disjI2 exI [of _ h]
              exI [of _ ctx] exI [of _ rs]) simp_all
      qed (rule quiet; use \<open>snd (GetClient srv (Some rc) w) = Ret hc\<close> hc t w ctx in
          \<open>simp add: insert_rows_def fst_act_bind snd_act_bind\<close>)+
    qed (rule quiet; use Ret hc t w in \<open>simp add: insert_rows_def fst_act_bind snd_act_bind\<close>)+
  qed (rule quiet; use t w in \<open>simp add: insert_rows_def fst_act_bind snd_act_bind\<close>)+
qed

text \<open>
  Property C19. The insertion of rows of one schema makes at most one call, to a host the request
  may reach, and without a call it returns no response. The call names the graph of the request, the
  schema message of the schema and the type and silence of the request, and carries
  the list the goroutines left: one place for every row, holding the conversion of that very row or nil.
  When every row checks and converts no place is nil, so that exactly the converted rows are
  sent; when one does not, its error can be lost and nil places be sent
  (\<open>conversion_error_lost\<close>).
\<close>

theorem by_schema_sends_converted_rows:
  fixes env :: "'a env_scheme" and w :: world and config :: "insert_request_config option"
    and rows :: "node option list"
  defines "c \<equiv> fst (the_insert_config config)" and "rc \<equiv> snd (the_insert_config config)"
  shows "\<exists>t cs. fst (InsertNodesBatchBySchema env srv sch rows schedule config w) =
      \<lparr>wd_Pool = (wd_Pool w)\<lparr>cp_RandomTick := t\<rparr>, wd_Calls = wd_Calls w @ cs\<rparr>
    \<and> (cs = [] \<and> \<not> is_ret (snd (InsertNodesBatchBySchema env srv sch rows schedule config w))
       \<or> (\<exists>h ctx rs. cs = [InsertNodesCall h ctx \<lparr>nq_GraphName = graph_of rc (cp_Config (wd_Pool w)),
              nq_Schemas = [insert_schema sch], nq_Rows = rs, nq_InsertType = irc_InsertType c,
              nq_Silent = irc_Silent c\<rparr>]
            \<and> may_reach (Some rc) (wd_Pool w) h
            \<and> setPropertiesToNodeRow env sch rows (Some rc) schedule = Ret rs
            \<and> length rs = length rows
            \<and> (\<forall>i < length rows. \<forall>r. rs ! i = Some r \<longrightarrow>
                 doConvertSdkNodeRowToUltipaNodeRow env sch (rows ! i) i (Some rc) = Ret r)
            \<and> ((\<forall>i < length rows. is_ret (convertSdkNodeRowToUltipaNodeRow env sch (rows ! i) i (Some rc)))
                 \<longrightarrow> None \<notin> set rs)))"
proof -
  have config: "the_insert_config config = (c, rc)" by (simp add: c_def rc_def)
  let ?rows = "setPropertiesToNodeRow env sch rows (Some rc) schedule"
  let ?req = "\<lambda>rs. \<lparr>nq_GraphName = graph_of rc (cp_Config (wd_Pool w)), nq_Schemas = [insert_schema sch],
      nq_Rows = rs, nq_InsertType = irc_InsertType c, nq_Silent = irc_Silent c\<rparr>"
  let ?m = "insert_rows env srv InsertNodesCall c rc (graph_of rc (cp_Config (wd_Pool w)))
      [insert_schema sch] ?rows"
  let ?act = "InsertNodesBatchBySchema env srv sch rows schedule config w"
  have e: "?act = act_bind ?m (\<lambda>reply. act_lift (go_bind (accepted reply) (\<lambda>_. NewNodesInsertResponse reply))) w"
    by (simp add: InsertNodesBatchBySchema_def insert_by_schema_def config)
  have f: "fst ?act = fst (?m w)" unfolding e by (simp add: fst_act_bind split: go.split)
  have r: "is_ret (snd ?act) \<Longrightarrow> is_ret (snd (?m w))"
    unfolding e by (auto simp: snd_act_bind split: go.splits)
  from insert_rows_calls [of env srv InsertNodesCall c rc "graph_of rc (cp_Config (wd_Pool w))"
      "[insert_schema sch]" ?rows w] obtain t cs where
    w: "fst (?m w) = \<lparr>wd_Pool = (wd_Pool w)\<lparr>cp_RandomTick := t\<rparr>, wd_Calls = wd_Calls w @ cs\<rparr>"
    and cs: "cs = [] \<and> \<not> is_ret (snd (?m w)) \<or> (\<exists>h ctx rs. ?rows = Ret rs \<and>
      cs = [InsertNodesCall h ctx (?req rs)] \<and> may_reach (Some rc) (wd_Pool w) h)" by blast
  have sent: "length rs = length rows \<and> (\<forall>i < length rows. \<forall>r. rs ! i = Some r \<longrightarrow>
        doConvertSdkNodeRowToUltipaNodeRow env sch (rows ! i) i (Some rc) = Ret r)
      \<and> ((\<forall>i < length rows. is_ret (convertSdkNodeRowToUltipaNodeRow env sch (rows ! i) i (Some rc)))
           \<longrightarrow> None \<notin> set rs)" if "?rows = Ret rs" for rs
    using node_rows_sound [OF that] node_rows_complete [OF that] by blast
  show ?thesis
    by (rule exI [of _ t], rule exI [of _ cs]) (use f w r cs sent in auto)
qed

lemma send_batches_rows:
  assumes "carries call" "snd (send_batches env srv call read c rc g batches names resps w) = Ret out"
  shows "\<exists>cs. wd_Calls (fst (send_batches env srv call read c rc g batches names resps w)) = wd_Calls w @ cs
    \<and> sent_rows cs = concat (map (\<lambda>n. case batches n of None \<Rightarrow> [] | Some b \<Rightarrow> map Some (ba_Rows b)) names)
    \<and> dom out = dom resps \<union> {sc_Name (ba_Schema b) |n b. n \<in> set names \<and> batches n = Some b}"
  using assms(2)
proof (induction names arbitrary: resps w)
  case Nil
  then show ?case by (intro exI [of _ "[]"]) auto
next
  case (Cons n names)
  show ?case
  proof (cases "batches n")
    case None
    have "snd (send_batches env srv call read c rc g batches names resps w) = Ret out"
      using Cons.prems None by simp
    from Cons.IH [OF this] None show ?thesis by (simp only: send_batches.simps) fastforce
  next
    case (Some b)
    let ?m = "insert_rows env srv call c rc g [insert_schema (ba_Schema b)] (Ret (map Some (ba_Rows b)))"
    let ?rest = "\<lambda>response. send_batches env srv call read c rc g batches names
        (resps(sc_Name (ba_Schema b) \<mapsto> response))"
    have e: "send_batches env srv call read c rc g batches (n # names) resps =
        act_bind ?m (\<lambda>reply. act_bind (act_lift (read reply)) ?rest)"
      using Some by simp
    from Cons.prems obtain reply response where reply: "snd (?m w) = Ret reply" "read reply = Ret response"
        "snd (?rest response (fst (?m w))) = Ret out"
      unfolding e by (auto simp: snd_act_bind split: go.splits)
    have f: "fst (send_batches env srv call read c rc g batches (n # names) resps w)
        = fst (?rest response (fst (?m w)))"
      unfolding e using reply by (simp add: fst_act_bind)
    from insert_rows_calls [of env srv call c rc g "[insert_schema (ba_Schema b)]"
        "Ret (map Some (ba_Rows b))" w] reply(1)
    obtain h ctx req where "wd_Calls (fst (?m w)) = wd_Calls w @ [call h ctx req]"
        "nq_Rows req = map Some (ba_Rows b)" by fastforce
    then have one: "wd_Calls (fst (?m w)) = wd_Calls w @ [call h ctx req]"
        "rows_of_call (call h ctx req) = map Some (ba_Rows b)"
      using assms(1) by (simp_all add: carries_def)
    from Cons.IH [OF reply(3)] obtain cs where cs:
        "wd_Calls (fst (?rest response (fst (?m w)))) = wd_Calls (fst (?m w)) @ cs"
        "sent_rows cs = concat (map (\<lambda>n. case batches n of None \<Rightarrow> [] | Some b \<Rightarrow> map Some (ba_Rows b)) names)"
        "dom out = dom (resps(sc_Name (ba_Schema b) \<mapsto> response))
           \<union> {sc_Name (ba_Schema b) |n b. n \<in> set names \<and> batches n = Some b}" by blast
    have "dom out = dom resps \<union> {sc_Name (ba_Schema b) |k b. k \<in> set (n # names) \<and> batches k = Some b}"
      unfolding cs(3) using Some by auto
    then show ?thesis unfolding f using cs(1,2) one Some
      by (intro exI [of _ "call h ctx req # cs"]) simp
  qed
qed

lemma send_batches_grows:
  "\<exists>ds. wd_Calls (fst (send_batches env srv call read c rc g batches names resps w)) = wd_Calls w @ ds"
proof (induction names arbitrary: resps w)
  case Nil
  then show ?case by simp
next
  case (Cons n names)
  show ?case
  proof (cases "batches n")
    case None
    then show ?thesis using Cons.IH by simp
  next
    case (Some b)
    let ?m = "insert_rows env srv call c rc g [insert_schema (ba_Schema b)] (Ret (map Some (ba_Rows b)))"
    obtain cs where m: "wd_Calls (fst (?m w)) = wd_Calls w @ cs"
      using insert_rows_calls [of env srv call c rc g "[insert_schema (ba_Schema b)]"
          "Ret (map Some (ba_Rows b))" w] by auto
    have "\<exists>ds. wd_Calls (fst (send_batches env srv call read c rc g batches names resps' (fst (?m w))))
        = wd_Calls w @ ds" for resps'
      using Cons.IH [of resps' "fst (?m w)"] m by auto
    then show ?thesis using Some m by (auto simp: fst_act_bind snd_act_bind split: go.split)
  qed
qed

lemma count_filter_parts:
  assumes "distinct ns"
  shows "count (mset (concat (map (\<lambda>n. filter (\<lambda>i. f i = n) xs) ns))) x
    = (if f x \<in> set ns then count (mset xs) x else 0)"
  using assms
proof (induction ns)
  case Nil
  then show ?case by simp
next
  case (Cons n ns)
  have "count (mset (filter (\<lambda>i. f i = n) xs)) x = (if f x = n then count (mset xs) x else 0)"
    by simp
  then show ?case using Cons by auto
qed

lemma mset_filter_parts:
  assumes "distinct ns" "\<And>x. x \<in> set xs \<Longrightarrow> f x \<in> set ns"
  shows "mset (concat (map (\<lambda>n. filter (\<lambda>i. f i = n) xs) ns)) = mset xs"
  by (rule multiset_eqI)
    (use assms(2) in \<open>auto simp: count_filter_parts [OF assms(1)] count_eq_zero_iff\<close>)

lemma indices_concat:
  assumes "distinct names" "\<And>i. i < length rows \<Longrightarrow> name_at schema_of rows i \<in> set names"
    "length news = length rows"
  shows "mset (concat (map (\<lambda>n. map (\<lambda>i. news ! i) (indices schema_of rows n)) names)) = mset news"
proof -
  let ?at = "concat (map (indices schema_of rows) names)"
  have "mset ?at = mset [0..<length rows]"
    unfolding indices_def using assms(1,2) by (intro mset_filter_parts) auto
  then have "mset (map (\<lambda>i. news ! i) ?at) = mset (map (\<lambda>i. news ! i) [0..<length news])"
    using assms(3) by (metis mset_map)
  then show ?thesis by (simp add: map_concat map_nth comp_def)
qed

lemma found_schema_name: "found_schema schemas n = Some s \<Longrightarrow> sc_Name s = n"
  by (auto simp: found_schema_def find_Some_iff)

text \<open>The stages of an automatic insertion that succeeds: the schemas, the batches, the calls.\<close>

lemma insert_auto_stages:
  fixes config :: "insert_request_config option" and w :: world
  assumes "the_insert_config config = (c, rc)"
  defines "g \<equiv> graph_of rc (cp_Config (wd_Pool w))"
  assumes "insert_auto env srv call read show_schemas
      (\<lambda>rc schemas. distribute (\<lambda>s row i. convert s row i rc) schema_of missing schemas 0 rows
        (Map.empty, Map.empty)) enum config w = (w', Ret out)"
  shows "\<exists>schemas m batches news. snd (show_schemas (Some rc) w) = Ret schemas
    \<and> distributed (\<lambda>s row i. convert s row i (Some rc)) schema_of schemas rows news (m, batches)
    \<and> send_batches env srv call read c rc g batches enum Map.empty (fst (show_schemas (Some rc) w)) = (w', Ret out)"
proof -
  let ?spread = "\<lambda>rc schemas. distribute (\<lambda>s row i. convert s row i rc) schema_of missing schemas 0 rows
        (Map.empty, Map.empty)"
  have e: "act_bind (show_schemas (Some rc)) (\<lambda>schemas.
       act_bind (act_lift (?spread (Some rc) schemas)) (\<lambda>(m, batches).
         send_batches env srv call read c rc g batches enum Map.empty)) w = (w', Ret out)"
    using assms(3) by (simp add: insert_auto_def assms(1,2) Let_def)
  then obtain schemas m batches where s: "snd (show_schemas (Some rc) w) = Ret schemas"
      "?spread (Some rc) schemas = Ret (m, batches)"
      "send_batches env srv call read c rc g batches enum Map.empty (fst (show_schemas (Some rc) w)) = (w', Ret out)"
    by (auto simp: act_bind_def act_lift_def split: prod.splits go.splits)
  from distribute_distributed [of "\<lambda>s row i. convert s row i (Some rc)" schema_of missing schemas "[]"
      rows Map.empty Map.empty "(m, batches)" "[]"] s(2) distributed_start
  obtain news where "distributed (\<lambda>s row i. convert s row i (Some rc)) schema_of schemas rows news (m, batches)"
    by auto
  with s(1,3) show ?thesis by blast
qed

text \<open>
  What an automatic insertion that succeeds has sent, for nodes and edges alike.
\<close>

lemma insert_auto_rows:
  assumes "snd (insert_auto env srv call read show_schemas
      (\<lambda>rc schemas. distribute (\<lambda>s row i. convert s row i rc) schema_of missing schemas 0 rows
        (Map.empty, Map.empty)) enum config w) = Ret out"
    "carries call" "\<And>rc. only_sends ps (show_schemas rc)"
    "distinct enum" "set enum = (schema_of \<circ> the) ` set rows"
  shows "\<exists>schemas news cs. wd_Calls (fst (insert_auto env srv call read show_schemas
      (\<lambda>rc schemas. distribute (\<lambda>s row i. convert s row i rc) schema_of missing schemas 0 rows
        (Map.empty, Map.empty)) enum config w)) = wd_Calls w @ cs
    \<and> length news = length rows
    \<and> (\<forall>i < length rows. \<exists>r s. rows ! i = Some r \<and> found_schema schemas (schema_of r) = Some s
        \<and> convert s (rows ! i) i (Some (snd (the_insert_config config))) = Ret (news ! i))
    \<and> mset (sent_rows cs) = mset (map Some news) \<and> dom out = set enum"
proof -
  obtain c rc where config: "the_insert_config config = (c, rc)" by (cases "the_insert_config config")
  let ?spread = "\<lambda>rc schemas. distribute (\<lambda>s row i. convert s row i rc) schema_of missing schemas 0 rows
        (Map.empty, Map.empty)"
  let ?g = "graph_of rc (cp_Config (wd_Pool w))"
  let ?act = "insert_auto env srv call read show_schemas ?spread enum config w"
  have "?act = (fst ?act, Ret out)" using assms(1) by (simp add: prod_eq_iff)
  from insert_auto_stages [OF config this] obtain schemas m batches news where
    s: "send_batches env srv call read c rc ?g batches enum Map.empty (fst (show_schemas (Some rc) w))
      = (fst ?act, Ret out)"
    and d: "distributed (\<lambda>s row i. convert s row i (Some rc)) schema_of schemas rows news (m, batches)"
    by blast
  then have f: "fst ?act = fst (send_batches env srv call read c rc ?g batches enum Map.empty
         (fst (show_schemas (Some rc) w)))"
    and s3: "snd (send_batches env srv call read c rc ?g batches enum Map.empty
         (fst (show_schemas (Some rc) w))) = Ret out" by simp_all
  have l: "length news = length rows" using d by (simp add: distributed_def)
  have rows: "\<exists>r s. rows ! i = Some r \<and> found_schema schemas (schema_of r) = Some s
        \<and> convert s (rows ! i) i (Some rc) = Ret (news ! i)" if "i < length rows" for i
    using d that unfolding distributed_def name_at_def by fastforce
  have b: "batches n = (if indices schema_of rows n = [] then None
        else Some \<lparr>ba_Rows = map (\<lambda>i. news ! i) (indices schema_of rows n),
          ba_Schema = the (found_schema schemas n)\<rparr>)" for n
    using d by (simp add: distributed_def Let_def)
  obtain cs where first: "wd_Calls (fst (show_schemas (Some rc) w)) = wd_Calls w @ cs" "sent_rows cs = []"
    using only_sends_no_rows [OF assms(3)] by blast
  obtain ds where rest: "wd_Calls (fst ?act) = wd_Calls (fst (show_schemas (Some rc) w)) @ ds"
      "sent_rows ds = concat (map (\<lambda>n. case batches n of None \<Rightarrow> [] | Some b \<Rightarrow> map Some (ba_Rows b)) enum)"
      "dom out = {sc_Name (ba_Schema b) |n b. n \<in> set enum \<and> batches n = Some b}"
    using send_batches_rows [OF assms(2) s3] unfolding f by auto
  have each: "(case batches n of None \<Rightarrow> [] | Some b \<Rightarrow> map Some (ba_Rows b))
      = map Some (map (\<lambda>i. news ! i) (indices schema_of rows n))" for n
    by (simp add: b)
  have "sent_rows ds = map Some (concat (map (\<lambda>n. map (\<lambda>i. news ! i) (indices schema_of rows n)) enum))"
    unfolding rest(2) each by (simp add: map_concat comp_def)
  moreover have "mset (concat (map (\<lambda>n. map (\<lambda>i. news ! i) (indices schema_of rows n)) enum)) = mset news"
    using assms(4,5) l by (intro indices_concat) (auto simp: name_at_def)
  ultimately have sent: "mset (sent_rows ds) = mset (map Some news)" by (metis mset_map)
  have name: "\<exists>b. batches n = Some b \<and> sc_Name (ba_Schema b) = n"
    if mem: "n \<in> set enum" for n
  proof -
    obtain i where i: "i < length rows" "schema_of (the (rows ! i)) = n"
    proof -
      obtain row where "row \<in> set rows" "n = schema_of (the row)" using mem assms(5) by auto
      then show thesis using that by (metis in_set_conv_nth)
    qed
    then have "indices schema_of rows n \<noteq> []"
      by (auto simp: indices_def name_at_def filter_empty_conv)
    moreover obtain s where "found_schema schemas n = Some s" using rows [OF i(1)] i(2) by auto
    ultimately show ?thesis by (simp add: b found_schema_name)
  qed
  have "dom out = set enum"
  proof
    show "dom out \<subseteq> set enum" unfolding rest(3) using name by fastforce
    show "set enum \<subseteq> dom out"
    proof
      fix n assume "n \<in> set enum"
      with name obtain b where "batches n = Some b" "sc_Name (ba_Schema b) = n" by blast
      with \<open>n \<in> set enum\<close> show "n \<in> dom out" unfolding rest(3) by blast
    qed
  qed
  then show ?thesis using first rest(1) l rows sent config
    by (intro exI [of _ schemas] exI [of _ news] exI [of _ "cs @ ds"]) simp
qed

text \<open>
  Property C5. An automatic insertion of nodes that succeeds has sent every row exactly once: each
  is converted under the schema the server showed for its name, the rows of all the calls made
  are these conversions, none missing and none twice, and there is one response per schema name.
  Go enumerates the batches in any order \<open>enum\<close>.
\<close>

theorem auto_sends_each_row_once:
  assumes "snd (InsertNodesBatchAuto env srv enum rows config w) = Ret out"
    "distinct enum" "set enum = (nd_Schema \<circ> the) ` set rows"
  shows "\<exists>schemas news cs. wd_Calls (fst (InsertNodesBatchAuto env srv enum rows config w)) = wd_Calls w @ cs
    \<and> length news = length rows
    \<and> (\<forall>i < length rows. \<exists>r s. rows ! i = Some r \<and> found_schema schemas (nd_Schema r) = Some s
        \<and> convertSdkNodeRowToUltipaNodeRow env s (rows ! i) i (Some (snd (the_insert_config config)))
            = Ret (news ! i))
    \<and> mset (sent_rows cs) = mset (map Some news) \<and> dom out = set enum"
proof -
  have "only_sends [''show().schema()''] (ShowNodeSchema env srv rc)" for rc
    unfolding ShowNodeSchema_def by (intro sends_intros ShowSchema_sends)
  with assms show ?thesis unfolding InsertNodesBatchAuto_def by (intro insert_auto_rows) auto
qed

text \<open>
  An automatic insertion sends no row before every row was checked and converted:
  if any call it made carries rows, then all the rows had been distributed over batches.
\<close>

theorem auto_checks_before_sending:
  shows "\<exists>cs. wd_Calls (fst (InsertNodesBatchAuto env srv enum rows config w)) = wd_Calls w @ cs
    \<and> (sent_rows cs \<noteq> [] \<longrightarrow> (\<exists>schemas st.
        snd (ShowNodeSchema env srv (Some (snd (the_insert_config config))) w) = Ret schemas
        \<and> distribute (\<lambda>s row i. convertSdkNodeRowToUltipaNodeRow env s row i
              (Some (snd (the_insert_config config)))) nd_Schema ''Schema not found : '' schemas 0 rows
            (Map.empty, Map.empty) = Ret st))"
proof -
  obtain c rc where config: "the_insert_config config = (c, rc)" by (cases "the_insert_config config")
  let ?show = "ShowNodeSchema env srv (Some rc)"
  let ?spread = "\<lambda>schemas. distribute (\<lambda>s row i. convertSdkNodeRowToUltipaNodeRow env s row i (Some rc))
      nd_Schema ''Schema not found : '' schemas 0 rows (Map.empty, Map.empty)"
  let ?g = "graph_of rc (cp_Config (wd_Pool w))"
  let ?act = "InsertNodesBatchAuto env srv enum rows config w"
  have e: "?act = act_bind ?show (\<lambda>schemas. act_bind (act_lift (?spread schemas)) (\<lambda>(m, batches).
         send_batches env srv InsertNodesCall NewNodesInsertResponse c rc ?g batches enum Map.empty)) w"
    by (simp add: InsertNodesBatchAuto_def insert_auto_def config Let_def)
  have "only_sends [''show().schema()''] ?show"
    unfolding ShowNodeSchema_def by (intro sends_intros ShowSchema_sends)
  from only_sends_no_rows [OF this, of w] obtain cs where
    first: "wd_Calls (fst (?show w)) = wd_Calls w @ cs" "sent_rows cs = []" by blast
  show ?thesis
  proof (cases "\<exists>schemas st. snd (?show w) = Ret schemas \<and> ?spread schemas = Ret st")
    case True
    then obtain schemas m batches where s: "snd (?show w) = Ret schemas" "?spread schemas = Ret (m, batches)"
      by auto
    have f: "fst ?act = fst (send_batches env srv InsertNodesCall NewNodesInsertResponse c rc ?g batches
        enum Map.empty (fst (?show w)))"
      unfolding e using s by (simp add: fst_act_bind)
    obtain ds where "wd_Calls (fst ?act) = wd_Calls (fst (?show w)) @ ds"
      unfolding f using send_batches_grows by blast
    then show ?thesis using first(1) True config by (intro exI [of _ "cs @ ds"]) auto
  next
    case False
    then have "fst ?act = fst (?show w)"
      unfolding e by (auto simp: fst_act_bind split: go.split)
    then show ?thesis using first by (intro exI [of _ cs]) simp
  qed
qed

section \<open>A server that shows two schemas\<close>

definition schema_env :: json_env where
  "schema_env = toy_json_env\<lparr>js_props := (\<lambda>_. Ret [])\<rparr>"

definition schema_reply :: query_reply where
  "schema_reply = \<lparr>qr_Status = None,
     qr_Alias = [\<lparr>ra_Alias = ''_nodeSchema'', ra_ResultType = RT_TABLE\<rparr>],
     qr_Paths = None, qr_Nodes = None, qr_Edges = None, qr_Attrs = None,
     qr_Tables = Some [\<lparr>tt_TableName = ''_nodeSchema'', tt_Headers = [],
       tt_TableRows = [map bytes_of [''1'', ''s'', [], [], []], map bytes_of [''2'', ''t'', [], [], []]]\<rparr>],
     qr_Statistics = None, qr_ExplainPlan = None\<rparr>"

definition schema_server :: server where
  "schema_server = sample_server\<lparr>sv_query := (\<lambda>calls. Inr ([schema_reply], None))\<rparr>"

definition bare_node :: "gostring \<Rightarrow> gostring \<Rightarrow> node" where
  "bare_node i name = \<lparr>nd_ID = i, nd_UUID = 0, nd_Schema = name, nd_Values = None\<rparr>"

definition three_nodes :: "node option list" where
  "three_nodes = [Some (bare_node ''a'' ''s''), Some (bare_node ''b'' ''t''), Some (bare_node ''c'' ''s'')]"

lemma insert_sample_schemas:
  obtains s t where
    "snd (ShowNodeSchema schema_env schema_server (Some empty_request_config) sample_world) = Ret [s, t]"
    "sc_Name s = ''s''" "sc_Name t = ''t''" "sc_Properties s = []" "sc_Properties t = []"
proof -
  have "case snd (ShowNodeSchema schema_env schema_server (Some empty_request_config) sample_world) of
      Ret ss \<Rightarrow> map sc_Name ss = [''s'', ''t''] \<and> list_all (\<lambda>s. sc_Properties s = []) ss | _ \<Rightarrow> False"
    by code_simp
  then show thesis using that by (auto split: go.splits)
qed

lemma convert_bare:
  "sc_Properties s = [] \<Longrightarrow> \<exists>r. convertSdkNodeRowToUltipaNodeRow env s (Some (bare_node i n)) k c = Ret r"
  by (simp add: convertSdkNodeRowToUltipaNodeRow_def checkNodeProperties_def bare_node_def
      CheckValuesAndProperties_def data_properties_def doConvertSdkNodeRowToUltipaNodeRow_def deref_def)

lemma three_nodes_distributed:
  assumes "sc_Name s = ''s''" "sc_Name t = ''t''" "sc_Properties s = []" "sc_Properties t = []"
  shows "\<exists>st. distribute (\<lambda>s row i. convertSdkNodeRowToUltipaNodeRow env s row i c) nd_Schema
    missing [s, t] 0 three_nodes (Map.empty, Map.empty) = Ret st"
proof -
  obtain r1 r2 r3 where
    "convertSdkNodeRowToUltipaNodeRow env s (Some (bare_node ''a'' ''s'')) 0 c = Ret r1"
    "convertSdkNodeRowToUltipaNodeRow env t (Some (bare_node ''b'' ''t'')) (Suc 0) c = Ret r2"
    "convertSdkNodeRowToUltipaNodeRow env s (Some (bare_node ''c'' ''s'')) (Suc (Suc 0)) c = Ret r3"
    using convert_bare assms by metis
  moreover have "nd_Schema (bare_node i n) = n" for i n by (simp add: bare_node_def)
  ultimately show ?thesis
    using assms by (simp add: three_nodes_def deref_def batch_for_def Let_def)
qed

lemma rows_distributed_witness:
  "\<exists>m batches news. length news = 3 \<and> batches ''s'' = Some \<lparr>ba_Rows = [news ! 0, news ! 2],
      ba_Schema = sample_schema\<lparr>sc_Name := ''s'', sc_Properties := []\<rparr>\<rparr> \<and>
    the_positions m ''s'' (Suc 0) = Some 2"
proof -
  let ?s = "sample_schema\<lparr>sc_Name := ''s'', sc_Properties := []\<rparr>"
  let ?t = "sample_schema\<lparr>sc_Name := ''t'', sc_Properties := []\<rparr>"
  obtain m batches where "distribute (\<lambda>s row i. convertSdkNodeRowToUltipaNodeRow toy_env s row i None) nd_Schema
      [] [?s, ?t] 0 three_nodes (Map.empty, Map.empty) = Ret (m, batches)"
    using three_nodes_distributed [of ?s ?t toy_env None "[]"] by auto
  from rows_distributed [OF this] obtain news where l: "length news = length three_nodes"
    and names: "\<forall>name. let at = indices nd_Schema three_nodes name in the_positions m name = list_map at
        \<and> batches name = (if at = [] then None
            else Some \<lparr>ba_Rows = map (\<lambda>i. news ! i) at, ba_Schema = the (found_schema [?s, ?t] name)\<rparr>)"
    by blast
  have at: "indices nd_Schema three_nodes ''s'' = [0, 2]"
    by (simp add: indices_def name_at_def three_nodes_def bare_node_def upt_rec numeral_eq_Suc)
  have found: "found_schema [?s, ?t] ''s'' = Some ?s" by (simp add: found_schema_def)
  have "the_positions m ''s'' = list_map [0, 2] \<and> batches ''s'' = Some \<lparr>ba_Rows = [news ! 0, news ! 2], ba_Schema = ?s\<rparr>"
    using names [THEN spec, of "''s''"] unfolding at found Let_def by simp
  then show ?thesis using l
    by (intro exI [of _ m] exI [of _ batches] exI [of _ news]) (simp add: three_nodes_def list_map_def)
qed

text \<open>A server that answers every insertion, and a pool with always a connection to make it on.\<close>

lemma sample_insertion:
  fixes env :: "'a env_scheme"
  assumes "sv_insert srv = sv_insert sample_server"
    "cp_Actives (wd_Pool w) = map Some [''a'', ''b'']" "0 \<le> sint (cp_RandomTick (wd_Pool w))"
    "sint (cp_RandomTick (wd_Pool w)) < 2 ^ 62"
  shows "snd (insert_rows env srv InsertNodesCall c empty_request_config g sch (Ret rows) w)
      = Ret (sample_insert_reply [] [])"
    "wd_Pool (fst (insert_rows env srv InsertNodesCall c empty_request_config g sch
      (Ret rows) w)) = (wd_Pool w)\<lparr>cp_RandomTick := cp_RandomTick (wd_Pool w) + 1\<rparr>"
proof -
  obtain h where h: "snd (GetRandomConn (wd_Pool w)) = Ret h"
    using choice [OF assms(2) _ assms(3), of 0] assms(4) by (auto simp: after_calls_def)
  have "fst (GetRandomConn (wd_Pool w)) = (wd_Pool w)\<lparr>cp_RandomTick := cp_RandomTick (wd_Pool w) + 1\<rparr>"
    using assms(2) by (intro fst_GetRandomConn) simp
  with h show "snd (insert_rows env srv InsertNodesCall c empty_request_config g sch (Ret rows) w)
      = Ret (sample_insert_reply [] [])"
    "wd_Pool (fst (insert_rows env srv InsertNodesCall c empty_request_config g sch
      (Ret rows) w)) = (wd_Pool w)\<lparr>cp_RandomTick := cp_RandomTick (wd_Pool w) + 1\<rparr>"
    using assms(1)
    by (simp_all add: insert_rows_def snd_act_bind fst_act_bind GetClient_free empty_request_config_def
        api_NewContext_def NewContext_def Let_def receive_sum_def sample_server_def)
qed

lemma sample_send:
  fixes env :: "'a env_scheme"
  assumes "sv_insert srv = sv_insert sample_server"
    "cp_Actives (wd_Pool w) = map Some [''a'', ''b'']" "0 \<le> sint (cp_RandomTick (wd_Pool w))"
    "sint (cp_RandomTick (wd_Pool w)) + int (length names) < 2 ^ 62"
  shows "is_ret (snd (send_batches env srv InsertNodesCall NewNodesInsertResponse c
      empty_request_config g batches names resps w))"
  using assms(2-)
proof (induction names arbitrary: resps w)
  case Nil
  then show ?case by simp
next
  case (Cons n names)
  have "is_ret (NewNodesInsertResponse (sample_insert_reply [] []))" by code_simp
  then obtain response where response: "NewNodesInsertResponse (sample_insert_reply [] []) = Ret response"
    by (auto simp: is_ret_iff)
  have tick: "sint (cp_RandomTick (wd_Pool w) + 1) = sint (cp_RandomTick (wd_Pool w)) + 1"
    using sint_add_nat [of "cp_RandomTick (wd_Pool w)" 1] Cons.prems by simp
  show ?case
  proof (cases "batches n")
    case None
    then show ?thesis using Cons by simp
  next
    case (Some b)
    have "sint (cp_RandomTick (wd_Pool w)) < 2 ^ 62" using Cons.prems by simp
    note i = sample_insertion [OF assms(1) Cons.prems(1,2) this, of env c g "[insert_schema (ba_Schema b)]"
        "map Some (ba_Rows b)"]
    show ?thesis using Some Cons.prems tick
      by (simp add: snd_act_bind i response Cons.IH)
  qed
qed

text \<open>An automatic insertion whose rows are distributed succeeds.\<close>

lemma sample_auto_insertion:
  fixes env :: "'a json_env_scheme"
  assumes "sv_insert srv = sv_insert sample_server"
    "snd (ShowNodeSchema env srv (Some empty_request_config) sample_world) = Ret schemas"
    "cp_Actives (wd_Pool (fst (ShowNodeSchema env srv (Some empty_request_config) sample_world)))
       = map Some [''a'', ''b'']"
    "cp_RandomTick (wd_Pool (fst (ShowNodeSchema env srv (Some empty_request_config) sample_world))) = 1"
    "distribute (\<lambda>s row i. convertSdkNodeRowToUltipaNodeRow env s row i (Some empty_request_config))
       nd_Schema ''Schema not found : '' schemas 0 rows (Map.empty, Map.empty) = Ret st" "length enum < 100"
  shows "\<exists>out. snd (InsertNodesBatchAuto env srv enum rows None sample_world) = Ret out"
proof -
  obtain m batches where st: "st = (m, batches)" by (cases st)
  have config: "the_insert_config None = (\<lparr>irc_RequestConfig = None, irc_InsertType = INSERT_NORMAL,
      irc_Silent = False\<rparr>, empty_request_config)"
    by (simp add: the_insert_config_def the_config_def)
  have "is_ret (snd (InsertNodesBatchAuto env srv enum rows None sample_world))"
    unfolding InsertNodesBatchAuto_def insert_auto_def config prod.case Let_def snd_act_bind assms(2)
      go.case act_simps assms(5) st
    by (rule sample_send) (use assms in simp_all)
  then show ?thesis by (simp add: is_ret_iff)
qed

lemma sample_auto:
  "\<exists>out. snd (InsertNodesBatchAuto schema_env schema_server [''t'', ''s''] three_nodes None sample_world)
    = Ret out"
proof -
  obtain s t where st:
    "snd (ShowNodeSchema schema_env schema_server (Some empty_request_config) sample_world) = Ret [s, t]"
    "sc_Name s = ''s''" "sc_Name t = ''t''" "sc_Properties s = []" "sc_Properties t = []"
    by (rule insert_sample_schemas)
  obtain b where d: "distribute (\<lambda>s row i. convertSdkNodeRowToUltipaNodeRow schema_env s row i
      (Some empty_request_config)) nd_Schema ''Schema not found : '' [s, t] 0 three_nodes
      (Map.empty, Map.empty) = Ret b"
    using three_nodes_distributed [OF st(2-5)] by fastforce
  let ?w = "fst (ShowNodeSchema schema_env schema_server (Some empty_request_config) sample_world)"
  have "cp_Actives (wd_Pool ?w) = map Some [''a'', ''b''] \<and> cp_RandomTick (wd_Pool ?w) = 1" by code_simp
  then show ?thesis
    by (intro sample_auto_insertion [OF _ st(1) _ _ d]) (simp_all add: schema_server_def)
qed

lemma auto_sends_each_row_once_witness:
  "\<exists>cs. wd_Calls (fst (InsertNodesBatchAuto schema_env schema_server [''t'', ''s''] three_nodes None
      sample_world)) = cs \<and> length (sent_rows cs) = 3"
proof -
  obtain out where "snd (InsertNodesBatchAuto schema_env schema_server [''t'', ''s''] three_nodes None
      sample_world) = Ret out" using sample_auto by blast
  moreover have "set [''t'', ''s''] = (nd_Schema \<circ> the) ` set three_nodes"
    by (auto simp: three_nodes_def bare_node_def)
  ultimately obtain news cs where
    "wd_Calls (fst (InsertNodesBatchAuto schema_env schema_server [''t'', ''s''] three_nodes None
      sample_world)) = wd_Calls sample_world @ cs" "length news = length three_nodes"
    "mset (sent_rows cs) = mset (map Some news)"
    using auto_sends_each_row_once [of schema_env schema_server "[''t'', ''s'']" three_nodes None sample_world out]
    by auto
  moreover from this(3) have "length (sent_rows cs) = length news" using mset_eq_length by fastforce
  ultimately show ?thesis
    by (intro exI [of _ cs]) (simp add: sample_world_def three_nodes_def)
qed

lemma auto_checks_before_sending_witness:
  "sent_rows (wd_Calls (fst (InsertNodesBatchAuto schema_env schema_server [''s'']
     [Some (bare_node ''a'' ''s''), None] None sample_world))) = []"
proof (rule ccontr)
  assume sent: "sent_rows (wd_Calls (fst (InsertNodesBatchAuto schema_env schema_server [''s'']
     [Some (bare_node ''a'' ''s''), None] None sample_world))) \<noteq> []"
  obtain schemas st where "distribute (\<lambda>s row i. convertSdkNodeRowToUltipaNodeRow schema_env s row i
      (Some (snd (the_insert_config None)))) nd_Schema ''Schema not found : '' schemas 0
      [Some (bare_node ''a'' ''s''), None] (Map.empty, Map.empty) = Ret st"
    using auto_checks_before_sending [of schema_env schema_server "[''s'']"
        "[Some (bare_node ''a'' ''s''), None]" None sample_world] sent
    by (auto simp: sample_world_def)
  then show False by (auto simp: go_simps deref_def Let_def)
qed

lemma by_schema_sends_converted_rows_witness:
  "\<exists>h ctx req. wd_Calls (fst (InsertNodesBatchBySchema toy_env sample_server sample_schema
      [Some (sample_node ''a'' (GInt64 1)), Some (sample_node ''b'' (GInt64 2))] [] None sample_world))
      = [InsertNodesCall h ctx req]
    \<and> nq_Rows req = [Some (sample_converted ''a'' (put_uint64 1)), Some (sample_converted ''b'' (put_uint64 2))]"
proof -
  let ?rows = "[Some (sample_node ''a'' (GInt64 1)), Some (sample_node ''b'' (GInt64 2))]"
  let ?rc = "snd (the_insert_config None)"
  have each: "convertSdkNodeRowToUltipaNodeRow toy_env sample_schema (Some (sample_node i (GInt64 v))) k (Some ?rc)
      = Ret (sample_converted i (put_uint64 v))" for i v k
    by (simp add: convertSdkNodeRowToUltipaNodeRow_def sample_check sample_conversion)
  have "checkNodeProperties sample_schema (?rows ! i) i = Ret ()"
    "doConvertSdkNodeRowToUltipaNodeRow toy_env sample_schema (?rows ! i) i (Some ?rc)
      = Ret (sample_converted (if i = 0 then ''a'' else ''b'') (put_uint64 (if i = 0 then 1 else 2)))" if "i < 2" for i
    using that by (auto simp: less_2_cases_iff sample_conversion sample_check)
  from converted_clean [OF this, where schedule = "[]"]
  have rows: "\<exists>rs. setPropertiesToNodeRow toy_env sample_schema ?rows (Some ?rc) [] = Ret rs"
    by (simp add: node_rows_converted numeral_2_eq_2)
  have config: "the_insert_config None = (\<lparr>irc_RequestConfig = None, irc_InsertType = INSERT_NORMAL,
      irc_Silent = False\<rparr>, empty_request_config)"
    by (simp add: the_insert_config_def the_config_def)
  have pool: "cp_Actives (wd_Pool sample_world) = map Some [''a'', ''b'']"
    "0 \<le> sint (cp_RandomTick (wd_Pool sample_world))" "sint (cp_RandomTick (wd_Pool sample_world)) < 2 ^ 62"
    by code_simp+
  have "is_ret (go_bind (accepted (sample_insert_reply [] [])) (\<lambda>_. NewNodesInsertResponse (sample_insert_reply [] [])))"
    by code_simp
  then have "is_ret (snd (InsertNodesBatchBySchema toy_env sample_server sample_schema ?rows [] None sample_world))"
    using rows by (auto simp: InsertNodesBatchBySchema_def insert_by_schema_def config snd_act_bind
        sample_insertion(1) [OF refl pool] is_ret_iff)
  then obtain h ctx rs where call: "wd_Calls (fst (InsertNodesBatchBySchema toy_env sample_server sample_schema
      ?rows [] None sample_world)) = [InsertNodesCall h ctx \<lparr>nq_GraphName = graph_of ?rc (cp_Config (wd_Pool sample_world)),
        nq_Schemas = [insert_schema sample_schema], nq_Rows = rs,
        nq_InsertType = irc_InsertType (fst (the_insert_config None)),
        nq_Silent = irc_Silent (fst (the_insert_config None))\<rparr>]"
    and rs: "length rs = length ?rows" "\<forall>i < length ?rows. \<forall>r. rs ! i = Some r \<longrightarrow>
        doConvertSdkNodeRowToUltipaNodeRow toy_env sample_schema (?rows ! i) i (Some ?rc) = Ret r"
      "(\<forall>i < length ?rows. is_ret (convertSdkNodeRowToUltipaNodeRow toy_env sample_schema (?rows ! i) i (Some ?rc)))
        \<longrightarrow> None \<notin> set rs"
    using by_schema_sends_converted_rows [of toy_env sample_server sample_schema ?rows "[]" None sample_world]
    unfolding sample_world_def by fastforce
  have "None \<notin> set rs" using rs(3) by (simp add: less_Suc_eq each)
  moreover obtain x y where "rs = [x, y]"
    using rs(1) by (cases rs; cases "tl rs") (auto simp: Suc_length_conv)
  ultimately obtain a b where ab: "rs = [Some a, Some b]" by (cases x; cases y) auto
  have "a = sample_converted ''a'' (put_uint64 1)" "b = sample_converted ''b'' (put_uint64 2)"
    using rs(2) [rule_format, of 0 a] rs(2) [rule_format, of 1 b] by (simp_all add: ab sample_conversion)
  with ab call show ?thesis by simp
qed

end
