(* ===== verification/Admin.thy ===== *)
theory Admin
  imports Catalog
begin

text \<open>
  The other operations of \<open>sdk/api\<close> that send one statement and read one item: \<open>index.go\<close>,
  \<open>lte.go\<close>, \<open>kill.go\<close>, \<open>top.go\<close>, \<open>stats.go\<close>, \<open>job.go\<close>, \<open>task.go\<close>, \<open>projection.go\<close>, \<open>hdcGraph.go\<close>,
  \<open>policy.go\<close>, \<open>user.go\<close>, \<open>privilege.go\<close>, \<open>license.go\<close>, with the statements of \<open>structs/policy.go\<close>
  and \<open>structs/user.go\<close>.
\<close>

definition job_of :: "'a env_scheme \<Rightarrow> response action \<Rightarrow> job_response action" where
  "job_of env m = act_bind m (\<lambda>resp. act_lift (GetJobResponseFromUqlResponse env (Some resp)))"

section \<open>Indexes\<close>

definition create_index_uql :: "gostring \<Rightarrow> gostring \<Rightarrow> gostring \<Rightarrow> gostring go" where
  "create_index_uql w source indexName =
     (if indexName = [] then Fail (Err ''indexName can not empty '')
      else if source = [] then Fail (Err ''source can not empty '')
      else go_bind (quoted ''propertyName'' indexName []) (\<lambda>name.
        Ret (''create().'' @ w @ ''_index('' @ source @ '', '' @ name @ '')'')))"

definition CreateNodeIndex where
  "CreateNodeIndex env srv source indexName config =
     job_of env (send env srv (create_index_uql ''node'' source indexName) config)"

definition CreateEdgeIndex where
  "CreateEdgeIndex env srv source indexName config =
     job_of env (send env srv (create_index_uql ''edge'' source indexName) config)"

definition CreateIndex where
  "CreateIndex env srv dbType source indexName config =
     (case dbType of
        DBNODE \<Rightarrow> CreateNodeIndex env srv source indexName config
      | DBEDGE \<Rightarrow> CreateEdgeIndex env srv source indexName config
      | _ \<Rightarrow> act_lift db_type_error)"

definition ShowIndex ::
  "'a json_env_scheme \<Rightarrow> server \<Rightarrow> request_config option \<Rightarrow> index list action" where
  "ShowIndex env srv config =
     show_items env srv (Ret ''show().index()'') (\<lambda>resp.
       go_bind (item ''_nodeIndex'' AsIndexes resp) (\<lambda>ns.
       go_bind (item ''_edgeIndex'' AsIndexes resp) (\<lambda>es. Ret (ns @ es)))) config"

definition ShowEdgeIndex where
  "ShowEdgeIndex env srv config =
     show_items env srv (Ret ''show().edge_index()'') (item ''_edgeIndex'' AsIndexes) config"

definition ShowNodeIndex where
  "ShowNodeIndex env srv config =
     show_items env srv (Ret ''show().node_index()'') (item ''_nodeIndex'' AsIndexes) config"

text \<open>Dropping takes the name as it is, in double quotes.\<close>

definition drop_uql :: "gostring \<Rightarrow> db_type \<Rightarrow> gostring \<Rightarrow> gostring go" where
  "drop_uql kind dbType name =
     go_bind (db_word dbType) (\<lambda>w. Ret (''drop().'' @ w @ kind @ ''('' @ dq name @ '')''))"

definition DropIndex where
  "DropIndex env srv dbType indexName config = send env srv (drop_uql ''_index'' dbType indexName) config"

definition DropNodeIndex where
  "DropNodeIndex env srv indexName config = DropIndex env srv DBNODE indexName config"

definition DropEdgeIndex where
  "DropEdgeIndex env srv indexName config = DropIndex env srv DBEDGE indexName config"

definition create_fulltext_uql ::
  "db_type \<Rightarrow> gostring \<Rightarrow> gostring \<Rightarrow> gostring \<Rightarrow> gostring go" where
  "create_fulltext_uql dbType schemaName propertyName fulltextName =
     (if schemaName = [] then Fail (Err '' schemaName can not empty '')
      else if propertyName = [] then Fail (Err ''propertyName can not empty '')
      else if fulltextName = [] then Fail (Err ''fulltextName can not empty '')
      else go_bind (quoted ''schemaName'' schemaName []) (\<lambda>s.
        go_bind (quoted ''propertyName'' propertyName []) (\<lambda>p.
        go_bind (db_word dbType) (\<lambda>w.
          Ret (''create().'' @ w @ ''_fulltext(@'' @ s @ ''.'' @ p @ '', '' @ dq fulltextName @ '')'')))))"

definition CreateFullText where
  "CreateFullText env srv dbType schemaName propertyName fulltextName config =
     job_of env (send env srv (create_fulltext_uql dbType schemaName propertyName fulltextName) config)"

definition CreateNodeFullText where
  "CreateNodeFullText env srv schemaName propertyName fulltextName config =
     CreateFullText env srv DBNODE schemaName propertyName fulltextName config"

definition CreateEdgeFullText where
  "CreateEdgeFullText env srv schemaName propertyName fulltextName config =
     CreateFullText env srv DBEDGE schemaName propertyName fulltextName config"

definition ShowFullText ::
  "'a json_env_scheme \<Rightarrow> server \<Rightarrow> request_config option \<Rightarrow> index list action" where
  "ShowFullText env srv config =
     show_items env srv (Ret ''show().fulltext()'') (\<lambda>resp.
       go_bind (item ''_nodeFulltext'' AsFullTexts resp) (\<lambda>ns.
       go_bind (item ''_edgeFulltext'' AsFullTexts resp) (\<lambda>es. Ret (ns @ es)))) config"

definition ShowEdgeFullText where
  "ShowEdgeFullText env srv config =
     show_items env srv (Ret ''show().edge_fulltext()'') (item ''_edgeFulltext'' AsFullTexts) config"

definition ShowNodeFullText where
  "ShowNodeFullText env srv config =
     show_items env srv (Ret ''show().node_fulltext()'') (item ''_nodeFulltext'' AsFullTexts) config"

definition DropFullText where
  "DropFullText env srv fulltextName dbType config =
     send env srv (drop_uql ''_fulltext'' dbType fulltextName) config"

section \<open>Loading to the engine\<close>

definition engine_uql :: "gostring \<Rightarrow> gostring \<Rightarrow> db_type \<Rightarrow> gostring \<Rightarrow> gostring \<Rightarrow> gostring go" where
  "engine_uql command shown dbType schemaName propertyName =
     (let schemaName = (if schemaName = [] then ''*'' else schemaName) in
      if propertyName = [] then Fail (Err (shown @ '': propertyName can not be empty''))
      else go_bind (quoted ''schemaName'' schemaName []) (\<lambda>s.
        go_bind (quoted ''propertyName'' propertyName []) (\<lambda>p.
        go_bind (db_word dbType) (\<lambda>w.
          Ret (command @ ''().'' @ w @ ''_property(@'' @ s @ ''.'' @ p @ '')'')))))"

definition Lte where
  "Lte env srv dbType schemaName propertyName config =
     job_of env (send env srv (engine_uql ''LTE'' ''lte'' dbType schemaName propertyName) config)"

definition Ufe where
  "Ufe env srv dbType schemaName propertyName config =
     send env srv (engine_uql ''UFE'' ''ufe'' dbType schemaName propertyName) config"

section \<open>Processes, jobs and tasks\<close>

definition Kill where
  "Kill env srv processId config =
     send env srv (if processId = [] then Fail (Err ''processId can not empty'')
       else Ret (''kill('' @ dq processId @ '')'')) config"

definition Top where
  "Top env srv config = show_items env srv (Ret ''top()'') (item ''_top'' AsProcesses) config"

definition Stats where
  "Stats env srv config = Uql env srv ''stats()'' config"

definition ShowJob ::
  "'a json_env_scheme \<Rightarrow> server \<Rightarrow> gostring \<Rightarrow> request_config option \<Rightarrow> job list action" where
  "ShowJob env srv i config =
     show_items env srv (Ret (''show().job('' @ i @ '')'')) (item ''_job'' (AsJobs env)) config"

definition ClearJob where
  "ClearJob env srv i config =
     send env srv (Ret (''clear().job('' @ (if i = ''*'' then dq ''*'' else i) @ '')'')) config"

definition StopJob where
  "StopJob env srv i config = send env srv (Ret (''stop().job('' @ i @ '')'')) config"

definition taskStatusDescriptions :: "(int \<times> gostring) list" where
  "taskStatusDescriptions = [(0, ''*''), (1, ''pending''), (2, ''computing''), (3, ''writing''),
     (4, ''failed''), (5, ''done''), (6, ''stopped'')]"

definition TaskStatus_String :: "int \<Rightarrow> gostring" where
  "TaskStatus_String ts = (case map_of taskStatusDescriptions ts of None \<Rightarrow> [] | Some s \<Rightarrow> s)"

text \<open>A task by number, by algorithm and status, or all of them.\<close>

definition task_uql :: "(gostring \<Rightarrow> bool) \<Rightarrow> gostring \<Rightarrow> gostring \<Rightarrow> gostring \<Rightarrow> int \<Rightarrow> gostring" where
  "task_uql digits front all algoNameOrId status =
     front @ ''.task('' @
       (if algoNameOrId = [] then all
        else if IsAllDigits digits algoNameOrId then algoNameOrId
        else dq algoNameOrId @ '','' @ dq (TaskStatus_String status)) @ '')''"

definition ShowTask where
  "ShowTask digits env srv algoNameOrId status config =
     show_items env srv (Ret (task_uql digits ''show()'' [] algoNameOrId status))
       (item ''_task'' (AsTasks env)) config"

definition ClearTask where
  "ClearTask digits env srv algoNameOrId status config =
     send env srv (Ret (task_uql digits ''clear()'' (dq ''*'') algoNameOrId status)) config"

definition StopTask where
  "StopTask digits env srv i config =
     send env srv (Ret (''stop().task('' @
       (if i = [] \<or> i = ''*'' then dq ''*'' else if IsAllDigits digits i then i else dq i) @ '')'')) config"

definition ShowProjection where
  "ShowProjection env srv config =
     show_items env srv (Ret ''show().projection()'') (item ''_projectionList'' (AsProjections env)) config"

section \<open>HDC graphs\<close>

definition ShowHDCGraph where
  "ShowHDCGraph env srv config =
     show_items env srv (Ret ''hdc.graph.show()'') (item ''_hdcGraphList'' (AsHDCGraphs env)) config"

definition DropHDCGraph where
  "DropHDCGraph env srv hdcGraphName config =
     Uql env srv (''hdc.graph.drop('' @ CHR 0x27 # hdcGraphName @ CHR 0x27 # '')'') config"

definition ShowHDCAlgo where
  "ShowHDCAlgo env srv hdcServerName config =
     show_items env srv (if hdcServerName = [] then Fail (Err ''hdcServerName is required'')
       else Ret (''hdc.server.show('' @ CHR 0x27 # hdcServerName @ CHR 0x27 # '')''))
       (item ''_algoList'' (AsAlgos env)) config"

section \<open>Users, policies and privileges\<close>

text \<open>
  The JSON encoder is an argument per type it is used at; an encoding that fails prints as an
  empty object.
\<close>

record json_out =
  jo_graph :: "graph_privileges \<Rightarrow> gostring option"
  jo_strings :: "gostring list \<Rightarrow> gostring option"
  jo_property :: "property_privileges \<Rightarrow> gostring option"
  jo_policy :: "policy \<Rightarrow> gostring option"

definition to_json :: "('b \<Rightarrow> gostring option) \<Rightarrow> 'b \<Rightarrow> gostring" where
  "to_json f x = (case f x of None \<Rightarrow> ''{}'' | Some s \<Rightarrow> s)"

definition json_or :: "gostring \<Rightarrow> ('b \<Rightarrow> gostring option) \<Rightarrow> 'b option \<Rightarrow> gostring" where
  "json_or none f x = (case x of None \<Rightarrow> none | Some y \<Rightarrow> to_json f y)"

definition nl :: gostring where
  "nl = [CHR 0x0A]"

definition ToCreateUserUql :: "json_out \<Rightarrow> user \<Rightarrow> gostring" where
  "ToCreateUserUql jo u =
     ''create().user('' @ dq (us_UserName u) @ '','' @ nl @ dq (us_PassWord u) @ '','' @ nl
     @ json_or ''{}'' (jo_graph jo) (us_GraphPrivileges u) @ '','' @ nl
     @ json_or ''[]'' (jo_strings jo) (us_SystemPrivileges u) @ '','' @ nl
     @ json_or ''[]'' (jo_strings jo) (us_Policies u) @ nl @ '')''"

text \<open>
  The source keeps in \<open>s\<close> the field it wrote last, and starts the next one with a separator when
  \<open>s\<close> is not empty.
\<close>

definition alter_field :: "gostring option \<Rightarrow> gostring \<times> gostring \<Rightarrow> gostring \<times> gostring" where
  "alter_field part st =
     (case part of
        None \<Rightarrow> st
      | Some text \<Rightarrow>
          let s = (if fst st \<noteq> [] then '','' @ nl else fst st) @ text in (s, snd st @ s))"

definition password_field :: "user \<Rightarrow> gostring option" where
  "password_field u = (if us_PassWord u \<noteq> [] then Some (''password: '' @ dq (us_PassWord u)) else None)"

definition json_field :: "gostring \<Rightarrow> ('b \<Rightarrow> gostring option) \<Rightarrow> 'b option \<Rightarrow> gostring option" where
  "json_field name f x = map_option (\<lambda>y. name @ to_json f y) x"

definition ToAlterUserUql :: "json_out \<Rightarrow> user \<Rightarrow> gostring" where
  "ToAlterUserUql jo u =
     (let st = ([], ''alter().user('' @ dq (us_UserName u) @ '').set({'' @ nl);
          st = alter_field (password_field u) st;
          st = alter_field (json_field ''graph_privileges:'' (jo_graph jo) (us_GraphPrivileges u)) st;
          st = alter_field (json_field ''system_privileges:'' (jo_strings jo) (us_SystemPrivileges u)) st;
          st = alter_field (json_field ''policies:'' (jo_strings jo) (us_Policies u)) st
      in snd st @ nl @ ''})'')"

lemma alter_fields:
  assumes "a \<noteq> Some []" "b \<noteq> Some []" "c \<noteq> Some []" "d \<noteq> Some []"
  shows "snd (alter_field d (alter_field c (alter_field b (alter_field a ([], pre)))))
    = pre @ join ('','' @ nl) (List.map_filter id [a, b, c, d])"
  using assms by (cases a; cases b; cases c; cases d)
    (simp_all add: alter_field_def Let_def List.map_filter_simps)

lemma field_texts:
  "password_field u \<noteq> Some []" "name \<noteq> [] \<Longrightarrow> json_field name f x \<noteq> Some []"
  by (auto simp: password_field_def json_field_def)

text \<open>
  The statement that alters a user sets the fields that are given, in a fixed order,
  with a separator between two fields and none before the first or after the last, whichever of
  them are given.
\<close>

theorem alter_user_fields:
  "ToAlterUserUql jo u =
     ''alter().user('' @ dq (us_UserName u) @ '').set({'' @ nl
     @ join ('','' @ nl) (List.map_filter id
         [password_field u,
          json_field ''graph_privileges:'' (jo_graph jo) (us_GraphPrivileges u),
          json_field ''system_privileges:'' (jo_strings jo) (us_SystemPrivileges u),
          json_field ''policies:'' (jo_strings jo) (us_Policies u)])
     @ nl @ ''})''"
  unfolding ToAlterUserUql_def Let_def by (subst alter_fields) (simp_all add: field_texts)

definition fill_element :: "privilege_element \<Rightarrow> privilege_element" where
  "fill_element e =
     (let fill = (\<lambda>x. case x of None \<Rightarrow> Some [] | Some y \<Rightarrow> Some y)
      in \<lparr>pe_Read = fill (pe_Read e), pe_Write = fill (pe_Write e), pe_Deny = fill (pe_Deny e)\<rparr>)"

definition fill_privileges :: "policy \<Rightarrow> policy" where
  "fill_privileges p = p\<lparr>po_PropertyPrivileges :=
     \<lparr>pp_Node = fill_element (pp_Node (po_PropertyPrivileges p)),
      pp_Edge = fill_element (pp_Edge (po_PropertyPrivileges p))\<rparr>\<rparr>"

definition ToCreatePolicyUql :: "json_out \<Rightarrow> policy \<Rightarrow> gostring" where
  "ToCreatePolicyUql jo p =
     ''create().policy('' @ dq (po_Name p) @ '','' @ nl
     @ json_or ''{}'' (jo_graph jo) (po_GraphPrivileges p) @ '','' @ nl
     @ json_or ''[]'' (jo_strings jo) (po_SystemPrivileges p) @ '','' @ nl
     @ json_or ''[]'' (jo_strings jo) (po_Policies p) @ '','' @ nl
     @ to_json (jo_property jo) (po_PropertyPrivileges (fill_privileges p)) @ nl @ '')''"

definition ToAlterPolicyUql :: "json_out \<Rightarrow> policy \<Rightarrow> gostring" where
  "ToAlterPolicyUql jo p =
     ''alter().policy('' @ dq (po_Name p) @ '').set('' @ to_json (jo_policy jo) (fill_privileges p) @ '')''"

definition ShowPolicy where
  "ShowPolicy env srv config =
     show_items env srv (Ret ''show().policy()'') (item ''_policy'' (AsPolicies env)) config"

definition GetPolicy ::
  "'a json_env_scheme \<Rightarrow> server \<Rightarrow> gostring \<Rightarrow> request_config option \<Rightarrow> policy option action" where
  "GetPolicy env srv policyName config =
     show_items env srv (if policyName = [] then Fail (Err ''policyName is required'')
         else Ret (''show().policy('' @ dq policyName @ '')''))
       (\<lambda>resp. go_lift (\<lambda>ps. case ps of [] \<Rightarrow> None | p # _ \<Rightarrow> Some p)
         (item ''_policy'' (AsPolicies env) resp)) config"

definition CreatePolicy where
  "CreatePolicy jo env srv policy config =
     send env srv (case policy of
         None \<Rightarrow> Fail (Err ''policy cant be null'')
       | Some p \<Rightarrow> if po_Name p = [] then Fail (Err ''policy name is required'')
                   else Ret (ToCreatePolicyUql jo p)) config"

definition AlterPolicy where
  "AlterPolicy jo env srv policy config =
     send env srv (go_lift (ToAlterPolicyUql jo) (deref policy)) config"

definition DropPolicy where
  "DropPolicy env srv policyName config =
     send env srv (Ret (''drop().policy('' @ dq policyName @ '')'')) config"

definition ShowUser where
  "ShowUser env srv config =
     show_items env srv (Ret ''show().user()'') (item ''_user'' (AsUsers env)) config"

text \<open>The first user of the answer is taken without a look at how many there are.\<close>

definition GetUser ::
  "'a json_env_scheme \<Rightarrow> server \<Rightarrow> gostring \<Rightarrow> request_config option \<Rightarrow> user action" where
  "GetUser env srv userName config =
     show_items env srv (if userName = [] then Fail (Err ''userName is required'')
         else Ret (''show().user('' @ dq userName @ '')''))
       (\<lambda>resp. go_bind (item ''_user'' (AsUsers env) resp) (\<lambda>users. go_nth users 0)) config"

definition CreateUser where
  "CreateUser jo env srv user config =
     send env srv (go_lift (ToCreateUserUql jo) (deref user)) config"

definition AlterUser where
  "AlterUser jo env srv user config =
     send env srv (go_lift (ToAlterUserUql jo) (deref user)) config"

definition DropUser where
  "DropUser env srv userName config =
     send env srv (Ret (''drop().user('' @ dq userName @ '')'')) config"

definition ShowPrivilege where
  "ShowPrivilege env srv config =
     show_items env srv (Ret ''show().privilege()'') (item ''_privilege'' (AsPrivileges env)) config"

section \<open>The licence\<close>

record license =
  li_LicenseUUID :: gostring
  li_Company :: gostring
  li_Department :: gostring
  li_ExpiredDate :: gostring

definition license_of :: "'a env_scheme \<Rightarrow> response \<Rightarrow> license go" where
  "license_of env resp =
     go_bind (item ''license'' (item_kvs env) resp) (\<lambda>kvs.
     go_bind (go_nth kvs 0) (\<lambda>v.
     go_bind (kv_string v ''license_uuid'') (\<lambda>uuid.
     go_bind (kv_string v ''company'') (\<lambda>company.
     go_bind (kv_string v ''department'') (\<lambda>department.
     go_bind (kv_string v ''expired_date'') (\<lambda>expired.
       Ret \<lparr>li_LicenseUUID = uuid, li_Company = company, li_Department = department,
           li_ExpiredDate = expired\<rparr>))))))"

definition ShowLicense where
  "ShowLicense env srv config = show_items env srv (Ret ''license.dump()'') (license_of env) config"

end
