(* ===== verification/Download.thy ===== *)
theory Download
  imports Admin
begin

text \<open>
  \<open>sdk/api/download.file.go\<close>: the result files of a job are found by asking for the job, and each
  is read from a stream of chunks given to a callback, which has a state of its own. The loop
  over the file names of a job ends because a Go map is finite; it is written here without that
  knowledge, so an operation returns an option and None would mean that it runs forever.
\<close>

section \<open>The files of a job\<close>

definition output_key :: "nat \<Rightarrow> gostring" where
  "output_key i = (if i = 0 then ''output_file'' else ''output_file'' @ itoa (int i))"

partial_function (option) files_from ::
  "(gostring \<rightharpoonup> gostring) \<Rightarrow> nat \<Rightarrow> gostring list \<Rightarrow> gostring list option" where
  "files_from m i files =
     (case m (output_key i) of
        Some file \<Rightarrow> files_from m (i + 1) (files @ [file])
      | None \<Rightarrow> Some files)"

definition files_of_jobs :: "job list \<Rightarrow> gostring list go option" where
  "files_of_jobs jobs =
     (case jobs of
        [] \<Rightarrow> Some (Fail (Err ''job not found''))
      | job # _ \<Rightarrow>
          (case jb_Result job of
             None \<Rightarrow> Some (Fail (Err ''job result is empty''))
           | Some m \<Rightarrow>
               map_option (\<lambda>files. if files = [] then Fail (Err ''empty files'') else Ret files)
                 (files_from m 0 [])))"

definition getFilesByJobId ::
  "'a json_env_scheme \<Rightarrow> server \<Rightarrow> gostring \<Rightarrow> request_config option \<Rightarrow> world
   \<Rightarrow> (world \<times> gostring list go) option" where
  "getFilesByJobId env srv jobId config w =
     (case ShowJob env srv jobId config w of
        (w', Ret jobs) \<Rightarrow> map_option (\<lambda>r. (w', r)) (files_of_jobs jobs)
      | (w', Fail e) \<Rightarrow> Some (w', Fail (Err (''show job error: '' @ error_text e)))
      | (w', Panic p) \<Rightarrow> Some (w', Panic p))"

section \<open>Reading a stream of chunks\<close>

text \<open>
  The two downloads read a stream by the same loop and differ in what they do on a status that
  is not a success, which is an argument here. True is the end of the stream; False leaves the
  operation with no error.
\<close>

fun recv_chunks ::
  "(gostring \<Rightarrow> bool go) \<Rightarrow> (bytes \<Rightarrow> 's \<Rightarrow> 's \<times> go_error option)
   \<Rightarrow> download_reply list \<Rightarrow> go_error option \<Rightarrow> 's \<Rightarrow> 's \<times> bool go" where
  "recv_chunks bad rcv [] ending s = (s, case ending of None \<Rightarrow> Ret True | Some e \<Rightarrow> Fail e)"
| "recv_chunks bad rcv (r # rs) ending s =
     (case dr_Status r of
        None \<Rightarrow> (s, Panic NilDeref)
      | Some (code, msg) \<Rightarrow>
          if code \<noteq> SUCCESS then (s, bad msg)
          else (case rcv (dr_Chunk r) s of
             (s', Some e) \<Rightarrow> (s', Fail e)
           | (s', None) \<Rightarrow> recv_chunks bad rcv rs ending s'))"

definition download_file ::
  "server \<Rightarrow> gostring \<Rightarrow> go_context \<Rightarrow> gostring \<Rightarrow> (gostring \<Rightarrow> bool go)
   \<Rightarrow> (bytes \<Rightarrow> 's \<Rightarrow> 's \<times> go_error option) \<Rightarrow> 's \<Rightarrow> world \<Rightarrow> world \<times> 's \<times> bool go" where
  "download_file srv client ctx file bad rcv s w =
     (case receive_sum (sv_download srv) (DownloadCall client ctx file) w of
        (w', Fail e) \<Rightarrow> (w', s, Fail e)
      | (w', Panic p) \<Rightarrow> (w', s, Panic p)
      | (w', Ret (records, ending)) \<Rightarrow> (w', recv_chunks bad rcv records ending s))"

section \<open>One file\<close>

text \<open>The name asked for is replaced by the full name it ends, and the search goes on with that.\<close>

definition full_name :: "gostring list \<Rightarrow> gostring \<Rightarrow> gostring" where
  "full_name files fileName =
     fold (\<lambda>file name. if suffix name file then file else name) files fileName"

definition DownloadAlgoResultFile ::
  "'a json_env_scheme \<Rightarrow> server \<Rightarrow> gostring \<Rightarrow> gostring \<Rightarrow> request_config option
   \<Rightarrow> (bytes \<Rightarrow> 's \<Rightarrow> 's \<times> go_error option) \<Rightarrow> 's \<Rightarrow> world \<Rightarrow> (world \<times> 's \<times> unit go) option" where
  "DownloadAlgoResultFile env srv fileName jobId config rcv s w =
     map_option (\<lambda>(w', files).
       case files of
         Fail e \<Rightarrow> (w', s, Fail e)
       | Panic p \<Rightarrow> (w', s, Panic p)
       | Ret fs \<Rightarrow>
           (case client_and_context env srv config w' of
              (w'', Fail e) \<Rightarrow> (w'', s, Fail e)
            | (w'', Panic p) \<Rightarrow> (w'', s, Panic p)
            | (w'', Ret (client, ctx)) \<Rightarrow>
                (let (v, s', r) = download_file srv client ctx (full_name fs fileName)
                       (\<lambda>msg. Fail (Err msg)) rcv s w''
                 in (v, s', go_lift (\<lambda>_. ()) r))))
       (getFilesByJobId env srv jobId config w)"

section \<open>All files\<close>

text \<open>The last element of a path, as \<open>filepath.Base\<close> of the standard library gives it.\<close>

definition path_base :: "gostring \<Rightarrow> gostring" where
  "path_base path =
     (let p = rev (dropWhile (\<lambda>c. c = CHR ''/'') (rev path))
      in if path = [] then ''.''
         else if p = [] then ''/''
         else rev (takeWhile (\<lambda>c. c \<noteq> CHR ''/'') (rev p)))"

fun download_each ::
  "server \<Rightarrow> gostring \<Rightarrow> go_context \<Rightarrow> (bytes \<Rightarrow> gostring \<Rightarrow> 's \<Rightarrow> 's \<times> go_error option)
   \<Rightarrow> gostring list \<Rightarrow> 's \<Rightarrow> world \<Rightarrow> world \<times> 's \<times> unit go" where
  "download_each srv client ctx rcv [] s w = (w, s, Ret ())"
| "download_each srv client ctx rcv (file # files) s w =
     (case download_file srv client ctx file (\<lambda>msg. Ret False)
         (\<lambda>chunk. rcv chunk (path_base file)) s w of
        (w', s', Ret True) \<Rightarrow> download_each srv client ctx rcv files s' w'
      | (w', s', Ret False) \<Rightarrow> (w', s', Ret ())
      | (w', s', Fail e) \<Rightarrow> (w', s', Fail e)
      | (w', s', Panic p) \<Rightarrow> (w', s', Panic p))"

definition DownloadAllAlgoResultFile ::
  "'a json_env_scheme \<Rightarrow> server \<Rightarrow> gostring \<Rightarrow> request_config option
   \<Rightarrow> (bytes \<Rightarrow> gostring \<Rightarrow> 's \<Rightarrow> 's \<times> go_error option) \<Rightarrow> 's \<Rightarrow> world
   \<Rightarrow> (world \<times> 's \<times> unit go) option" where
  "DownloadAllAlgoResultFile env srv jobId config rcv s w =
     (case client_and_context env srv config w of
        (w', Fail e) \<Rightarrow> Some (w', s, Fail e)
      | (w', Panic p) \<Rightarrow> Some (w', s, Panic p)
      | (w', Ret (client, ctx)) \<Rightarrow>
          map_option (\<lambda>(w'', files).
            case files of
              Fail e \<Rightarrow> (w'', s, Fail e)
            | Panic p \<Rightarrow> (w'', s, Panic p)
            | Ret fs \<Rightarrow> download_each srv client ctx rcv fs s w'')
            (getFilesByJobId env srv jobId config w'))"

section \<open>Facts\<close>

lemma nat_str_inj: "nat_str i = nat_str j \<Longrightarrow> i = j"
  by (metis max.cobounded1 max.cobounded2 parse_digits_nat_str prod.inject)

lemma output_key_inj: "inj output_key"
  by (rule injI) (auto simp: output_key_def itoa_def dest: nat_str_inj sym [of "[]"] split: if_splits)

lemma output_key_outside:
  assumes "finite (dom m)"
  shows "\<exists>i. output_key i \<notin> dom m"
proof (rule ccontr)
  assume "\<nexists>i. output_key i \<notin> dom m"
  then have "range output_key \<subseteq> dom m" by auto
  then have "finite (range output_key)" using assms by (rule finite_subset)
  then show False using output_key_inj finite_imageD infinite_UNIV_nat by blast
qed

lemma files_from_run:
  assumes "\<And>j. i \<le> j \<Longrightarrow> j < n \<Longrightarrow> output_key j \<in> dom m" "output_key n \<notin> dom m" "i \<le> n"
  shows "files_from m i files = Some (files @ map (\<lambda>j. the (m (output_key j))) [i..<n])"
  using assms
proof (induction "n - i" arbitrary: i files)
  case 0
  then have "m (output_key i) = None" using le_antisym [of i n] by (auto simp: domIff)
  then show ?case using 0 by (subst files_from.simps) simp
next
  case (Suc d)
  then obtain y where "m (output_key i) = Some y" by (metis domD le_refl zero_less_Suc zero_less_diff)
  moreover have "files_from m (i + 1) (files @ [y])
      = Some ((files @ [y]) @ map (\<lambda>j. the (m (output_key j))) [i + 1..<n])"
    using Suc by (intro Suc.hyps(1)) auto
  ultimately show ?case using Suc.hyps(2) by (subst files_from.simps) (simp add: upt_conv_Cons)
qed

text \<open>
  Property C33. The search for the result files of a job ends on every finite map, and gives the
  values of \<open>output_file\<close>, \<open>output_file1\<close>, \<open>output_file2\<close>, ... in this order up to the first key
  that is missing.
\<close>

theorem result_files:
  assumes "finite (dom m)"
  shows "\<exists>n. files_from m 0 [] = Some (map (\<lambda>i. the (m (output_key i))) [0..<n])
    \<and> (\<forall>i<n. output_key i \<in> dom m) \<and> output_key n \<notin> dom m"
proof -
  define n where "n = (LEAST i. output_key i \<notin> dom m)"
  have n: "output_key n \<notin> dom m"
    using output_key_outside [OF assms] unfolding n_def by (rule LeastI_ex)
  have all: "output_key i \<in> dom m" if "i < n" for i
    using that not_less_Least unfolding n_def by blast
  have "files_from m 0 [] = Some ([] @ map (\<lambda>i. the (m (output_key i))) [0..<n])"
    by (rule files_from_run) (simp_all only: all n not_False_eq_True le0)
  then have "files_from m 0 [] = Some (map (\<lambda>i. the (m (output_key i))) [0..<n])"
    by (simp only: append_Nil)
  with all n show ?thesis by blast
qed

text \<open>A stream of chunks, all of them successful, to a callback that takes them all.\<close>

abbreviation good :: "bytes \<Rightarrow> download_reply" where
  "good chunk \<equiv> \<lparr>dr_Status = Some (SUCCESS, []), dr_Chunk = chunk\<rparr>"

lemma recv_chunks_good:
  "(\<And>c s. rcv c s = (g c s, None)) \<Longrightarrow>
   recv_chunks bad rcv (map good chunks) ending s
     = (fold g chunks s, case ending of None \<Rightarrow> Ret True | Some e \<Rightarrow> Fail e)"
  by (induction chunks arbitrary: s) simp_all

lemma download_each_good:
  assumes "\<And>cs f. f \<in> set files \<Longrightarrow>
      sv_download srv (cs @ [DownloadCall client ctx f]) = Inr (map good (chunks f), None)"
    "\<And>c name s. rcv c name s = (g c name s, None)"
  shows "download_each srv client ctx rcv files s w =
    (w\<lparr>wd_Calls := wd_Calls w @ map (DownloadCall client ctx) files\<rparr>,
     fold (\<lambda>(c, name). g c name)
       (concat (map (\<lambda>f. map (\<lambda>c. (c, path_base f)) (chunks f)) files)) s, Ret ())"
  using assms(1)
proof (induction files arbitrary: s w)
  case (Cons f files)
  have "download_file srv client ctx f (\<lambda>msg. Ret False) (\<lambda>chunk. rcv chunk (path_base f)) s w
      = (w\<lparr>wd_Calls := wd_Calls w @ [DownloadCall client ctx f]\<rparr>,
         fold (\<lambda>c. g c (path_base f)) (chunks f) s, Ret True)"
    using Cons.prems [of f "wd_Calls w"]
      recv_chunks_good [of "\<lambda>chunk. rcv chunk (path_base f)" "\<lambda>c. g c (path_base f)"] assms(2)
    by (simp add: download_file_def receive_sum_def Let_def)
  then show ?case using Cons.IH Cons.prems by (simp add: fold_map comp_def)
qed simp

text \<open>
  Property C34. When the files of a job are known and every stream is of successful chunks, the
  download of all of them asks for each file once, in the order of the job, and gives the callback
  every chunk, in order, with the last element of the path of its file.
\<close>

theorem all_files_delivered:
  assumes "client_and_context env srv config w = (w1, Ret (client, ctx))"
    "getFilesByJobId env srv jobId config w1 = Some (w2, Ret files)"
    "\<And>cs f. f \<in> set files \<Longrightarrow>
      sv_download srv (cs @ [DownloadCall client ctx f]) = Inr (map good (chunks f), None)"
    "\<And>c name s. rcv c name s = (g c name s, None)"
  shows "DownloadAllAlgoResultFile env srv jobId config rcv s w = Some
    (w2\<lparr>wd_Calls := wd_Calls w2 @ map (DownloadCall client ctx) files\<rparr>,
     fold (\<lambda>(c, name). g c name)
       (concat (map (\<lambda>f. map (\<lambda>c. (c, path_base f)) (chunks f)) files)) s, Ret ())"
  using assms(1,2) download_each_good [OF assms(3,4)]
  by (simp add: DownloadAllAlgoResultFile_def)

text \<open>
  When the server refuses a file, the download of one file gives the message as an
  error, and the download of all files stops there and returns no error: the chunks already given
  to the callback pass for the whole result.
\<close>

theorem refused_file_passes:
  assumes "sv_download srv (wd_Calls w @ [DownloadCall client ctx f])
      = Inr (map good chunks @ \<lparr>dr_Status = Some (code, msg), dr_Chunk = c\<rparr> # rest, ending)"
    "code \<noteq> SUCCESS" "\<And>c name s. rcv c name s = (g c name s, None)"
  shows "snd (download_each srv client ctx rcv (f # files) s w)
      = (fold (\<lambda>c. g c (path_base f)) chunks s, Ret ())
    \<and> snd (snd (download_file srv client ctx f (\<lambda>msg. Fail (Err msg))
      (\<lambda>chunk. rcv chunk (path_base f)) s w)) = Fail (Err msg)"
proof -
  have *: "recv_chunks bad (\<lambda>chunk. rcv chunk (path_base f))
      (map good chunks @ \<lparr>dr_Status = Some (code, msg), dr_Chunk = c\<rparr> # rest) ending s
    = (fold (\<lambda>c. g c (path_base f)) chunks s, bad msg)" for bad
    using assms(2,3) by (induction chunks arbitrary: s) simp_all
  show ?thesis using assms(1) by (simp add: download_file_def receive_sum_def Let_def *)
qed

section \<open>A concrete job\<close>

declare files_from.simps [code]

definition job_env :: json_env where
  "job_env = toy_json_env\<lparr>
     js_object := (\<lambda>_. Ret (\<lambda>key.
       if key \<in> {''output_file'', ''output_file1''} then Some (GString key) else None)),
     fm_value := (\<lambda>v. case v of GString name \<Rightarrow> ''/out/'' @ name @ ''.csv'' | _ \<Rightarrow> [])\<rparr>"

definition job_reply :: query_reply where
  "job_reply = \<lparr>qr_Status = None, qr_Alias = [\<lparr>ra_Alias = ''_job'', ra_ResultType = RT_TABLE\<rparr>],
     qr_Paths = None, qr_Nodes = None, qr_Edges = None, qr_Attrs = None,
     qr_Tables = Some [\<lparr>tt_TableName = ''_job'', tt_Headers = [], tt_TableRows = [replicate 10 [123]]\<rparr>],
     qr_Statistics = None, qr_ExplainPlan = None\<rparr>"

definition job_server :: server where
  "job_server = sample_server\<lparr>sv_query := (\<lambda>calls. Inr ([job_reply], None)),
     sv_download := (\<lambda>calls. Inr (map good [[1], [2]], None))\<rparr>"

definition refusing_server :: server where
  "refusing_server = sample_server\<lparr>sv_download := (\<lambda>calls.
     Inr (map good [[1]] @ [\<lparr>dr_Status = Some (SYNTAX_ERROR, ''gone''), dr_Chunk = []\<rparr>], None))\<rparr>"

lemma result_files_witness:
  "\<exists>n. files_from [''output_file'' \<mapsto> ''a.csv''] 0 [] =
    Some (map (\<lambda>i. the ([''output_file'' \<mapsto> ''a.csv''] (output_key i))) [0..<n])"
  using result_files [of "[''output_file'' \<mapsto> ''a.csv'']"] by auto

lemma sample_files:
  "snd (the (getFilesByJobId job_env job_server ''7'' (Some empty_request_config) sample_world))
     = Ret [''/out/output_file.csv'', ''/out/output_file1.csv'']"
  "getFilesByJobId job_env job_server ''7'' (Some empty_request_config) sample_world \<noteq> None"
  by code_simp+

lemma sample_client:
  "\<exists>w' client ctx. client_and_context job_env job_server (Some empty_request_config) sample_world
     = (w', Ret (client, ctx))
   \<and> snd (the (getFilesByJobId job_env job_server ''7'' (Some empty_request_config) w'))
     = Ret [''/out/output_file.csv'', ''/out/output_file1.csv'']
   \<and> getFilesByJobId job_env job_server ''7'' (Some empty_request_config) w' \<noteq> None"
proof -
  let ?c = "client_and_context job_env job_server (Some empty_request_config) sample_world"
  let ?g = "getFilesByJobId job_env job_server ''7'' (Some empty_request_config) (fst ?c)"
  have "is_ret (snd ?c)" by code_simp
  moreover have "snd (the ?g) = Ret [''/out/output_file.csv'', ''/out/output_file1.csv'']" by code_simp
  moreover have "?g \<noteq> None" by code_simp
  ultimately show ?thesis by (metis is_ret_iff prod.collapse)
qed

lemma all_files_delivered_witness:
  "\<exists>w. DownloadAllAlgoResultFile job_env job_server ''7'' (Some empty_request_config)
      (\<lambda>chunk name s. (s @ [(name, chunk)], None)) [] sample_world
    = Some (w, [(''output_file.csv'', [1]), (''output_file.csv'', [2]),
                (''output_file1.csv'', [1]), (''output_file1.csv'', [2])], Ret ())"
proof -
  obtain w1 client ctx where c:
    "client_and_context job_env job_server (Some empty_request_config) sample_world
      = (w1, Ret (client, ctx))"
    "snd (the (getFilesByJobId job_env job_server ''7'' (Some empty_request_config) w1))
      = Ret [''/out/output_file.csv'', ''/out/output_file1.csv'']"
    "getFilesByJobId job_env job_server ''7'' (Some empty_request_config) w1 \<noteq> None"
    using sample_client by blast
  then obtain w2 where f:
    "getFilesByJobId job_env job_server ''7'' (Some empty_request_config) w1
      = Some (w2, Ret [''/out/output_file.csv'', ''/out/output_file1.csv''])"
    by (metis option.collapse prod.collapse)
  have b: "path_base ''/out/output_file.csv'' = ''output_file.csv''"
    "path_base ''/out/output_file1.csv'' = ''output_file1.csv''" by code_simp+
  show ?thesis
    using all_files_delivered [OF c(1) f, of "\<lambda>_. [[1], [2]]"
        "\<lambda>chunk name s. (s @ [(name, chunk)], None)" "\<lambda>chunk name s. s @ [(name, chunk)]" "[]"]
    by (simp add: job_server_def b)
qed

lemma refused_file_passes_witness:
  "snd (download_each refusing_server ''a'' \<lparr>cx_headers = [], cx_timeout = None\<rparr> (\<lambda>chunk name s. (s @ [chunk], None))
      [''f'', ''g''] [] sample_world) = ([[1]], Ret ())"
  using refused_file_passes [of refusing_server sample_world "''a''" "\<lparr>cx_headers = [], cx_timeout = None\<rparr>" "''f''" "[[1]]"
      SYNTAX_ERROR "''gone''" "[]" "[]" None "\<lambda>chunk name s. (s @ [chunk], None)"
      "\<lambda>chunk name s. s @ [chunk]" "[''g'']" "[]"]
  by (simp add: refusing_server_def)

end
