(* ===== verification/Export.thy ===== *)
theory Export
  imports Download Rows
begin

text \<open>
  \<open>sdk/api/export.go\<close>: the tables of an export come in a stream. Every row of a table is converted
  in a goroutine of its own; the loop that starts them reads, after each start, the variable to
  which that goroutine may already have assigned its error. The schedule is an argument, as in
  the conversion of rows for an insertion. The callback of the caller answers from all that it has
  been given so far.
\<close>

section \<open>Converting a table concurrently\<close>

datatype table_pc = Starting | Looking | Gathering | Gathered | Refused go_error | Died panic

datatype 'a parse_pc = Parsing | Keeping "'a option" | Parsed

record 'a table_run =
  tr_Next :: nat
  tr_Main :: table_pc
  tr_ParseErr :: "nat \<Rightarrow> go_error option"
  tr_Pc :: "nat \<Rightarrow> 'a parse_pc"
  tr_Out :: "'a option list"

definition table_start :: "nat \<Rightarrow> 'a table_run" where
  "table_start n = \<lparr>tr_Next = 0, tr_Main = Starting, tr_ParseErr = (\<lambda>_. None),
     tr_Pc = (\<lambda>_. Parsing), tr_Out = replicate n None\<rparr>"

definition parsed :: "'a parse_pc \<Rightarrow> bool" where
  "parsed pc = (case pc of Parsed \<Rightarrow> True | _ \<Rightarrow> False)"

lemma parsed_iff [simp]: "parsed pc \<longleftrightarrow> pc = Parsed"
  by (simp add: parsed_def split: parse_pc.split)

definition table_main :: "nat \<Rightarrow> 'a table_run \<Rightarrow> 'a table_run" where
  "table_main n s =
     (case tr_Main s of
        Starting \<Rightarrow> if n \<le> tr_Next s then s\<lparr>tr_Main := Gathering\<rparr>
                    else s\<lparr>tr_Next := tr_Next s + 1, tr_Main := Looking\<rparr>
      | Looking \<Rightarrow> s\<lparr>tr_Main := (case tr_ParseErr s (tr_Next s - 1) of
                    Some e \<Rightarrow> Refused e | None \<Rightarrow> Starting)\<rparr>
      | Gathering \<Rightarrow> if list_all (\<lambda>i. parsed (tr_Pc s i)) [0..<n] then s\<lparr>tr_Main := Gathered\<rparr> else s
      | _ \<Rightarrow> s)"

definition died :: "table_pc \<Rightarrow> bool" where
  "died m = (case m of Died p \<Rightarrow> True | _ \<Rightarrow> False)"

definition table_row :: "(nat \<Rightarrow> 'a go) \<Rightarrow> nat \<Rightarrow> 'a table_run \<Rightarrow> 'a table_run" where
  "table_row conv i s =
     (if tr_Next s \<le> i \<or> died (tr_Main s) then s
      else case tr_Pc s i of
        Parsing \<Rightarrow>
          (case conv i of
             Ret x \<Rightarrow> s\<lparr>tr_Pc := (tr_Pc s)(i := Keeping (Some x))\<rparr>
           | Fail e \<Rightarrow> s\<lparr>tr_ParseErr := (tr_ParseErr s)(i \<mapsto> e), tr_Pc := (tr_Pc s)(i := Keeping None)\<rparr>
           | Panic p \<Rightarrow> s\<lparr>tr_Main := Died p\<rparr>)
      | Keeping x \<Rightarrow> s\<lparr>tr_Out := (tr_Out s)[i := x], tr_Pc := (tr_Pc s)(i := Parsed)\<rparr>
      | Parsed \<Rightarrow> s)"

definition table_exec :: "nat \<Rightarrow> (nat \<Rightarrow> 'a go) \<Rightarrow> row_actor \<Rightarrow> 'a table_run \<Rightarrow> 'a table_run" where
  "table_exec n conv a s = (case a of Main \<Rightarrow> table_main n s | Row i \<Rightarrow> table_row conv i s)"

text \<open>A schedule is followed first; then the loop, the goroutines and the wait run to their end.\<close>

definition table_schedule :: "nat \<Rightarrow> row_actor list \<Rightarrow> row_actor list" where
  "table_schedule n schedule = schedule @ replicate (2 * n + 2) Main
     @ concat (map (\<lambda>i. [Row i, Row i]) [0..<n]) @ [Main]"

definition table_end :: "nat \<Rightarrow> (nat \<Rightarrow> 'a go) \<Rightarrow> row_actor list \<Rightarrow> 'a table_run" where
  "table_end n conv as = fold (table_exec n conv) as (table_start n)"

text \<open>The last branch is never reached: \<open>table_ends\<close>.\<close>

definition export_table :: "('r \<Rightarrow> 'a go) \<Rightarrow> 'r list \<Rightarrow> row_actor list \<Rightarrow> 'a option list go" where
  "export_table conv rows schedule =
     (let n = length rows; s = table_end n (\<lambda>i. conv (rows ! i)) (table_schedule n schedule)
      in case tr_Main s of
           Gathered \<Rightarrow> Ret (tr_Out s)
         | Refused e \<Rightarrow> Fail e
         | Died p \<Rightarrow> Panic p
         | _ \<Rightarrow> Panic (PanicCall ''unfinished''))"

section \<open>The stream of tables\<close>

datatype export_call = GotNodes "node option list" | GotEdges "edge option list"

type_synonym export_callback = "export_call list \<Rightarrow> go_error option"

text \<open>A node takes the schema the request names, an edge the schema of its row, which may be nil.\<close>

definition export_node ::
  "'a env_scheme \<Rightarrow> entity_table \<Rightarrow> gostring \<Rightarrow> entity_row \<Rightarrow> node go" where
  "export_node env t schemaName row =
     go_bind (deref (NewSchemaMapFromProtoSchema (et_Schemas t) DBNODE schemaName))
       (\<lambda>sch. NewNodeFromNodeRow env sch row)"

definition export_edge :: "'a env_scheme \<Rightarrow> entity_table \<Rightarrow> entity_row \<Rightarrow> edge go" where
  "export_edge env t row = row_to_edge env (NewSchemaMapFromProtoSchema (et_Schemas t) DBEDGE) row"

text \<open>What the callback has been given, and the error variable of the loop.\<close>

definition export_part ::
  "('t \<Rightarrow> export_call go) \<Rightarrow> export_callback \<Rightarrow> 't option \<Rightarrow> export_call list \<times> go_error option
   \<Rightarrow> export_call list \<times> go_error option go" where
  "export_part convert cb t acc =
     (case t of
        None \<Rightarrow> (fst acc, Ret (snd acc))
      | Some t \<Rightarrow> (case convert t of
            Ret c \<Rightarrow> (fst acc @ [c], Ret (cb (fst acc @ [c])))
          | Fail e \<Rightarrow> (fst acc, Fail e)
          | Panic p \<Rightarrow> (fst acc, Panic p)))"

definition export_nodes ::
  "'a env_scheme \<Rightarrow> gostring \<Rightarrow> row_actor list \<Rightarrow> entity_table \<Rightarrow> export_call go" where
  "export_nodes env schemaName schedule t =
     go_lift GotNodes (export_table (export_node env t schemaName) (et_EntityRows t) schedule)"

definition export_edges :: "'a env_scheme \<Rightarrow> row_actor list \<Rightarrow> entity_table \<Rightarrow> export_call go" where
  "export_edges env schedule t =
     go_lift GotEdges (export_table (export_edge env t) (et_EntityRows t) schedule)"

text \<open>
  One reply: the error of the callback for the nodes is overwritten when there are edges. The
  schedules of the two tables of reply number \<open>k\<close> are \<open>schedules k\<close>.
\<close>

fun export_loop ::
  "'a env_scheme \<Rightarrow> gostring \<Rightarrow> (nat \<Rightarrow> row_actor list \<times> row_actor list) \<Rightarrow> export_callback
   \<Rightarrow> export_reply list \<Rightarrow> go_error option \<Rightarrow> nat \<Rightarrow> export_call list \<Rightarrow> export_call list \<times> unit go" where
  "export_loop env schemaName schedules cb [] ending k given =
     (given, case ending of None \<Rightarrow> Ret () | Some e \<Rightarrow> Fail e)"
| "export_loop env schemaName schedules cb (reply # replies) ending k given =
     (case export_part (export_nodes env schemaName (fst (schedules k))) cb (xr_NodeTable reply) (given, None) of
        (g, Panic p) \<Rightarrow> (g, Panic p)
      | (g, Fail e) \<Rightarrow> (g, Fail e)
      | (g, Ret err) \<Rightarrow>
          (case export_part (export_edges env (snd (schedules k))) cb (xr_EdgeTable reply) (g, err) of
             (g', Panic p) \<Rightarrow> (g', Panic p)
           | (g', Fail e) \<Rightarrow> (g', Fail e)
           | (g', Ret (Some e)) \<Rightarrow> (g', Fail e)
           | (g', Ret None) \<Rightarrow> export_loop env schemaName schedules cb replies ending (k + 1) g'))"

definition Export ::
  "'a env_scheme \<Rightarrow> server \<Rightarrow> (nat \<Rightarrow> row_actor list \<times> row_actor list) \<Rightarrow> export_request
   \<Rightarrow> request_config option \<Rightarrow> export_callback \<Rightarrow> world \<Rightarrow> world \<times> export_call list \<times> unit go" where
  "Export env srv schedules exportRequest config cb w =
     (case act_bind (client_and_context env srv config) (\<lambda>(client, ctx).
             receive_sum (sv_export srv) (ControlCall client ctx
               (ExportRequest exportRequest (uc_MaxRecvSize (cp_Config (wd_Pool w)))))) w of
        (w', Fail e) \<Rightarrow> (w', [], Fail e)
      | (w', Panic p) \<Rightarrow> (w', [], Panic p)
      | (w', Ret (records, ending)) \<Rightarrow>
          (w', export_loop env (xq_Schema exportRequest) schedules cb records ending 0 []))"

section \<open>The conversion of a table ends\<close>

definition table_over :: "table_pc \<Rightarrow> bool" where
  "table_over m = (case m of Gathered \<Rightarrow> True | Refused e \<Rightarrow> True | Died p \<Rightarrow> True | _ \<Rightarrow> False)"

definition kept :: "'a go \<Rightarrow> 'a option \<Rightarrow> bool" where
  "kept r x = (case r of Ret y \<Rightarrow> x = Some y | Fail e \<Rightarrow> x = None | Panic p \<Rightarrow> False)"

text \<open>
  What holds whatever the schedule: an error or a panic is that of a row, a stored row is what its
  own conversion gave, and nothing is handed over before every row is stored.
\<close>

definition table_inv :: "nat \<Rightarrow> (nat \<Rightarrow> 'a go) \<Rightarrow> 'a table_run \<Rightarrow> bool" where
  "table_inv n conv s \<longleftrightarrow>
     tr_Next s \<le> n \<and> length (tr_Out s) = n \<and>
     (\<forall>i e. tr_ParseErr s i = Some e \<longrightarrow> i < n \<and> conv i = Fail e) \<and>
     (\<forall>i x. tr_Pc s i = Keeping x \<longrightarrow> kept (conv i) x) \<and>
     (\<forall>i < n. tr_Pc s i = Parsed \<longrightarrow> kept (conv i) (tr_Out s ! i)) \<and>
     (case tr_Main s of
        Gathering \<Rightarrow> tr_Next s = n
      | Gathered \<Rightarrow> \<forall>i < n. tr_Pc s i = Parsed
      | Refused e \<Rightarrow> \<exists>i < n. conv i = Fail e
      | Died p \<Rightarrow> \<exists>i < n. conv i = Panic p
      | _ \<Rightarrow> True)"

lemma table_inv_start: "table_inv n conv (table_start n)"
  by (simp add: table_inv_def table_start_def)

lemma table_inv_main: "table_inv n conv s \<Longrightarrow> table_inv n conv (table_main n s)"
  by (cases "tr_Main s")
    (auto simp: table_inv_def table_main_def list_all_iff split: option.split)

lemma table_inv_row:
  assumes "table_inv n conv s"
  shows "table_inv n conv (table_row conv i s)"
proof (cases "tr_Next s \<le> i \<or> died (tr_Main s)")
  case True
  then show ?thesis using assms by (simp add: table_row_def)
next
  case False
  then have i: "i < n" using assms by (auto simp: table_inv_def)
  note e = table_row_def [of conv i s, unfolded if_not_P [OF False]]
  show ?thesis
  proof (cases "tr_Pc s i")
    case Parsing
    then show ?thesis using assms i unfolding e
      by (cases "conv i"; cases "tr_Main s") (auto simp: table_inv_def kept_def)
  next
    case (Keeping x)
    then show ?thesis using assms i unfolding e
      by (cases "tr_Main s") (auto simp: table_inv_def nth_list_update)
  next
    case Parsed
    then show ?thesis using assms unfolding e by simp
  qed
qed

lemma table_inv_exec: "table_inv n conv s \<Longrightarrow> table_inv n conv (table_exec n conv a s)"
  by (cases a) (simp_all add: table_exec_def table_inv_main table_inv_row)

lemma fold_invariant:
  "I s \<Longrightarrow> (\<And>a s. I s \<Longrightarrow> I (f a s)) \<Longrightarrow> I (fold f as s)"
  by (induction as arbitrary: s) auto

text \<open>The loop reaches its wait, the goroutines their end, and the wait is over.\<close>

definition table_rank :: "nat \<Rightarrow> 'a table_run \<Rightarrow> nat" where
  "table_rank n s =
     (case tr_Main s of
        Starting \<Rightarrow> 2 * (n - tr_Next s) + 1
      | Looking \<Rightarrow> 2 * (n - tr_Next s) + 2
      | _ \<Rightarrow> 0)"

lemma table_rank_steps:
  "table_rank n (fold (table_exec n conv) (replicate k Main) s) \<le> table_rank n s - k"
proof (induction k arbitrary: s)
  case 0
  then show ?case by simp
next
  case (Suc k)
  have "table_rank n (table_main n s) \<le> table_rank n s - 1"
    by (auto simp: table_rank_def table_main_def split: table_pc.splits option.splits)
  then show ?case using Suc [of "table_main n s"] by (simp add: table_exec_def)
qed

lemma table_over_exec: "table_over (tr_Main s) \<Longrightarrow> table_over (tr_Main (table_exec n conv a s))"
  by (cases a; cases "tr_Main s")
    (auto simp: table_over_def table_exec_def table_main_def table_row_def split: parse_pc.split go.split)

lemma table_row_main:
  "tr_Main (table_row conv i s) = tr_Main s \<or> died (tr_Main (table_row conv i s))"
  by (cases "tr_Pc s i"; cases "conv i") (simp_all add: table_row_def died_def)

lemma table_row_next [simp]: "tr_Next (table_row conv i s) = tr_Next s"
  by (cases "tr_Pc s i"; cases "conv i") (simp_all add: table_row_def)

lemma table_row_parsed [simp]: "tr_Pc s j = Parsed \<Longrightarrow> tr_Pc (table_row conv i s) j = Parsed"
  by (cases "tr_Pc s i"; cases "conv i") (auto simp: table_row_def)

lemma table_row_twice:
  assumes "i < tr_Next s" "\<not> died (tr_Main (table_row conv i (table_row conv i s)))"
  shows "tr_Pc (table_row conv i (table_row conv i s)) i = Parsed"
proof -
  have s: "\<not> died (tr_Main s)" using assms(2) by (auto simp: table_row_def [of conv i])
  show ?thesis
  proof (cases "tr_Pc s i")
    case Parsing
    then show ?thesis using assms s by (cases "conv i") (simp_all add: table_row_def died_def)
  qed (use assms s in \<open>simp_all add: table_row_def\<close>)
qed

lemma table_rows_phase:
  fixes conv :: "nat \<Rightarrow> 'a go"
  assumes "tr_Main s = Gathering" "tr_Next s = n" "m \<le> n"
  defines "t \<equiv> fold (table_exec n conv) (concat (map (\<lambda>i. [Row i, Row i]) [0..<m])) s"
  shows "died (tr_Main t) \<or>
    tr_Main t = Gathering \<and> tr_Next t = n \<and> (\<forall>i < m. tr_Pc t i = Parsed)"
  using assms(3) unfolding t_def
proof (induction m)
  case 0
  then show ?case using assms(1,2) by simp
next
  case (Suc m)
  let ?t = "fold (table_exec n conv) (concat (map (\<lambda>i. [Row i, Row i]) [0..<m])) s"
  let ?u = "table_row conv m (table_row conv m ?t)"
  have e: "fold (table_exec n conv) (concat (map (\<lambda>i. [Row i, Row i]) [0..<Suc m])) s = ?u"
    by (simp add: table_exec_def)
  show ?case unfolding e
  proof (cases "died (tr_Main ?u)")
    case False
    then have "\<not> died (tr_Main (table_row conv m ?t))"
      by (auto simp: table_row_def [of conv m "table_row conv m ?t"])
    with False have w: "tr_Main ?u = tr_Main ?t"
      using table_row_main [of conv m "table_row conv m ?t"] table_row_main [of conv m ?t] by simp
    with False Suc have t: "tr_Main ?u = Gathering" "tr_Next ?t = n" "\<forall>i < m. tr_Pc ?t i = Parsed"
      by simp_all
    then have "tr_Pc ?u m = Parsed" using False table_row_twice [of m ?t conv] Suc.prems by simp
    then have "\<forall>i < Suc m. tr_Pc ?u i = Parsed" using t(3) by (simp add: less_Suc_eq)
    then show "died (tr_Main ?u) \<or>
      tr_Main ?u = Gathering \<and> tr_Next ?u = n \<and> (\<forall>i < Suc m. tr_Pc ?u i = Parsed)"
      using t(1,2) by simp
  qed simp
qed

lemma table_ends:
  fixes schedule :: "row_actor list" and conv :: "nat \<Rightarrow> 'a go" and n :: nat
  defines "s \<equiv> table_end n conv (table_schedule n schedule)"
  shows "table_inv n conv s" "table_over (tr_Main s)"
proof -
  let ?s1 = "fold (table_exec n conv) schedule (table_start n)"
  let ?s2 = "fold (table_exec n conv) (replicate (2 * n + 2) Main) ?s1"
  let ?rows = "concat (map (\<lambda>i. [Row i, Row i]) [0..<n])"
  have e: "s = fold (table_exec n conv) (?rows @ [Main]) ?s2"
    by (simp add: s_def table_end_def table_schedule_def)
  have inv: "table_inv n conv (fold (table_exec n conv) as (table_start n))" for as
    by (rule fold_invariant [of "table_inv n conv"], rule table_inv_start, rule table_inv_exec)
  show "table_inv n conv s" unfolding s_def table_end_def by (rule inv)
  have inv2: "table_inv n conv ?s2"
    using inv [of "schedule @ replicate (2 * n + 2) Main"] by simp
  have "table_rank n ?s1 \<le> 2 * n + 2" by (auto simp: table_rank_def split: table_pc.split)
  then have "table_rank n ?s2 = 0"
    using table_rank_steps [of n conv "2 * n + 2" ?s1] by linarith
  then consider "table_over (tr_Main ?s2)" | "tr_Main ?s2 = Gathering" "tr_Next ?s2 = n"
    using inv2 by (cases "tr_Main ?s2") (auto simp: table_rank_def table_over_def table_inv_def)
  then show "table_over (tr_Main s)"
  proof cases
    case 1
    then show ?thesis unfolding e
      by (rule fold_invariant [of "\<lambda>s. table_over (tr_Main s)"]) (rule table_over_exec)
  next
    case 2
    from table_rows_phase [OF this order_refl, of conv] have "table_over (tr_Main
        (table_main n (fold (table_exec n conv) ?rows ?s2)))"
      by (elim disjE; cases "tr_Main (fold (table_exec n conv) ?rows ?s2)")
        (simp_all add: table_main_def table_over_def died_def list_all_iff)
    then show ?thesis unfolding e by (simp only: fold_append fold.simps comp_apply id_apply table_exec_def row_actor.case)
  qed
qed

lemma export_table_sound:
  "case export_table conv rows schedule of
     Ret out \<Rightarrow> length out = length rows \<and> (\<forall>i < length rows. kept (conv (rows ! i)) (out ! i))
   | Fail e \<Rightarrow> \<exists>r \<in> set rows. conv r = Fail e
   | Panic p \<Rightarrow> \<exists>r \<in> set rows. conv r = Panic p"
  using table_ends [of "length rows" "\<lambda>i. conv (rows ! i)" schedule]
  by (cases "tr_Main (table_end (length rows) (\<lambda>i. conv (rows ! i)) (table_schedule (length rows) schedule))")
    (auto simp: export_table_def Let_def table_inv_def table_over_def)

section \<open>What the callback is given\<close>

definition as_kept :: "'a go \<Rightarrow> 'a option" where
  "as_kept r = (case r of Ret x \<Rightarrow> Some x | _ \<Rightarrow> None)"

lemma kept_as_kept: "kept r x \<Longrightarrow> x = as_kept r"
  by (cases r) (auto simp: kept_def as_kept_def)

lemma export_table_Ret:
  assumes "export_table conv rows schedule = Ret out"
  shows "out = map (as_kept \<circ> conv) rows" "\<forall>r \<in> set rows. \<exists>x. kept (conv r) x"
  using export_table_sound [of rows conv schedule] assms
  by (auto simp: kept_as_kept in_set_conv_nth intro!: nth_equalityI) blast

definition deliveries :: "'a env_scheme \<Rightarrow> gostring \<Rightarrow> export_reply \<Rightarrow> export_call list" where
  "deliveries env schemaName reply =
     (case xr_NodeTable reply of None \<Rightarrow> []
      | Some t \<Rightarrow> [GotNodes (map (as_kept \<circ> export_node env t schemaName) (et_EntityRows t))]) @
     (case xr_EdgeTable reply of None \<Rightarrow> []
      | Some t \<Rightarrow> [GotEdges (map (as_kept \<circ> export_edge env t) (et_EntityRows t))])"

lemma export_part_Ret:
  assumes "export_part convert cb t acc = (g, Ret err)"
  shows "case t of None \<Rightarrow> g = fst acc \<and> err = snd acc
    | Some t \<Rightarrow> \<exists>c. convert t = Ret c \<and> g = fst acc @ [c] \<and> err = cb g"
  using assms by (auto simp: export_part_def split: option.splits go.splits)

lemma export_nodes_Ret:
  "export_nodes env schemaName schedule t = Ret c \<Longrightarrow>
     c = GotNodes (map (as_kept \<circ> export_node env t schemaName) (et_EntityRows t))"
  by (auto simp: export_nodes_def go_simps dest: export_table_Ret(1))

lemma export_edges_Ret:
  "export_edges env schedule t = Ret c \<Longrightarrow>
     c = GotEdges (map (as_kept \<circ> export_edge env t) (et_EntityRows t))"
  by (auto simp: export_edges_def go_simps dest: export_table_Ret(1))

lemma export_loop_Ret:
  assumes "export_loop env schemaName schedules cb replies ending k given = (g, Ret ())"
  shows "ending = None \<and> g = given @ concat (map (deliveries env schemaName) replies)"
  using assms
proof (induction replies arbitrary: k given)
  case Nil
  then show ?case by (auto split: option.splits)
next
  case (Cons reply replies)
  from Cons.prems obtain h err h' where
    n: "export_part (export_nodes env schemaName (fst (schedules k))) cb (xr_NodeTable reply) (given, None)
      = (h, Ret err)" and
    e: "export_part (export_edges env (snd (schedules k))) cb (xr_EdgeTable reply) (h, err)
      = (h', Ret None)" and
    l: "export_loop env schemaName schedules cb replies ending (k + 1) h' = (g, Ret ())"
    by (auto split: prod.splits go.splits option.splits)
  have "h' = given @ deliveries env schemaName reply"
    using export_part_Ret [OF n] export_part_Ret [OF e]
    by (auto simp: deliveries_def dest!: export_nodes_Ret export_edges_Ret split: option.splits)
  with Cons.IH [OF l] show ?case by simp
qed

lemma exported_deliveries:
  assumes "Export env srv schedules request config cb w = (w', given, Ret ())"
    "sv_export srv (wd_Calls w') = Inr (records, ending)"
  shows "ending = None \<and> given = concat (map (deliveries env (xq_Schema request)) records)"
proof -
  let ?call = "act_bind (client_and_context env srv config) (\<lambda>(client, ctx).
    receive_sum (sv_export srv) (ControlCall client ctx
      (ExportRequest request (uc_MaxRecvSize (cp_Config (wd_Pool w)))))) w"
  from assms(1) obtain rs en where c: "?call = (w', Ret (rs, en))"
    and l: "export_loop env (xq_Schema request) schedules cb rs en 0 [] = (given, Ret ())"
    by (auto simp: Export_def split: prod.splits go.splits)
  from c assms(2) have "rs = records" "en = ending"
    by (auto simp: act_iffs)
  with export_loop_Ret [OF l] show ?thesis by simp
qed

text \<open>
  Property C14. An export that returns has read the stream to its end and given the callback every
  table of every reply, the nodes of a reply before its edges, each row at its own place whatever
  the schedule of the goroutines; a row that did not convert is nil there.
\<close>

theorem export_delivers_in_order:
  assumes "Export env srv schedules request config cb w = (w', given, Ret ())"
    "sv_export srv (wd_Calls w') = Inr (records, ending)"
  shows "ending = None \<and> given = concat (map (deliveries env (xq_Schema request)) records)"
  by (rule exported_deliveries [OF assms])

section \<open>The schedule\<close>

text \<open>Where every row converts the schedule does not matter.\<close>

lemma export_table_converts:
  assumes "\<forall>r \<in> set rows. \<exists>x. conv r = Ret x"
  shows "export_table conv rows schedule = Ret (map (as_kept \<circ> conv) rows)"
proof (cases "export_table conv rows schedule")
  case (Ret out)
  then show ?thesis using export_table_Ret(1) by simp
qed (use export_table_sound [of rows conv schedule] assms in fastforce)+

definition rows_convert :: "'a env_scheme \<Rightarrow> gostring \<Rightarrow> export_reply \<Rightarrow> bool" where
  "rows_convert env schemaName reply \<longleftrightarrow>
     (case xr_NodeTable reply of None \<Rightarrow> True
      | Some t \<Rightarrow> list_all (\<lambda>r. is_ret (export_node env t schemaName r)) (et_EntityRows t)) \<and>
     (case xr_EdgeTable reply of None \<Rightarrow> True
      | Some t \<Rightarrow> list_all (\<lambda>r. is_ret (export_edge env t r)) (et_EntityRows t))"

lemma export_part_cong:
  "(\<And>x. t = Some x \<Longrightarrow> f x = g x) \<Longrightarrow> export_part f cb t acc = export_part g cb t acc"
  by (cases t) (simp_all add: export_part_def)

lemma export_loop_schedule:
  assumes "\<forall>reply \<in> set replies. rows_convert env schemaName reply"
  shows "export_loop env schemaName schedules cb replies ending k given
    = export_loop env schemaName schedules' cb replies ending k given"
  using assms
proof (induction replies arbitrary: k given)
  case (Cons reply replies)
  have n: "export_part (export_nodes env schemaName (fst (schedules k))) cb (xr_NodeTable reply) acc
    = export_part (export_nodes env schemaName (fst (schedules' k))) cb (xr_NodeTable reply) acc" for acc
    using Cons.prems by (intro export_part_cong)
      (simp add: export_nodes_def rows_convert_def list_all_iff is_ret_iff export_table_converts)
  have e: "export_part (export_edges env (snd (schedules k))) cb (xr_EdgeTable reply) acc
    = export_part (export_edges env (snd (schedules' k))) cb (xr_EdgeTable reply) acc" for acc
    using Cons.prems by (intro export_part_cong)
      (simp add: export_edges_def rows_convert_def list_all_iff is_ret_iff export_table_converts)
  have "\<forall>reply \<in> set replies. rows_convert env schemaName reply" using Cons.prems by simp
  note IH = Cons.IH [OF this]
  show ?case unfolding export_loop.simps n e IH ..
qed simp

text \<open>
  Property C21. The goroutines of an export do not race on what the caller sees as long as every row
  converts: under any two schedules the export makes the same calls, gives the callback the same
  tables and returns the same.
\<close>

theorem export_schedule_irrelevant:
  assumes "\<And>calls records ending. sv_export srv calls = Inr (records, ending) \<Longrightarrow>
    list_all (rows_convert env (xq_Schema request)) records"
  shows "Export env srv schedules request config cb w = Export env srv schedules' request config cb w"
proof -
  let ?call = "act_bind (client_and_context env srv config) (\<lambda>(client, ctx).
    receive_sum (sv_export srv) (ControlCall client ctx
      (ExportRequest request (uc_MaxRecvSize (cp_Config (wd_Pool w)))))) w"
  have "export_loop env (xq_Schema request) schedules cb rs en 0 []
      = export_loop env (xq_Schema request) schedules' cb rs en 0 []"
    if "?call = (v, Ret (rs, en))" for v rs en
  proof (rule export_loop_schedule)
    from that obtain calls where "sv_export srv calls = Inr (rs, en)"
      by (auto simp: act_iffs)
    from assms [OF this] show "\<forall>reply \<in> set rs. rows_convert env (xq_Schema request) reply"
      by (simp add: list_all_iff)
  qed
  then show ?thesis by (auto simp: Export_def split: prod.splits go.splits)
qed

text \<open>
  When the loop is faster than the goroutines every error is lost: the table is given to the
  callback with nil rows.
\<close>

definition calm :: "table_pc \<Rightarrow> bool" where
  "calm m = (case m of Gathering \<Rightarrow> True | Gathered \<Rightarrow> True | Died p \<Rightarrow> True | _ \<Rightarrow> False)"

lemma calm_exec: "calm (tr_Main s) \<Longrightarrow> calm (tr_Main (table_exec n conv a s))"
  by (cases a; cases "tr_Main s")
    (auto simp: calm_def table_exec_def table_main_def table_row_def split: parse_pc.split go.split)

lemma main_alone:
  fixes conv :: "nat \<Rightarrow> 'a go" and n k :: nat
  assumes "tr_ParseErr s = (\<lambda>_. None)" "\<forall>e. tr_Main s \<noteq> Refused e"
  defines "t \<equiv> fold (table_exec n conv) (replicate k Main) s"
  shows "tr_ParseErr t = (\<lambda>_. None) \<and> (\<forall>e. tr_Main t \<noteq> Refused e)"
  using assms(1,2) unfolding t_def
proof (induction k arbitrary: s)
  case (Suc k)
  have "tr_ParseErr (table_main n s) = (\<lambda>_. None)" "\<forall>e. tr_Main (table_main n s) \<noteq> Refused e"
    using Suc.prems by (auto simp: table_main_def split: table_pc.splits)
  from Suc.IH [OF this] show ?case by (simp add: table_exec_def)
qed simp

lemma export_table_loses_errors:
  assumes "\<forall>r \<in> set rows. \<exists>x. kept (conv r) x"
  shows "export_table conv rows [] = Ret (map (as_kept \<circ> conv) rows)"
proof -
  let ?n = "length rows" and ?f = "\<lambda>i. conv (rows ! i)"
  let ?s = "fold (table_exec ?n ?f) (replicate (2 * ?n + 2) Main) (table_start ?n)"
  let ?t = "table_end ?n ?f (table_schedule ?n [])"
  have "table_rank ?n ?s = 0"
    using table_rank_steps [of ?n ?f "2 * ?n + 2" "table_start ?n"]
    by (simp add: table_rank_def table_start_def)
  moreover have "\<forall>e. tr_Main ?s \<noteq> Refused e"
    using main_alone [of "table_start ?n" ?n ?f "2 * ?n + 2"] by (simp add: table_start_def)
  ultimately have "calm (tr_Main ?s)"
    by (auto simp: table_rank_def calm_def split: table_pc.splits)
  then have "calm (tr_Main (fold (table_exec ?n ?f) (concat (map (\<lambda>i. [Row i, Row i]) [0..<?n]) @ [Main]) ?s))"
    by (rule fold_invariant [of "\<lambda>s. calm (tr_Main s)"]) (rule calm_exec)
  then have "calm (tr_Main ?t)" by (simp add: table_end_def table_schedule_def)
  then have "export_table conv rows [] \<noteq> Fail e" for e
    by (auto simp: export_table_def Let_def calm_def split: table_pc.splits)
  moreover have "export_table conv rows [] \<noteq> Panic p" for p
    using export_table_sound [of rows conv "[]"] assms by (fastforce simp: kept_def)
  ultimately show ?thesis
    by (cases "export_table conv rows []") (auto dest: export_table_Ret(1))
qed

definition sample_tables :: export_reply where
  "sample_tables = \<lparr>xr_NodeTable = Some sample_entities, xr_EdgeTable = Some sample_entities\<rparr>"

definition sample_export :: server where
  "sample_export = sample_server\<lparr>sv_export := (\<lambda>calls. Inr ([sample_tables], None))\<rparr>"

definition sample_request :: export_request where
  "sample_request = \<lparr>xq_DbType = DBNODE, xq_Limit = 10, xq_SelectProperties = [],
     xq_Schema = ''person'', xq_Graph = ''g''\<rparr>"

lemma sample_tables_convert: "rows_convert toy_env ''person'' sample_tables" by code_simp

lemma export_delivers_in_order_witness:
  "fst (snd (Export toy_env sample_export (\<lambda>_. ([Main, Row 0], [])) sample_request
      (Some empty_request_config) (\<lambda>_. None) sample_world))
    = [GotNodes (map (as_kept \<circ> export_node toy_env sample_entities ''person'')
         [sample_row False ''a'' 30, sample_row True ''b'' 31, sample_row False ''c'' 32]),
       GotEdges (map (as_kept \<circ> export_edge toy_env sample_entities)
         [sample_row False ''a'' 30, sample_row True ''b'' 31, sample_row False ''c'' 32])]"
proof -
  let ?r = "Export toy_env sample_export (\<lambda>_. ([Main, Row 0], [])) sample_request
      (Some empty_request_config) (\<lambda>_. None) sample_world"
  have "is_ret (snd (snd ?r))" by code_simp
  then have r: "?r = (fst ?r, fst (snd ?r), Ret ())" by (simp add: is_ret_iff prod_eq_iff)
  show ?thesis
    using export_delivers_in_order [OF r, of "[sample_tables]" None]
    by (simp add: sample_export_def deliveries_def sample_tables_def sample_request_def
        sample_entities_def)
qed

lemma export_schedule_irrelevant_witness:
  "Export toy_env sample_export (\<lambda>_. ([Main, Row 0, Main], [Row 2])) sample_request
      (Some empty_request_config) (\<lambda>_. None) sample_world
    = Export toy_env sample_export (\<lambda>_. ([], [])) sample_request
      (Some empty_request_config) (\<lambda>_. None) sample_world"
  by (rule export_schedule_irrelevant)
    (auto simp: sample_export_def sample_request_def sample_tables_convert)

section \<open>From an insertion to an export\<close>

text \<open>A node read back: its id, its schema, and every value as the codec of values reads it.\<close>

definition same_node :: "schema \<Rightarrow> node \<Rightarrow> node \<Rightarrow> bool" where
  "same_node sch n n' \<longleftrightarrow> nd_ID n' = nd_ID n \<and> nd_UUID n' = nd_UUID n \<and> nd_Schema n' = sc_Name sch \<and>
     (\<forall>p \<in> set (data_properties (sc_Properties sch)). \<forall>v x. nd_Values n = Some v \<longrightarrow> v (prop_name p) = Some x \<longrightarrow>
        (\<exists>y. Node_Get n' (prop_name p) = Ret y \<and> same_value x (prop_type p) y))"

lemma exported_row:
  assumes "nd_Values n = Some v" "distinct (map prop_name (data_properties (sc_Properties sch)))"
    "well_typed (data_properties (sc_Properties sch)) v"
    "doConvertSdkNodeRowToUltipaNodeRow env sch (Some n) i config = Ret r"
    "et_Schemas t = [insert_schema sch]"
  shows "\<exists>n'. export_node env t (sc_Name sch) r = Ret n' \<and> same_node sch n n'"
proof -
  let ?s = "ConvertProtoSchemaToSdkSchema (insert_schema sch) DBNODE"
  have s: "sc_Properties ?s = map property_of_proto (map proto_of_property (data_properties (sc_Properties sch)))"
    "sc_Name ?s = sc_Name sch"
    by (simp_all add: ConvertProtoSchemaToSdkSchema_def insert_schema_eq NewSchema_def)
  from converted_node_row [OF assms(1-3), of env i config] assms(4) s(1) obtain vals where
    r: "er_Id r = nd_ID n" "er_Uuid r = nd_UUID n" and
    d: "set_row_values env (Some ?s) 0 (er_Values r) NewValues = Ret vals" and
    v: "\<forall>p \<in> set (data_properties (sc_Properties sch)). \<forall>x. v (prop_name p) = Some x \<longrightarrow>
       same_value x (prop_type p) (Values_Get vals (prop_name p))"
    by auto
  have "NewSchemaMapFromProtoSchema (et_Schemas t) DBNODE (sc_Name sch) = Some ?s"
    by (simp add: NewSchemaMapFromProtoSchema_def assms(5) insert_schema_eq)
  then have "export_node env t (sc_Name sch) r
      = Ret \<lparr>nd_ID = nd_ID n, nd_UUID = nd_UUID n, nd_Schema = sc_Name sch, nd_Values = Some vals\<rparr>"
    using d r s(2) by (simp add: export_node_def deref_def NewNodeFromNodeRow_def)
  then show ?thesis using v assms(1) by (simp add: same_node_def Node_Get_def)
qed

text \<open>
  An edge read back: its end points and its own identifier, the schema, and every value. Its schema is
  looked up under the name in its row.
\<close>

definition same_edge :: "schema \<Rightarrow> edge \<Rightarrow> edge \<Rightarrow> bool" where
  "same_edge sch e e' \<longleftrightarrow> ed_UUID e' = ed_UUID e \<and> ed_From e' = ed_From e \<and> ed_To e' = ed_To e \<and>
     ed_FromUUID e' = ed_FromUUID e \<and> ed_ToUUID e' = ed_ToUUID e \<and> ed_Schema e' = sc_Name sch \<and>
     (\<forall>p \<in> set (data_properties (sc_Properties sch)). \<forall>v x. ed_Values e = Some v \<longrightarrow> v (prop_name p) = Some x \<longrightarrow>
        (\<exists>y. Edge_Get e' (prop_name p) = Ret y \<and> same_value x (prop_type p) y))"

lemma exported_edge_row:
  assumes "ed_Values e = Some v" "distinct (map prop_name (data_properties (sc_Properties sch)))"
    "well_typed (data_properties (sc_Properties sch)) v"
    "doConvertSdkEdgeRowToUltipaEdgeRow env sch (Some e) i config = Ret r"
    "et_Schemas t = [insert_schema sch]"
  shows "\<exists>e'. export_edge env t r = Ret e' \<and> same_edge sch e e'"
proof -
  let ?s = "ConvertProtoSchemaToSdkSchema (insert_schema sch) DBEDGE"
  have s: "sc_Properties ?s = map property_of_proto (map proto_of_property (data_properties (sc_Properties sch)))"
    by (simp add: ConvertProtoSchemaToSdkSchema_def insert_schema_eq NewSchema_def)
  from converted_edge_row [OF assms(1-3), of env i config] assms(4) s obtain vals where
    r: "er_Uuid r = ed_UUID e" "er_FromId r = ed_From e" "er_ToId r = ed_To e"
      "er_FromUuid r = ed_FromUUID e" "er_ToUuid r = ed_ToUUID e" "er_SchemaName r = sc_Name sch" and
    d: "set_row_values env (Some ?s) 0 (er_Values r) NewValues = Ret vals" and
    v: "\<forall>p \<in> set (data_properties (sc_Properties sch)). \<forall>x. v (prop_name p) = Some x \<longrightarrow>
       same_value x (prop_type p) (Values_Get vals (prop_name p))"
    by auto
  have "NewSchemaMapFromProtoSchema (et_Schemas t) DBEDGE (sc_Name sch) = Some ?s"
    by (simp add: NewSchemaMapFromProtoSchema_def assms(5) insert_schema_eq)
  then have "export_edge env t r = Ret \<lparr>ed_UUID = ed_UUID e, ed_FromUUID = ed_FromUUID e,
      ed_ToUUID = ed_ToUUID e, ed_From = ed_From e, ed_To = ed_To e, ed_Schema = sc_Name sch,
      ed_Values = Some vals\<rparr>"
    using d r by (simp add: export_edge_def row_to_edge_def)
  then show ?thesis using v assms(1) by (simp add: same_edge_def Edge_Get_def)
qed

lemma as_kept_rows:
  assumes "list_all2 (\<lambda>x r. \<exists>y. f r = Ret y \<and> R x y) xs rows"
  shows "\<exists>ys. map (as_kept \<circ> f) rows = map Some ys \<and> list_all2 R xs ys"
  using assms
proof (induction rule: list_all2_induct)
  case (Cons x xs r rows)
  then obtain y ys where "f r = Ret y" "R x y" "map (as_kept \<circ> f) rows = map Some ys" "list_all2 R xs ys"
    by blast
  moreover have "as_kept (f r) = Some y" using \<open>f r = Ret y\<close> by (simp add: as_kept_def)
  ultimately show ?case by (intro exI [of _ "y # ys"]) (simp add: comp_def)
qed simp

text \<open>
  Property C3. Nodes that are inserted and exported again are the same nodes, as far as the codec of values
  goes: when an export of a schema receives, in one reply, the rows an insertion converted, with the schema
  message of the insertion, and returns, the callback has got one list with one node per inserted node, in order,
  each with the id, the uuid and the schema of its original and under every property the same value in the
  sense of the statement on scalars (a value whose encoding is the null sentinel of its type comes back nil, a
  time as a pointer to a time). The schema names every property once and every node has for every property a
  value of its Go type. The schedules of both conversions are arbitrary.
\<close>

theorem inserted_nodes_exported:
  assumes "distinct (map prop_name (data_properties (sc_Properties sch)))"
    "\<And>n. n \<in> set nodes \<Longrightarrow> \<exists>v. nd_Values n = Some v \<and> well_typed (data_properties (sc_Properties sch)) v"
    "setPropertiesToNodeRow env sch (map Some nodes) rc schedule = Ret (map Some rows)"
    "Export env srv schedules request config cb w = (w', given, Ret ())"
    "sv_export srv (wd_Calls w') = Inr ([\<lparr>xr_NodeTable = Some \<lparr>et_Schemas = [insert_schema sch], et_EntityRows = rows\<rparr>,
       xr_EdgeTable = None\<rparr>], ending)" "xq_Schema request = sc_Name sch"
  shows "\<exists>nodes'. given = [GotNodes (map Some nodes')] \<and> list_all2 (same_node sch) nodes nodes'"
proof -
  let ?t = "\<lparr>et_Schemas = [insert_schema sch], et_EntityRows = rows\<rparr>"
  have c: "length rows = length nodes" "\<And>i. i < length nodes \<Longrightarrow>
      doConvertSdkNodeRowToUltipaNodeRow env sch (Some (nodes ! i)) i rc = Ret (rows ! i)"
    using converted_sound [where n = "length (map Some nodes)" and schedule = schedule and
        check = "\<lambda>i. checkNodeProperties sch (map Some nodes ! i) i" and
        conv = "\<lambda>i. doConvertSdkNodeRowToUltipaNodeRow env sch (map Some nodes ! i) i rc"] assms(3)
    unfolding node_rows_converted by auto
  have "list_all2 (\<lambda>n r. \<exists>n'. export_node env ?t (sc_Name sch) r = Ret n' \<and> same_node sch n n') nodes rows"
  proof (rule list_all2_all_nthI)
    fix i assume i: "i < length nodes"
    then obtain v where "nd_Values (nodes ! i) = Some v" "well_typed (data_properties (sc_Properties sch)) v"
      using assms(2) [OF nth_mem] by blast
    from exported_row [OF this(1) assms(1) this(2) c(2) [OF i], of ?t]
    show "\<exists>n'. export_node env ?t (sc_Name sch) (rows ! i) = Ret n' \<and> same_node sch (nodes ! i) n'" by simp
  qed (simp add: c(1))
  from as_kept_rows [OF this] obtain nodes' where
    "map (as_kept \<circ> export_node env ?t (sc_Name sch)) rows = map Some nodes'"
    "list_all2 (same_node sch) nodes nodes'" by blast
  moreover have "given = concat (map (deliveries env (xq_Schema request))
      [\<lparr>xr_NodeTable = Some ?t, xr_EdgeTable = None\<rparr>])"
    using exported_deliveries [OF assms(4,5)] by simp
  ultimately show ?thesis using assms(6) by (intro exI [of _ nodes']) (simp add: deliveries_def)
qed

text \<open>
  Property C7. Edges that are inserted and exported again are the same edges, as far as the codec of values
  goes: when an export receives, in one reply, the rows an insertion converted, with the schema message of the
  insertion, and returns, the callback has got one list with one edge per inserted edge, in order, each with the
  end points, the identifiers and the schema of its original and under every property the same value in the
  sense of the statement on scalars (a value whose encoding is the null sentinel of its type comes back nil, a
  time as a pointer to a time). The schema names every property once and every edge has for every property a
  value of its Go type. The schedules of both conversions are arbitrary.
\<close>

theorem inserted_edges_exported:
  assumes "distinct (map prop_name (data_properties (sc_Properties sch)))"
    "\<And>e. e \<in> set edges \<Longrightarrow> \<exists>v. ed_Values e = Some v \<and> well_typed (data_properties (sc_Properties sch)) v"
    "setPropertiesToEdgeRow env sch (map Some edges) rc schedule = Ret (map Some rows)"
    "Export env srv schedules request config cb w = (w', given, Ret ())"
    "sv_export srv (wd_Calls w') = Inr ([\<lparr>xr_NodeTable = None,
       xr_EdgeTable = Some \<lparr>et_Schemas = [insert_schema sch], et_EntityRows = rows\<rparr>\<rparr>], ending)"
  shows "\<exists>edges'. given = [GotEdges (map Some edges')] \<and> list_all2 (same_edge sch) edges edges'"
proof -
  let ?t = "\<lparr>et_Schemas = [insert_schema sch], et_EntityRows = rows\<rparr>"
  have c: "length rows = length edges" "\<And>i. i < length edges \<Longrightarrow>
      doConvertSdkEdgeRowToUltipaEdgeRow env sch (Some (edges ! i)) i rc = Ret (rows ! i)"
    using converted_sound [where n = "length (map Some edges)" and schedule = schedule and
        check = "\<lambda>i. checkEdgeProperties sch (map Some edges ! i) i" and
        conv = "\<lambda>i. doConvertSdkEdgeRowToUltipaEdgeRow env sch (map Some edges ! i) i rc"] assms(3)
    unfolding edge_rows_converted by auto
  have "list_all2 (\<lambda>e r. \<exists>e'. export_edge env ?t r = Ret e' \<and> same_edge sch e e') edges rows"
  proof (rule list_all2_all_nthI)
    fix i assume i: "i < length edges"
    then obtain v where "ed_Values (edges ! i) = Some v" "well_typed (data_properties (sc_Properties sch)) v"
      using assms(2) [OF nth_mem] by blast
    from exported_edge_row [OF this(1) assms(1) this(2) c(2) [OF i], of ?t]
    show "\<exists>e'. export_edge env ?t (rows ! i) = Ret e' \<and> same_edge sch (edges ! i) e'" by simp
  qed (simp add: c(1))
  from as_kept_rows [OF this] obtain edges' where
    "map (as_kept \<circ> export_edge env ?t) rows = map Some edges'"
    "list_all2 (same_edge sch) edges edges'" by blast
  moreover have "given = concat (map (deliveries env (xq_Schema request))
      [\<lparr>xr_NodeTable = None, xr_EdgeTable = Some ?t\<rparr>])"
    using exported_deliveries [OF assms(4,5)] by simp
  ultimately show ?thesis by (intro exI [of _ edges']) (simp add: deliveries_def)
qed

definition inserted_table :: export_reply where
  "inserted_table = \<lparr>xr_NodeTable = Some \<lparr>et_Schemas = [insert_schema sample_schema],
     et_EntityRows = [sample_converted ''a'' (put_uint64 1), sample_converted ''b'' (put_uint64 1)]\<rparr>,
     xr_EdgeTable = None\<rparr>"

lemma inserted_nodes_exported_witness:
  "\<exists>a b. fst (snd (Export toy_env (sample_server\<lparr>sv_export := \<lambda>_. Inr ([inserted_table], None)\<rparr>) (\<lambda>_. ([], []))
      (sample_request\<lparr>xq_Schema := ''s''\<rparr>) (Some empty_request_config) (\<lambda>_. None) sample_world))
    = [GotNodes [Some a, Some b]] \<and> nd_ID a = ''a'' \<and> Node_Get b ''x'' = Ret (GInt64 1)"
proof -
  let ?nodes = "[Rows.sample_node ''a'' (GInt64 1), Rows.sample_node ''b'' (GInt64 1)]"
  let ?rows = "[sample_converted ''a'' (put_uint64 1), sample_converted ''b'' (put_uint64 1)]"
  let ?r = "Export toy_env (sample_server\<lparr>sv_export := \<lambda>_. Inr ([inserted_table], None)\<rparr>) (\<lambda>_. ([], []))
      (sample_request\<lparr>xq_Schema := ''s''\<rparr>) (Some empty_request_config) (\<lambda>_. None) sample_world"
  have "is_ret (snd (snd ?r))" by code_simp
  then have r: "?r = (fst ?r, fst (snd ?r), Ret ())" by (simp add: is_ret_iff prod_eq_iff)
  have rows: "setPropertiesToNodeRow toy_env sample_schema (map Some ?nodes) None [] = Ret (map Some ?rows)"
  proof -
    have "doConvertSdkNodeRowToUltipaNodeRow toy_env sample_schema (map Some ?nodes ! i) i None
        = Ret (sample_converted (if i = 0 then ''a'' else ''b'') (put_uint64 1))"
      "checkNodeProperties sample_schema (map Some ?nodes ! i) i = Ret ()" if "i < 2" for i
      using that by (auto simp: less_2_cases_iff sample_conversion sample_check)
    from converted_clean [OF this(2,1), where schedule = "[]"] show ?thesis
      by (simp add: node_rows_converted upt_rec numeral_2_eq_2)
  qed
  have d: "distinct (map prop_name (data_properties (sc_Properties sample_schema)))"
    by (simp add: sample_data_properties)
  have v: "\<exists>v. nd_Values n = Some v \<and> well_typed (data_properties (sc_Properties sample_schema)) v"
    if "n \<in> set ?nodes" for n
    using that by (auto simp: sample_data_properties sample_node_def NewNode_def well_typed_def empty_property_def)
  have "sv_export (sample_server\<lparr>sv_export := \<lambda>_. Inr ([inserted_table], None)\<rparr>) (wd_Calls (fst ?r))
      = Inr ([\<lparr>xr_NodeTable = Some \<lparr>et_Schemas = [insert_schema sample_schema], et_EntityRows = ?rows\<rparr>,
          xr_EdgeTable = None\<rparr>], None)"
    "xq_Schema (sample_request\<lparr>xq_Schema := ''s''\<rparr>) = sc_Name sample_schema"
    by (simp_all add: inserted_table_def sample_name)
  from inserted_nodes_exported [OF d v rows r this] obtain nodes' where
    "fst (snd ?r) = [GotNodes (map Some nodes')]" "list_all2 (same_node sample_schema) ?nodes nodes'"
    by blast
  then show ?thesis
    by (auto simp: list_all2_Cons1 same_node_def sample_node_def NewNode_def sample_data_properties)
qed

lemma inserted_edges_exported_witness:
  "\<exists>a b. fst (snd (Export toy_env (sample_server\<lparr>sv_export := \<lambda>_. Inr ([\<lparr>xr_NodeTable = None,
        xr_EdgeTable = Some \<lparr>et_Schemas = [insert_schema sample_schema],
          et_EntityRows = [sample_edge_row ''p'' ''q'' (put_uint64 1), sample_edge_row ''q'' ''p'' (put_uint64 2)]\<rparr>\<rparr>], None)\<rparr>)
      (\<lambda>_. ([], [])) sample_request (Some empty_request_config) (\<lambda>_. None) sample_world))
    = [GotEdges [Some a, Some b]] \<and> ed_From a = ''p'' \<and> ed_To b = ''p'' \<and> Edge_Get b ''x'' = Ret (GInt64 2)"
proof -
  let ?edges = "[sample_edge ''p'' ''q'' 1, sample_edge ''q'' ''p'' 2]"
  let ?rows = "[sample_edge_row ''p'' ''q'' (put_uint64 1), sample_edge_row ''q'' ''p'' (put_uint64 2)]"
  let ?srv = "sample_server\<lparr>sv_export := \<lambda>_. Inr ([\<lparr>xr_NodeTable = None,
        xr_EdgeTable = Some \<lparr>et_Schemas = [insert_schema sample_schema], et_EntityRows = ?rows\<rparr>\<rparr>], None)\<rparr>"
  let ?r = "Export toy_env ?srv (\<lambda>_. ([], [])) sample_request (Some empty_request_config) (\<lambda>_. None) sample_world"
  have "is_ret (snd (snd ?r))" by code_simp
  then have r: "?r = (fst ?r, fst (snd ?r), Ret ())" by (simp add: is_ret_iff prod_eq_iff)
  have rows: "setPropertiesToEdgeRow toy_env sample_schema (map Some ?edges) None [] = Ret (map Some ?rows)"
  proof -
    have "doConvertSdkEdgeRowToUltipaEdgeRow toy_env sample_schema (map Some ?edges ! i) i None
        = Ret (?rows ! i)"
      "checkEdgeProperties sample_schema (map Some ?edges ! i) i = Ret ()" if "i < 2" for i
      using that by (auto simp: less_2_cases_iff sample_edge_conversion sample_edge_check is_id_def)
    from converted_clean [OF this(2,1), where schedule = "[]"] show ?thesis
      by (simp add: edge_rows_converted upt_rec numeral_2_eq_2)
  qed
  have d: "distinct (map prop_name (data_properties (sc_Properties sample_schema)))"
    by (simp add: sample_data_properties)
  have v: "\<exists>v. ed_Values e = Some v \<and> well_typed (data_properties (sc_Properties sample_schema)) v"
    if "e \<in> set ?edges" for e
    using that by (auto simp: sample_data_properties sample_edge_def NewEdge_def well_typed_def empty_property_def)
  have "sv_export ?srv (wd_Calls (fst ?r)) = Inr ([\<lparr>xr_NodeTable = None,
      xr_EdgeTable = Some \<lparr>et_Schemas = [insert_schema sample_schema], et_EntityRows = ?rows\<rparr>\<rparr>], None)"
    by simp
  from inserted_edges_exported [OF d v rows r this] obtain edges' where
    "fst (snd ?r) = [GotEdges (map Some edges')]" "list_all2 (same_edge sample_schema) ?edges edges'"
    by blast
  then show ?thesis
    by (auto simp: list_all2_Cons1 same_edge_def sample_edge_def NewEdge_def sample_data_properties)
qed

end
