(* ===== verification/Control.thy ===== *)
theory Control
  imports Download
begin

text \<open>
  The operations of the control service: \<open>sdk/api/authenticate.go\<close>, \<open>userSetting.go\<close>, \<open>algo.go\<close>; and
  two more statements, \<open>backup.go\<close> and the builder of \<open>hdcGraph.go\<close>. The files that an installation
  reads are an argument: what opening a file gives, and what its reader returns one read after
  the other.
\<close>

section \<open>One request, one reply\<close>

definition control ::
  "'a env_scheme \<Rightarrow> server \<Rightarrow> control_request go \<Rightarrow> request_config option \<Rightarrow> control_reply action" where
  "control env srv req config =
     act_bind (client_and_context env srv config) (\<lambda>(client, ctx).
     act_bind (act_lift req) (\<lambda>req. receive_sum (sv_control srv) (ControlCall client ctx req)))"

definition status_response :: "control_reply \<Rightarrow> response go" where
  "status_response reply =
     go_bind (deref (cr_Status reply)) (\<lambda>(code, msg).
       Ret (empty_response\<lparr>rs_Status := \<lparr>st_Message = msg, st_Code = code\<rparr>\<rparr>))"

definition control_accepted :: "control_reply \<Rightarrow> unit go" where
  "control_accepted reply =
     go_bind (deref (cr_Status reply)) (\<lambda>(code, msg).
       if code \<noteq> SUCCESS then Fail (Err msg) else Ret ())"

definition Authenticate ::
  "'a env_scheme \<Rightarrow> server \<Rightarrow> 32 word \<Rightarrow> gostring \<Rightarrow> request_config option \<Rightarrow> control_reply action" where
  "Authenticate env srv authenticateType uql config =
     act_bind (control env srv (Ret (AuthenticateRequest authenticateType uql)) config) (\<lambda>reply.
       act_lift (go_bind (control_accepted reply) (\<lambda>_. Ret reply)))"

record set_user_setting =
  su_UserName :: gostring
  su_Type :: gostring
  su_Data :: gostring

record get_user_setting =
  gu_UserName :: gostring
  gu_Type :: gostring

text \<open>A status other than success is no error here: it is in the response.\<close>

definition SetUserSetting ::
  "'a env_scheme \<Rightarrow> server \<Rightarrow> set_user_setting option \<Rightarrow> request_config option \<Rightarrow> response action" where
  "SetUserSetting env srv request config =
     act_bind (control env srv (go_lift (\<lambda>r. UserSettingRequest (su_UserName r) OPT_SET (su_Type r) (su_Data r))
         (deref request)) config) (\<lambda>reply. act_lift (status_response reply))"

text \<open>The response and, under the name of the user, the alias and the text of its one item.\<close>

definition GetUserSetting ::
  "'a env_scheme \<Rightarrow> server \<Rightarrow> get_user_setting option \<Rightarrow> request_config option
   \<Rightarrow> (response \<times> (gostring \<rightharpoonup> gostring \<times> gostring)) action" where
  "GetUserSetting env srv request config =
     act_bind (control env srv (go_lift (\<lambda>r. UserSettingRequest (gu_UserName r) OPT_GET (gu_Type r) [])
         (deref request)) config) (\<lambda>reply.
     act_lift (go_bind (status_response reply) (\<lambda>resp.
       go_bind (deref request) (\<lambda>r.
         Ret (resp, [gu_UserName r \<mapsto> (''GetUserSetting'', cr_Data reply)])))))"

section \<open>Algorithms\<close>

definition UninstallHDCAlgo ::
  "'a env_scheme \<Rightarrow> server \<Rightarrow> gostring \<Rightarrow> gostring \<Rightarrow> request_config option \<Rightarrow> response action" where
  "UninstallHDCAlgo env srv algoName hdcServerName config =
     act_bind (control env srv (Ret (UninstallAlgoRequest algoName hdcServerName)) config) (\<lambda>reply.
       act_lift (go_bind (control_accepted reply) (\<lambda>_. status_response reply)))"

definition RollbackHDCAlgo ::
  "'a env_scheme \<Rightarrow> server \<Rightarrow> gostring \<Rightarrow> gostring \<Rightarrow> request_config option \<Rightarrow> response action" where
  "RollbackHDCAlgo env srv algoName hdcServerName config =
     act_bind (control env srv (Ret (RollbackAlgoRequest algoName hdcServerName)) config) (\<lambda>reply.
       act_lift (status_response reply))"

text \<open>
  A file: what its reader returns, read by read, up to the end of the file or an error, and the
  checksum a library computes of it, whose error is ignored.
\<close>

record disk_file =
  fl_Reads :: "bytes list"
  fl_Ending :: "go_error option"
  fl_Md5 :: gostring

type_synonym disk = "gostring \<Rightarrow> go_error + disk_file"

fun sendFileChunks ::
  "server \<Rightarrow> gostring \<Rightarrow> go_context \<Rightarrow> bytes list \<Rightarrow> go_error option \<Rightarrow> gostring \<Rightarrow> gostring \<Rightarrow> gostring
   \<Rightarrow> bool \<Rightarrow> unit action" where
  "sendFileChunks srv client ctx [] ending fileName md5 hdcName isYml =
     act_lift (case ending of None \<Rightarrow> Ret () | Some e \<Rightarrow> Fail e)"
| "sendFileChunks srv client ctx (chunk # chunks) ending fileName md5 hdcName isYml =
     act_bind (receive_sum (sv_control srv) (ControlCall client ctx (InstallSend
       \<lparr>in_FileName = fileName, in_Md5 = md5, in_Chunk = chunk,
        in_WithServer = (if \<not> isYml \<and> hdcName \<noteq> [] then Some hdcName else None)\<rparr>)))
       (\<lambda>_. sendFileChunks srv client ctx chunks ending fileName md5 hdcName isYml)"

text \<open>The last file, after which none is left, is the description.\<close>

fun send_files ::
  "server \<Rightarrow> disk \<Rightarrow> gostring \<Rightarrow> go_context \<Rightarrow> gostring \<Rightarrow> gostring list \<Rightarrow> unit action" where
  "send_files srv dsk client ctx hdcName [] = act_lift (Ret ())"
| "send_files srv dsk client ctx hdcName (file # files) =
     (case dsk file of
        Inl e \<Rightarrow> act_lift (Fail e)
      | Inr f \<Rightarrow>
          act_bind (sendFileChunks srv client ctx (fl_Reads f) (fl_Ending f) (path_base file) (fl_Md5 f)
            hdcName (files = [])) (\<lambda>_. send_files srv dsk client ctx hdcName files))"

definition InstallHDCAlgo ::
  "'a env_scheme \<Rightarrow> server \<Rightarrow> disk \<Rightarrow> gostring list \<Rightarrow> gostring \<Rightarrow> request_config option
   \<Rightarrow> response option action" where
  "InstallHDCAlgo env srv dsk files hdcServerName config =
     (if files = [] then act_lift (Fail (Err ''empty files''))
      else if length files < 2
      then act_lift (Fail (Err ''lack files, At least two files are required: so + yml''))
      else
        act_bind (client_and_context env srv config) (\<lambda>(client, ctx).
        act_bind (receive_sum (sv_control srv) (ControlCall client ctx InstallOpen)) (\<lambda>_.
        act_bind (send_files srv dsk client ctx hdcServerName files) (\<lambda>_.
        act_bind (receive_sum (sv_control srv) (ControlCall client ctx InstallClose)) (\<lambda>reply.
          act_lift (case cr_Status reply of
              None \<Rightarrow> Ret None
            | Some _ \<Rightarrow> go_lift Some (status_response reply)))))))"

section \<open>Backups\<close>

record backup_info =
  bk_BackupName :: gostring
  bk_BackupUUID :: gostring
  bk_StartTime :: gostring
  bk_EndTime :: gostring
  bk_Status :: gostring
  bk_Msg :: gostring

text \<open>A time column: a time is printed, a string is taken, anything else is empty.\<close>

definition backup_time :: "gval \<Rightarrow> gostring go" where
  "backup_time v =
     (case v of
        GTimePtr (Some t) \<Rightarrow> UT_String t
      | GString s \<Rightarrow> Ret s
      | _ \<Rightarrow> Ret [])"

text \<open>The decoder of the shards is an argument; what it gives goes beside the other fields.\<close>

definition backup_row ::
  "(gostring \<Rightarrow> 's list go) \<Rightarrow> values_map \<Rightarrow> (backup_info \<times> 's list) go" where
  "backup_row shards v =
     go_bind (kv_string v ''status'') (\<lambda>status.
     go_bind (if status = ''DONE'' then go_bind (kv_string v ''backup_infos'') shards else Ret []) (\<lambda>infos.
     go_bind (backup_time (Values_Get v ''start_time'')) (\<lambda>startTime.
     go_bind (backup_time (Values_Get v ''end_time'')) (\<lambda>endTime.
     go_bind (kv_string v ''backup_name'') (\<lambda>name.
     go_bind (kv_string v ''backup_uuid'') (\<lambda>uuid.
     go_bind (kv_string v ''msg'') (\<lambda>msg.
       Ret (\<lparr>bk_BackupName = name, bk_BackupUUID = uuid, bk_StartTime = startTime, bk_EndTime = endTime,
             bk_Status = status, bk_Msg = msg\<rparr>, infos))))))))"

definition ShowBacukup ::
  "(gostring \<Rightarrow> 's list go) \<Rightarrow> 'a json_env_scheme \<Rightarrow> server \<Rightarrow> request_config option
   \<Rightarrow> (backup_info \<times> 's list) list action" where
  "ShowBacukup shards env srv config =
     show_items env srv (Ret ''db.backup.show()'') (\<lambda>resp.
       go_bind (item ''_backupList'' (item_kvs env) resp) (go_map (backup_row shards))) config"

section \<open>HDC graphs\<close>

record hdc_builder =
  hb_SyncType :: gostring
  hb_HDCGraphName :: gostring
  hb_HDCServerName :: gostring
  hb_NodeSchema :: "(gostring \<rightharpoonup> gostring list) option"
  hb_EdgeSchema :: "(gostring \<rightharpoonup> gostring list) option"
  hb_Direction :: gostring
  hb_LoadId :: bool
  hb_IsDefault :: bool

text \<open>The encoder of the body is an argument: it is given the builder and the fixed query.\<close>

definition BuildUQL :: "(hdc_builder \<Rightarrow> gostring \<Rightarrow> gostring go) \<Rightarrow> hdc_builder \<Rightarrow> gostring go" where
  "BuildUQL marshal b =
     (if hb_HDCGraphName b = [] then Fail (Err ''HDCGraphName is required'')
      else if hb_HDCServerName b = [] then Fail (Err ''HDCServerName is required'')
      else go_bind (marshal b ''query'') (\<lambda>bodyJson.
        let bodyStr = trim (\<lambda>c. c \<in> {CHR ''{'', CHR ''}''}) bodyJson
        in Ret (''hdc.graph.create('' @ dq (hb_HDCGraphName b) @ '', {'' @ bodyStr @ ''}).to(''
          @ dq (hb_HDCServerName b) @ '')'')))"

definition CreateHDCGraphBySchema ::
  "(hdc_builder \<Rightarrow> gostring \<Rightarrow> gostring go) \<Rightarrow> 'a json_env_scheme \<Rightarrow> server \<Rightarrow> hdc_builder
   \<Rightarrow> request_config option \<Rightarrow> job_response action" where
  "CreateHDCGraphBySchema marshal env srv builder config =
     job_of env (send env srv (BuildUQL marshal builder) config)"

section \<open>What an installation sends\<close>

definition chunk_message :: "gostring \<Rightarrow> disk_file \<Rightarrow> gostring \<Rightarrow> bool \<Rightarrow> bytes \<Rightarrow> install_request" where
  "chunk_message hdcName f file isYml chunk = \<lparr>in_FileName = path_base file, in_Md5 = fl_Md5 f,
     in_Chunk = chunk, in_WithServer = (if \<not> isYml \<and> hdcName \<noteq> [] then Some hdcName else None)\<rparr>"

lemma sent_chunks:
  "sendFileChunks srv client ctx (map in_Chunk ms) ending base md5 hdcName isYml w = (w', Ret ()) \<Longrightarrow>
   \<forall>m \<in> set ms. m = \<lparr>in_FileName = base, in_Md5 = md5, in_Chunk = in_Chunk m,
      in_WithServer = (if \<not> isYml \<and> hdcName \<noteq> [] then Some hdcName else None)\<rparr> \<Longrightarrow>
   w' = w\<lparr>wd_Calls := wd_Calls w @ map (\<lambda>m. ControlCall client ctx (InstallSend m)) ms\<rparr>"
proof (induction ms arbitrary: w)
  case Nil
  then show ?case by (simp add: act_iffs)
next
  case (Cons m ms)
  from Cons.prems(2) have m: "\<lparr>in_FileName = base, in_Md5 = md5, in_Chunk = in_Chunk m,
      in_WithServer = (if \<not> isYml \<and> hdcName \<noteq> [] then Some hdcName else None)\<rparr> = m"
    by (simp only: list.set_intros ball_simps)
  from Cons.prems(1) have
    "sendFileChunks srv client ctx (map in_Chunk ms) ending base md5 hdcName isYml
       (w\<lparr>wd_Calls := wd_Calls w @ [ControlCall client ctx (InstallSend m)]\<rparr>) = (w', Ret ())"
    by (auto simp: act_iffs m)
  from Cons.IH [OF this ballI] show ?case using Cons.prems(2) by (simp only: list.set_intros) simp
qed

lemma sent_files:
  assumes "send_files srv dsk client ctx hdcName names w = (w', Ret ())"
  shows "\<exists>groups. length groups = length names
    \<and> w' = w\<lparr>wd_Calls := wd_Calls w @ map (\<lambda>m. ControlCall client ctx (InstallSend m)) (concat groups)\<rparr>
    \<and> (\<forall>i < length names. \<exists>f. dsk (names ! i) = Inr f
        \<and> groups ! i = map (chunk_message hdcName f (names ! i) (i + 1 = length names)) (fl_Reads f))"
  using assms
proof (induction names arbitrary: w)
  case Nil
  then show ?case by (simp add: act_iffs)
next
  case (Cons name names)
  then obtain f where f: "dsk name = Inr f" by (auto simp: act_iffs split: sum.splits)
  let ?ms = "map (chunk_message hdcName f name (names = [])) (fl_Reads f)"
  have chunks: "map in_Chunk ?ms = fl_Reads f" by (simp add: comp_def chunk_message_def)
  from Cons.prems f obtain u where u:
    "sendFileChunks srv client ctx (map in_Chunk ?ms) (fl_Ending f) (path_base name) (fl_Md5 f)
       hdcName (names = []) w = (u, Ret ())"
    "send_files srv dsk client ctx hdcName names u = (w', Ret ())"
    unfolding chunks by (auto simp: act_iffs)
  have e: "u = w\<lparr>wd_Calls := wd_Calls w @ map (\<lambda>m. ControlCall client ctx (InstallSend m)) ?ms\<rparr>"
    by (rule sent_chunks [OF u(1)]) (simp add: chunk_message_def)
  from Cons.IH [OF u(2)] obtain groups where g: "length groups = length names"
    "w' = u\<lparr>wd_Calls := wd_Calls u @ map (\<lambda>m. ControlCall client ctx (InstallSend m)) (concat groups)\<rparr>"
    "\<forall>i < length names. \<exists>f. dsk (names ! i) = Inr f
        \<and> groups ! i = map (chunk_message hdcName f (names ! i) (i + 1 = length names)) (fl_Reads f)"
    by blast
  show ?case
  proof (intro exI [of _ "?ms # groups"] conjI allI impI)
    fix i assume "i < length (name # names)"
    then show "\<exists>f. dsk ((name # names) ! i) = Inr f \<and> (?ms # groups) ! i
        = map (chunk_message hdcName f ((name # names) ! i) (i + 1 = length (name # names))) (fl_Reads f)"
      using f g(3) by (cases i) auto
  qed (use g(1,2) e in simp_all)
qed

text \<open>
  Property C35. An installation that returns has sent every file whole and in order: between opening
  and closing the stream there is one run of messages per file, whose chunks together are what was
  read from that file, under the last element of its path and its checksum; the server is named
  with the libraries and not with the description, which is the last file.
\<close>

theorem installation_sends_files:
  assumes "InstallHDCAlgo env srv dsk files hdcName config w = (w', Ret out)"
  shows "\<exists>t client ctx groups. length groups = length files
    \<and> w' = \<lparr>wd_Pool = (wd_Pool w)\<lparr>cp_RandomTick := t\<rparr>, wd_Calls = wd_Calls w
        @ [ControlCall client ctx InstallOpen]
        @ map (\<lambda>m. ControlCall client ctx (InstallSend m)) (concat groups)
        @ [ControlCall client ctx InstallClose]\<rparr>
    \<and> (\<forall>i < length files. \<exists>f. dsk (files ! i) = Inr f
        \<and> concat (map in_Chunk (groups ! i)) = concat (fl_Reads f)
        \<and> (\<forall>m \<in> set (groups ! i). in_FileName m = path_base (files ! i) \<and> in_Md5 m = fl_Md5 f
            \<and> in_WithServer m = (if i + 1 < length files \<and> hdcName \<noteq> [] then Some hdcName else None)))"
proof -
  from assms obtain u client ctx v reply where
    c: "client_and_context env srv config w = (u, Ret (client, ctx))" and
    s: "send_files srv dsk client ctx hdcName files
      (u\<lparr>wd_Calls := wd_Calls u @ [ControlCall client ctx InstallOpen]\<rparr>) = (v, Ret ())" and
    r: "w' = v\<lparr>wd_Calls := wd_Calls v @ [ControlCall client ctx InstallClose]\<rparr>"
    by (auto simp: InstallHDCAlgo_def act_iffs split: if_splits)
  obtain t where t: "u = w\<lparr>wd_Pool := (wd_Pool w)\<lparr>cp_RandomTick := t\<rparr>\<rparr>"
    using client_and_context_world [of env srv config w] c by auto
  obtain groups where g: "length groups = length files"
    "v = u\<lparr>wd_Calls := wd_Calls u @ [ControlCall client ctx InstallOpen]
        @ map (\<lambda>m. ControlCall client ctx (InstallSend m)) (concat groups)\<rparr>"
    "\<forall>i < length files. \<exists>f. dsk (files ! i) = Inr f
        \<and> groups ! i = map (chunk_message hdcName f (files ! i) (i + 1 = length files)) (fl_Reads f)"
    using sent_files [OF s] by auto
  have i: "i < n \<Longrightarrow> (i + 1 \<noteq> n) = (i + 1 < n)" for i n :: nat by auto
  show ?thesis
  proof (intro exI [of _ t] exI [of _ client] exI [of _ ctx] exI [of _ groups] conjI allI impI)
    show "length groups = length files" by (rule g(1))
    show "w' = \<lparr>wd_Pool = (wd_Pool w)\<lparr>cp_RandomTick := t\<rparr>, wd_Calls = wd_Calls w
        @ [ControlCall client ctx InstallOpen]
        @ map (\<lambda>m. ControlCall client ctx (InstallSend m)) (concat groups)
        @ [ControlCall client ctx InstallClose]\<rparr>"
      by (simp add: r g(2) t)
  next
    fix j assume j: "j < length files"
    then obtain f where "dsk (files ! j) = Inr f"
      "groups ! j = map (chunk_message hdcName f (files ! j) (j + 1 = length files)) (fl_Reads f)"
      using g(3) by blast
    then show "\<exists>f. dsk (files ! j) = Inr f
        \<and> concat (map in_Chunk (groups ! j)) = concat (fl_Reads f)
        \<and> (\<forall>m \<in> set (groups ! j). in_FileName m = path_base (files ! j) \<and> in_Md5 m = fl_Md5 f
            \<and> in_WithServer m = (if j + 1 < length files \<and> hdcName \<noteq> [] then Some hdcName else None))"
      using i [OF j] by (auto simp: chunk_message_def comp_def)
  qed
qed

definition sample_disk :: disk where
  "sample_disk file = (if file = ''/lib/a.so''
     then Inr \<lparr>fl_Reads = [[1], [2, 3]], fl_Ending = None, fl_Md5 = ''x''\<rparr>
     else if file = ''/lib/a.yml'' then Inr \<lparr>fl_Reads = [[4]], fl_Ending = None, fl_Md5 = ''y''\<rparr>
     else Inl (Err ''no such file''))"

lemma installation_sends_files_witness:
  "\<exists>t h ctx groups. length groups = 2 \<and>
    fst (InstallHDCAlgo toy_json_env sample_server sample_disk [''/lib/a.so'', ''/lib/a.yml''] ''hdc''
        (Some empty_request_config) sample_world)
      = \<lparr>wd_Pool = (wd_Pool sample_world)\<lparr>cp_RandomTick := t\<rparr>,
         wd_Calls = wd_Calls sample_world @ [ControlCall h ctx InstallOpen]
           @ map (\<lambda>m. ControlCall h ctx (InstallSend m)) (concat groups) @ [ControlCall h ctx InstallClose]\<rparr>
    \<and> concat (map in_Chunk (groups ! 0)) = [1, 2, 3]"
proof -
  let ?r = "InstallHDCAlgo toy_json_env sample_server sample_disk [''/lib/a.so'', ''/lib/a.yml''] ''hdc''
      (Some empty_request_config) sample_world"
  have two: "length [''/lib/a.so'', ''/lib/a.yml''] = 2" by simp
  have "is_ret (snd ?r)" by code_simp
  then obtain out where "?r = (fst ?r, Ret out)" by (metis is_ret_iff prod.collapse)
  from installation_sends_files [OF this, unfolded two] obtain t h ctx groups where g: "length groups = 2"
    "fst ?r = \<lparr>wd_Pool = (wd_Pool sample_world)\<lparr>cp_RandomTick := t\<rparr>,
       wd_Calls = wd_Calls sample_world @ [ControlCall h ctx InstallOpen]
         @ map (\<lambda>m. ControlCall h ctx (InstallSend m)) (concat groups) @ [ControlCall h ctx InstallClose]\<rparr>"
    and f: "\<forall>i < 2. \<exists>f. sample_disk ([''/lib/a.so'', ''/lib/a.yml''] ! i) = Inr f
        \<and> concat (map in_Chunk (groups ! i)) = concat (fl_Reads f)"
    by blast
  from f [rule_format, of 0] have "concat (map in_Chunk (groups ! 0)) = [1, 2, 3]"
    by (auto simp: sample_disk_def)
  with g show ?thesis by blast
qed

end
