(* ===== verification/Session.thy ===== *)
theory Session
  imports Driver Insert Admin Export Control
begin

text \<open>
  A session: what a client does with a driver that has opened, as a relation that makes one step for
  every operation of the API, in any order, with any arguments and whatever the server answers. It
  composes the pool of \<open>Pool\<close> and \<open>Driver\<close> with all operations of \<open>sdk/api\<close>.
\<close>

section \<open>The hosts a session may reach\<close>

text \<open>A host that requests may force, or an active one.\<close>

definition knows :: "gostring set \<Rightarrow> world \<Rightarrow> gostring \<Rightarrow> bool" where
  "knows forced w h \<longleftrightarrow> h \<in> forced \<or> Some h \<in> set (cp_Actives (wd_Pool w))"

text \<open>Only the counter of the pool changes, and all calls go to hosts that are known.\<close>

definition reaches :: "gostring set \<Rightarrow> world \<Rightarrow> world \<Rightarrow> bool" where
  "reaches forced w w' \<longleftrightarrow> extends (\<lambda>c. knows forced w (call_host c)) w w'"

lemma reaches_knows: "reaches forced u v \<Longrightarrow> knows forced v = knows forced u"
  by (auto simp: reaches_def extends_def knows_def fun_eq_iff)

lemma reaches_refl: "reaches forced w w"
  by (simp add: reaches_def extends_refl)

lemma reaches_trans: "reaches forced u v \<Longrightarrow> reaches forced v w \<Longrightarrow> reaches forced u w"
  using reaches_knows [of forced u v] by (auto simp: reaches_def intro: extends_trans)

interpretation rch: frame "reaches forced" for forced
  by unfold_locales (auto intro: reaches_refl reaches_trans)

abbreviation stays :: "gostring set \<Rightarrow> 'b action \<Rightarrow> bool" where
  "stays forced m \<equiv> allows (reaches forced) m"

text \<open>The same from a state in which a given host is known: what follows the choice of a client.\<close>

definition from_client :: "gostring set \<Rightarrow> gostring \<Rightarrow> world \<Rightarrow> world \<Rightarrow> bool" where
  "from_client forced client w w' \<longleftrightarrow> (knows forced w client \<longrightarrow> reaches forced w w')"

interpretation cli: frame "from_client forced client" for forced client
  by unfold_locales (auto simp: from_client_def reaches_refl reaches_knows intro: reaches_trans)

lemma from_client_stays: "stays forced m \<Longrightarrow> allows (from_client forced client) m"
  by (auto simp: allows_def from_client_def)

section \<open>Requests\<close>

definition allowed :: "gostring set \<Rightarrow> request_config option \<Rightarrow> bool" where
  "allowed forced config \<longleftrightarrow>
     (case config of None \<Rightarrow> True | Some c \<Rightarrow> rc_Host c = [] \<or> rc_Host c \<in> forced)"

lemma allowed_simps [simp]: "allowed forced None" "allowed forced (Some (the_config config)) = allowed forced config"
  by (auto simp: allowed_def the_config_def empty_request_config_def split: option.split)

lemma allowed_reach: "allowed forced config \<Longrightarrow> may_reach config (wd_Pool w) h \<Longrightarrow> knows forced w h"
  by (auto simp: allowed_def may_reach_def knows_def split: option.splits if_splits)

lemma tick_reaches: "reaches forced w (w\<lparr>wd_Pool := (wd_Pool w)\<lparr>cp_RandomTick := t\<rparr>\<rparr>)"
  by (auto simp: reaches_def extends_def)

lemma same_pool: "\<exists>t. p = p\<lparr>cp_RandomTick := t\<rparr>" for p :: pool
  by (rule exI [of _ "cp_RandomTick p"]) simp

lemma receive_stays: "call_host c = client \<Longrightarrow> allows (from_client forced client) (receive_sum f c)"
  by (auto simp: allows_def from_client_def reaches_def extends_def receive_sum_def Let_def intro: same_pool)

lemma chosen_stays:
  assumes "\<And>w. \<exists>t. fst (m w) = w\<lparr>wd_Pool := (wd_Pool w)\<lparr>cp_RandomTick := t\<rparr>\<rparr>"
    "\<And>w h x. snd (m w) = Ret (h, x) \<Longrightarrow> knows forced w h"
    "\<And>h x. allows (from_client forced h) (f (h, x))"
  shows "stays forced (act_bind m f)"
  unfolding allows_def
proof
  fix w
  have m: "reaches forced w (fst (m w))" using assms(1) [of w] tick_reaches by auto
  show "reaches forced w (fst (act_bind m f w))"
  proof (cases "snd (m w)")
    case (Ret r)
    obtain h x where r: "r = (h, x)" by (cases r)
    then have "knows forced (fst (m w)) h" using assms(2) Ret reaches_knows [OF m] by simp
    then have "reaches forced (fst (m w)) (fst (f (h, x) (fst (m w))))"
      using assms(3) by (auto simp: allows_def from_client_def)
    with m show ?thesis unfolding fst_act_bind Ret r by (auto intro: reaches_trans)
  qed (use m in \<open>simp_all add: fst_act_bind\<close>)
qed

lemma GetClient_stays:
  assumes "allowed forced (Some c)" "\<And>h conf. allows (from_client forced h) (f (h, conf))"
  shows "stays forced (act_bind (GetClient srv (Some c)) f)"
  using assms by (intro chosen_stays GetClient_Some) (auto intro: allowed_reach GetClient_host)

lemma client_and_context_host:
  "snd (client_and_context env srv config w) = Ret (h, ctx) \<Longrightarrow> may_reach config (wd_Pool w) h"
  using GetClient_host [of srv "the_config config" w h]
  by (auto simp: client_and_context_def GetControlClient_def GetControlClientAndConfig_def snd_act_bind
      split: go.splits prod.splits)

lemma client_stays:
  assumes "allowed forced config" "\<And>h ctx. allows (from_client forced h) (f (h, ctx))"
  shows "stays forced (act_bind (client_and_context env srv config) f)"
  using assms by (intro chosen_stays client_and_context_world) (auto intro: allowed_reach client_and_context_host)

section \<open>Queries\<close>

lemma query_stays: "allowed forced config \<Longrightarrow> stays forced (doExecuteQuery env srv q qt config)"
  unfolding allows_def
proof
  fix w
  assume a: "allowed forced config"
  obtain t n h ctx req where "fst (doExecuteQuery env srv q qt config w) =
      \<lparr>wd_Pool = (wd_Pool w)\<lparr>cp_RandomTick := t\<rparr>,
       wd_Calls = wd_Calls w @ replicate n (QueryCall h ctx req)\<rparr>"
    "0 < n \<longrightarrow> may_reach config (wd_Pool w) h"
    using doExecuteQuery_calls [of env srv q qt config w] by blast
  then show "reaches forced w (fst (doExecuteQuery env srv q qt config w))"
    using allowed_reach [OF a, of w h] by (auto simp: reaches_def extends_def list_all_iff)
qed

lemma api_query_stays: "allowed forced config \<Longrightarrow> stays forced (api_query env srv q qt config)"
  unfolding api_query_def by (auto intro!: rch.bind query_stays rch.lift split: prod.split)

lemma Uql_stays: "allowed forced config \<Longrightarrow> stays forced (Uql env srv q config)"
  unfolding Uql_def by (rule api_query_stays)

lemma Gql_stays: "allowed forced config \<Longrightarrow> stays forced (Gql env srv q config)"
  unfolding Gql_def by (rule api_query_stays)

lemma queryStream_stays:
  assumes "allowed forced config"
  shows "reaches forced w (fst (queryStream env srv q qt cb config s w))"
proof -
  have "fst (queryStream env srv q qt cb config s w) = fst (doExecuteQuery env srv q qt config w)"
    by (simp add: queryStream_def split: prod.split go.split)
  then show ?thesis using query_stays [OF assms, of env srv q qt] by (simp add: allows_def)
qed

lemma Test_stays: "stays forced (Test env srv config)"
  unfolding allows_def
proof
  fix w :: world
  obtain t where t: "fst (GetRandomConn (wd_Pool w)) = (wd_Pool w)\<lparr>cp_RandomTick := t\<rparr>"
    using GetRandomConn_pool by blast
  have k: "snd (GetRandomConn (wd_Pool w)) = Ret h \<Longrightarrow> knows forced w h" for h
    by (auto simp: knows_def dest: GetRandomConn_active)
  show "reaches forced w (fst (Test env srv config w))"
    using t k by (auto simp: Test_def act_bind_def GetConn_def api_NewContext_def Let_def
        reaches_def extends_def split: go.splits prod.splits)
qed

lemma send_stays: "allowed forced config \<Longrightarrow> stays forced (send env srv uql config)"
  unfolding send_def by (intro rch.bind rch.lift Uql_stays)

lemma show_items_stays: "allowed forced config \<Longrightarrow> stays forced (show_items env srv uql reader config)"
  unfolding show_items_def by (intro rch.bind rch.lift send_stays)

lemma job_of_stays: "stays forced m \<Longrightarrow> stays forced (job_of env m)"
  unfolding job_of_def by (intro rch.bind rch.lift)

lemma if_stays: "stays forced a \<Longrightarrow> stays forced b \<Longrightarrow> stays forced (if P then a else b)"
  by simp

lemma option_stays:
  "stays forced a \<Longrightarrow> (\<And>y. stays forced (b y)) \<Longrightarrow> stays forced (case x of None \<Rightarrow> a | Some y \<Rightarrow> b y)"
  by (cases x) auto

lemma db_type_stays:
  "stays forced a \<Longrightarrow> stays forced b \<Longrightarrow> stays forced c \<Longrightarrow> (\<And>i. stays forced (d i)) \<Longrightarrow>
    stays forced (case t of DBNODE \<Rightarrow> a | DBEDGE \<Rightarrow> b | DBGLOBAL \<Rightarrow> c | DB_OTHER i \<Rightarrow> d i)"
  by (cases t) auto

lemmas stays_intros = rch.lift rch.bind rch.handle send_stays show_items_stays job_of_stays if_stays
  option_stays db_type_stays Uql_stays Gql_stays

section \<open>The operations on the catalogue\<close>

lemma schema_stays:
  assumes "allowed forced config"
  shows "stays forced (ShowSchema env srv config)"
    "stays forced (ShowNodeSchema env srv config)"
    "stays forced (ShowEdgeSchema env srv config)"
    "stays forced (GetSchema env srv n t config)"
  unfolding GetSchema_def ShowNodeSchema_def ShowEdgeSchema_def ShowSchema_def
  by (intro stays_intros assms)+

lemma property_stays:
  assumes "allowed forced config"
  shows "stays forced (CreateProperty env srv t p config)"
    "stays forced (create_properties env srv t n ps config)"
    "stays forced (ShowNodeProperty env srv n config)"
    "stays forced (ShowEdgeProperty env srv n config)"
    "stays forced (ShowProperty env srv t n config)"
    "stays forced (api_GetProperty env srv t n n' config)"
    "stays forced (CreatePropertyIfNotExist env srv t p config)"
    "stays forced (DropProperty env srv t p config)"
    "stays forced (AlterProperty env srv t p p' config)"
proof -
  show c: "stays forced (CreateProperty env srv t p config)" for p
    unfolding CreateProperty_def by (intro stays_intros assms)
  show "stays forced (create_properties env srv t n ps config)"
    by (induction ps) (simp_all add: stays_intros c)
  show "stays forced (ShowNodeProperty env srv n config)" "stays forced (ShowEdgeProperty env srv n config)"
    unfolding ShowNodeProperty_def ShowEdgeProperty_def by (intro stays_intros assms)+
  then show "stays forced (ShowProperty env srv t n config)"
    unfolding ShowProperty_def Let_def by (intro stays_intros)
  show g: "stays forced (api_GetProperty env srv t n n' config)" for n n'
    unfolding api_GetProperty_def by (intro stays_intros schema_stays assms)
  show "stays forced (CreatePropertyIfNotExist env srv t p config)"
    unfolding CreatePropertyIfNotExist_def by (intro stays_intros g c)
  show "stays forced (DropProperty env srv t p config)" "stays forced (AlterProperty env srv t p p' config)"
    unfolding DropProperty_def AlterProperty_def by (intro stays_intros assms)+
qed

lemma create_schema_stays:
  assumes "allowed forced config"
  shows "stays forced (CreateSchema env srv sch b config)"
    "stays forced (CreateSchemaIfNotExist env srv sch b config)"
    "stays forced (DropSchema env srv sch config)"
    "stays forced (AlterSchema env srv sch sch' config)"
  unfolding CreateSchemaIfNotExist_def CreateSchema_def DropSchema_def AlterSchema_def
  by (intro stays_intros schema_stays property_stays assms)+

lemma graph_stays:
  assumes "allowed forced config"
  shows "stays forced (ShowGraph env srv config)"
    "stays forced (HasGraph env srv n config)"
    "stays forced (api_GetGraph env srv n config)"
    "stays forced (CreateGraph env srv g config)"
    "stays forced (CreateGraphIfNotExist env srv g config)"
    "stays forced (DropGraph env srv n config)"
    "stays forced (AlterGraph env srv n g config)"
    "stays forced (Truncate env srv tp config)"
    "stays forced (Compact env srv n config)"
  unfolding CreateGraphIfNotExist_def HasGraph_def api_GetGraph_def ShowGraph_def CreateGraph_def DropGraph_def
    AlterGraph_def Truncate_def Compact_def Let_def
  by (intro stays_intros assms)+

lemma for_each_stays: "(\<And>x. stays forced (f x)) \<Longrightarrow> stays forced (for_each f xs)"
  by (induction xs) (simp_all add: stays_intros)

lemma model_stays: "allowed forced config \<Longrightarrow> stays forced (InitModel env srv m config)"
  unfolding InitModel_def init_schema_def
  by (intro stays_intros for_each_stays graph_stays create_schema_stays property_stays allowed_simps)

section \<open>Insertions\<close>

definition allowed_insert :: "gostring set \<Rightarrow> insert_request_config option \<Rightarrow> bool" where
  "allowed_insert forced config \<longleftrightarrow>
     (case config of None \<Rightarrow> True | Some c \<Rightarrow> allowed forced (irc_RequestConfig c))"

lemma allowed_the_insert: "allowed_insert forced config \<Longrightarrow> the_insert_config config = (c, rc) \<Longrightarrow> allowed forced (Some rc)"
  by (auto simp: allowed_insert_def the_insert_config_def Let_def split: option.splits)

lemma context_stays: "allows (from_client forced h) (api_NewContext env srv config)"
  by (simp add: allows_def cli.refl)

lemma insert_rows_stays:
  assumes "allowed forced (Some rc)" "\<And>h ctx req. call_host (call h ctx req) = h"
  shows "stays forced (insert_rows env srv call c rc g schemas rows)"
  unfolding insert_rows_def
  by (rule GetClient_stays [OF assms(1)], unfold prod.case)
    (intro cli.bind cli.lift context_stays receive_stays assms(2))

lemma at_stays: "(\<And>v. stays forced (m v)) \<Longrightarrow> stays forced (\<lambda>w. m w w)"
  by (simp add: allows_def)

lemma insert_batch_stays:
  assumes "allowed_insert forced config" "\<And>h ctx req. call_host (call h ctx req) = h"
  shows "stays forced (insert_batch env srv call read schemas rows config)"
proof -
  have "stays forced (\<lambda>w. act_bind (insert_rows env srv call c rc (graph_of rc (cp_Config (wd_Pool w))) schemas (Ret rows))
      (\<lambda>reply. act_lift (go_bind (accepted reply) (\<lambda>_. read reply))) w)"
    if "allowed forced (Some rc)" for c rc
    by (rule at_stays) (intro rch.bind rch.lift insert_rows_stays that assms(2))
  then show ?thesis using assms(1)
    by (auto simp: insert_batch_def deref_def allowed_insert_def rch.lift split: option.splits)
qed

lemma insert_by_schema_stays:
  assumes "allowed_insert forced config" "\<And>h ctx req. call_host (call h ctx req) = h"
  shows "stays forced (insert_by_schema env srv call read sch convert config)"
proof -
  obtain c rc where c: "the_insert_config config = (c, rc)" by (cases "the_insert_config config")
  have "stays forced (\<lambda>w. act_bind (insert_rows env srv call c rc (graph_of rc (cp_Config (wd_Pool w)))
      [insert_schema sch] (convert (Some rc)))
    (\<lambda>reply. act_lift (go_bind (accepted reply) (\<lambda>_. read reply))) w)"
    by (rule at_stays) (intro rch.bind rch.lift insert_rows_stays allowed_the_insert [OF assms(1) c] assms(2))
  then show ?thesis by (simp add: insert_by_schema_def c)
qed

lemma send_batches_stays:
  assumes "allowed forced (Some rc)" "\<And>h ctx req. call_host (call h ctx req) = h"
  shows "stays forced (send_batches env srv call read c rc g batches names resps)"
  by (induction names arbitrary: resps)
    (auto intro!: rch.bind rch.lift insert_rows_stays assms split: option.split)

lemma insert_auto_stays:
  assumes "allowed_insert forced config" "\<And>h ctx req. call_host (call h ctx req) = h"
    "\<And>rc. allowed forced (Some rc) \<Longrightarrow> stays forced (show_schemas (Some rc))"
  shows "stays forced (insert_auto env srv call read show_schemas spread enum config)"
proof -
  obtain c rc where c: "the_insert_config config = (c, rc)" by (cases "the_insert_config config")
  note a = allowed_the_insert [OF assms(1) c]
  have "stays forced (\<lambda>w. let graphName = graph_of rc (cp_Config (wd_Pool w)) in
      act_bind (show_schemas (Some rc)) (\<lambda>schemas.
      act_bind (act_lift (spread (Some rc) schemas)) (\<lambda>(m, batches).
        send_batches env srv call read c rc graphName batches enum Map.empty)) w)"
    unfolding Let_def
    by (rule at_stays) (auto intro!: rch.bind rch.lift send_batches_stays a assms(2,3))
  then show ?thesis by (simp add: insert_auto_def c)
qed

lemma insert_stays:
  assumes "allowed_insert forced config"
  shows "stays forced (InsertNodesBatch env srv schemas rows config)"
    "stays forced (InsertEdgesBatch env srv schemas rows config)"
    "stays forced (InsertNodesBatchBySchema env srv sch nodes schedule config)"
    "stays forced (InsertEdgesBatchBySchema env srv sch edges schedule config)"
    "stays forced (InsertNodesBatchAuto env' srv enum nodes config)"
    "stays forced (InsertEdgesBatchAuto env' srv enum edges config)"
    "stays forced (InsertNodes env srv marshal n ns config)"
    "stays forced (InsertEdges env srv marshal n es config)"
proof -
  have h: "call_host (InsertNodesCall h ctx req) = h" "call_host (InsertEdgesCall h ctx req) = h"
    for h ctx req by simp_all
  note batch = insert_batch_stays [OF assms] and by_schema = insert_by_schema_stays [OF assms]
    and auto = insert_auto_stays [OF assms]
  show "stays forced (InsertNodesBatch env srv schemas rows config)"
    unfolding InsertNodesBatch_def by (rule batch) (rule h)
  show "stays forced (InsertEdgesBatch env srv schemas rows config)"
    unfolding InsertEdgesBatch_def by (rule batch) (rule h)
  show "stays forced (InsertNodesBatchBySchema env srv sch nodes schedule config)"
    unfolding InsertNodesBatchBySchema_def by (rule by_schema) (rule h)
  show "stays forced (InsertEdgesBatchBySchema env srv sch edges schedule config)"
    unfolding InsertEdgesBatchBySchema_def by (rule by_schema) (rule h)
  show "stays forced (InsertNodesBatchAuto env' srv enum nodes config)"
    unfolding InsertNodesBatchAuto_def by (rule auto) (rule h, erule schema_stays)
  show "stays forced (InsertEdgesBatchAuto env' srv enum edges config)"
    unfolding InsertEdgesBatchAuto_def by (rule auto) (rule h, erule schema_stays)
  show "stays forced (InsertNodes env srv marshal n ns config)" "stays forced (InsertEdges env srv marshal n es config)"
    using assms by (cases config; simp add: InsertNodes_def InsertEdges_def deref_def allowed_insert_def
        rch.lift Uql_stays)+
qed

section \<open>Administration\<close>

lemma index_stays:
  assumes "allowed forced config"
  shows "stays forced (CreateIndex env srv t n n' config)"
    "stays forced (ShowIndex env srv config)"
    "stays forced (ShowNodeIndex env srv config)"
    "stays forced (ShowEdgeIndex env srv config)"
    "stays forced (DropIndex env srv t n config)"
    "stays forced (CreateFullText env srv t n n' n'' config)"
    "stays forced (ShowFullText env srv config)"
    "stays forced (ShowNodeFullText env srv config)"
    "stays forced (ShowEdgeFullText env srv config)"
    "stays forced (DropFullText env srv n t config)"
    "stays forced (Lte env srv t n n' config)"
    "stays forced (Ufe env srv t n n' config)"
  unfolding CreateIndex_def CreateNodeIndex_def CreateEdgeIndex_def ShowIndex_def ShowNodeIndex_def ShowEdgeIndex_def DropIndex_def CreateFullText_def ShowFullText_def ShowNodeFullText_def ShowEdgeFullText_def DropFullText_def Lte_def Ufe_def
  by (intro stays_intros assms)+

lemma job_stays:
  assumes "allowed forced config"
  shows "stays forced (Kill env srv n config)"
    "stays forced (Top env srv config)"
    "stays forced (Stats env srv config)"
    "stays forced (ShowJob env srv n config)"
    "stays forced (ClearJob env srv n config)"
    "stays forced (StopJob env srv n config)"
    "stays forced (ShowTask digits env srv n i config)"
    "stays forced (ClearTask digits env srv n i config)"
    "stays forced (StopTask digits env srv n config)"
    "stays forced (ShowProjection env srv config)"
    "stays forced (ShowHDCGraph env srv config)"
    "stays forced (DropHDCGraph env srv n config)"
    "stays forced (ShowHDCAlgo env srv n config)"
  unfolding Kill_def Top_def Stats_def ShowJob_def ClearJob_def StopJob_def ShowTask_def ClearTask_def StopTask_def ShowProjection_def ShowHDCGraph_def DropHDCGraph_def ShowHDCAlgo_def
  by (intro stays_intros assms)+

lemma user_stays:
  assumes "allowed forced config"
  shows "stays forced (ShowPolicy env srv config)"
    "stays forced (GetPolicy env srv n config)"
    "stays forced (CreatePolicy jo env srv pol config)"
    "stays forced (AlterPolicy jo env srv pol config)"
    "stays forced (DropPolicy env srv n config)"
    "stays forced (ShowUser env srv config)"
    "stays forced (GetUser env srv n config)"
    "stays forced (CreateUser jo env srv user config)"
    "stays forced (AlterUser jo env srv user config)"
    "stays forced (DropUser env srv n config)"
    "stays forced (ShowPrivilege env srv config)"
    "stays forced (ShowLicense env srv config)"
  unfolding ShowPolicy_def GetPolicy_def CreatePolicy_def AlterPolicy_def DropPolicy_def ShowUser_def GetUser_def CreateUser_def AlterUser_def DropUser_def ShowPrivilege_def ShowLicense_def
  by (intro stays_intros assms)+

section \<open>The control service, downloads and exports\<close>

lemma control_stays: "allowed forced config \<Longrightarrow> stays forced (control env srv req config)"
  unfolding control_def
  by (rule client_stays, assumption, unfold prod.case) (intro cli.bind cli.lift receive_stays call_host.simps)

lemma control_operations_stay:
  assumes "allowed forced config"
  shows "stays forced (Authenticate env srv i q config)"
    "stays forced (SetUserSetting env srv set_request config)"
    "stays forced (GetUserSetting env srv get_request config)"
    "stays forced (UninstallHDCAlgo env srv n n' config)"
    "stays forced (RollbackHDCAlgo env srv n n' config)"
    "stays forced (ShowBacukup shards env' srv config)"
    "stays forced (CreateHDCGraphBySchema marshal env' srv builder config)"
  unfolding Authenticate_def SetUserSetting_def GetUserSetting_def UninstallHDCAlgo_def RollbackHDCAlgo_def
    ShowBacukup_def CreateHDCGraphBySchema_def
  by (intro stays_intros control_stays assms)+

lemma sendFileChunks_stays:
  "allows (from_client forced client) (sendFileChunks srv client ctx chunks ending n md5 hdcName yml)"
  by (induction chunks) (auto intro!: cli.bind cli.lift receive_stays)

lemma send_files_stays: "allows (from_client forced client) (send_files srv dsk client ctx hdcName files)"
  by (induction files) (auto intro!: cli.bind cli.lift sendFileChunks_stays split: sum.split)

lemma InstallHDCAlgo_stays: "allowed forced config \<Longrightarrow> stays forced (InstallHDCAlgo env srv dsk files n config)"
  unfolding InstallHDCAlgo_def
  by (intro if_stays rch.lift client_stays, assumption, unfold prod.case)
    (intro cli.bind cli.lift receive_stays call_host.simps send_files_stays)

lemma Export_stays:
  assumes "allowed forced config"
  shows "reaches forced w (fst (Export env srv schedules request config cb w))"
proof -
  let ?m = "act_bind (client_and_context env srv config) (\<lambda>(client, ctx).
    receive_sum (sv_export srv) (ControlCall client ctx (ExportRequest request (uc_MaxRecvSize (cp_Config (wd_Pool w))))))"
  have "stays forced ?m"
    by (rule client_stays [OF assms], unfold prod.case) (intro receive_stays call_host.simps)
  moreover have "fst (Export env srv schedules request config cb w) = fst (?m w)"
    by (simp add: Export_def split: prod.split go.split)
  ultimately show ?thesis by (simp add: allows_def)
qed

lemma files_by_job_stays:
  assumes "allowed forced config" "getFilesByJobId env srv i config w = Some (w', r)"
  shows "reaches forced w w'"
proof -
  have "reaches forced w (fst (ShowJob env srv i config w))"
    using job_stays(4) [OF assms(1), of env srv i] by (simp add: allows_def)
  moreover have "w' = fst (ShowJob env srv i config w)"
    using assms(2) by (auto simp: getFilesByJobId_def split: prod.splits go.splits)
  ultimately show ?thesis by simp
qed

lemma download_file_stays: "from_client forced client w (fst (download_file srv client ctx file bad rcv s w))"
proof -
  have "fst (download_file srv client ctx file bad rcv s w)
      = fst (receive_sum (sv_download srv) (DownloadCall client ctx file) w)"
    by (simp add: download_file_def split: prod.split go.split)
  then show ?thesis using receive_stays [of "DownloadCall client ctx file" client forced "sv_download srv"] by (simp add: allows_def)
qed

lemma download_each_stays: "from_client forced client w (fst (download_each srv client ctx rcv files s w))"
proof (induction files arbitrary: s w)
  case Nil
  then show ?case by (simp add: cli.refl)
next
  case (Cons name files)
  from download_file_stays [of forced client w srv ctx name "\<lambda>msg. Ret False" "\<lambda>chunk. rcv chunk (path_base name)" s]
  show ?case using Cons
    by (auto split: prod.split go.split bool.split intro: cli.trans)
qed

lemma chosen_client:
  assumes "allowed forced config" "client_and_context env srv config w = (w', r)"
  shows "reaches forced w w'" "r = Ret (h, ctx) \<Longrightarrow> from_client forced h w' u \<Longrightarrow> reaches forced w u"
proof -
  show c: "reaches forced w w'"
    using client_and_context_world [of env srv config w] assms(2) by (auto intro: tick_reaches)
  assume "r = Ret (h, ctx)" "from_client forced h w' u"
  moreover have "knows forced w' h"
    using client_and_context_host [of env srv config w h ctx] assms(2) calculation(1)
      allowed_reach [OF assms(1), of w h] reaches_knows [OF c] by simp
  ultimately show "reaches forced w u" using c by (auto simp: from_client_def intro: reaches_trans)
qed

lemma download_stays:
  assumes "allowed forced config" "DownloadAlgoResultFile env srv n i config rcv s w = Some (w', s', r)"
  shows "reaches forced w w'"
proof -
  obtain u files where f: "getFilesByJobId env srv i config w = Some (u, files)"
    using assms(2) by (auto simp: DownloadAlgoResultFile_def)
  note u = files_by_job_stays [OF assms(1) f]
  show ?thesis
  proof (cases files)
    case (Ret fs)
    obtain v c where v: "client_and_context env srv config u = (v, c)" by (cases "client_and_context env srv config u")
    note reach = chosen_client [OF assms(1) v]
    show ?thesis
    proof (cases c)
      case (Ret hc)
      obtain h ctx where "hc = (h, ctx)" by (cases hc)
      then have "w' = fst (download_file srv h ctx (full_name fs n) (\<lambda>msg. Fail (Err msg)) rcv s v)"
        using assms(2) f v \<open>files = Ret fs\<close> Ret by (auto simp: DownloadAlgoResultFile_def split: prod.splits)
      then have "from_client forced h v w'" using download_file_stays by simp
      with reach(2) Ret \<open>hc = (h, ctx)\<close> u show ?thesis by (auto intro: reaches_trans)
    qed (use assms(2) f v reach(1) u \<open>files = Ret fs\<close> in
        \<open>auto simp: DownloadAlgoResultFile_def intro: reaches_trans\<close>)
  qed (use assms(2) f u in \<open>auto simp: DownloadAlgoResultFile_def\<close>)
qed

lemma download_all_stays:
  assumes "allowed forced config" "DownloadAllAlgoResultFile env srv i config rcv s w = Some (w', s', r)"
  shows "reaches forced w w'"
proof -
  obtain v c where v: "client_and_context env srv config w = (v, c)" by (cases "client_and_context env srv config w")
  note reach = chosen_client [OF assms(1) v]
  show ?thesis
  proof (cases c)
    case (Ret hc)
    obtain h ctx where hc: "hc = (h, ctx)" by (cases hc)
    obtain u files where f: "getFilesByJobId env srv i config v = Some (u, files)"
      using assms(2) v Ret hc by (auto simp: DownloadAllAlgoResultFile_def)
    have "from_client forced h v w'"
    proof (rule cli.trans)
      show "from_client forced h v u" using files_by_job_stays [OF assms(1) f] by (simp add: from_client_def)
      show "from_client forced h u w'"
      proof (cases files)
        case (Ret fs)
        then have "w' = fst (download_each srv h ctx rcv fs s u)"
          using assms(2) v \<open>c = Ret hc\<close> hc f by (auto simp: DownloadAllAlgoResultFile_def split: prod.splits)
        then show ?thesis using download_each_stays by simp
      qed (use assms(2) v \<open>c = Ret hc\<close> hc f in \<open>auto simp: DownloadAllAlgoResultFile_def cli.refl\<close>)
    qed
    with reach(2) Ret hc show ?thesis by blast
  qed (use assms(2) v reach(1) in \<open>auto simp: DownloadAllAlgoResultFile_def\<close>)
qed

section \<open>A session\<close>

text \<open>
  One step for every operation; requests may force the hosts in \<open>forced\<close> only. The state of a
  callback is what it has been given so far. \<open>Close\<close> and \<open>SafelyClose\<close> are no steps: they close connections
  and call no host, and nothing of the state below changes.
\<close>

inductive session_step :: "'a json_env_scheme \<Rightarrow> server \<Rightarrow> gostring set \<Rightarrow> world \<Rightarrow> world \<Rightarrow> bool"
  for env srv forced where
  does_Uql: "allowed forced config \<Longrightarrow> session_step env srv forced w
    (fst (Uql env srv q config w))"
| does_Gql: "allowed forced config \<Longrightarrow> session_step env srv forced w
    (fst (Gql env srv q config w))"
| does_queryStream: "allowed forced config \<Longrightarrow> session_step env srv forced w
    (fst (queryStream env srv q qt cb config (given :: response list) w))"
| does_Test: "session_step env srv forced w
    (fst (Test env srv config w))"
| does_ShowSchema: "allowed forced config \<Longrightarrow> session_step env srv forced w
    (fst (ShowSchema env srv config w))"
| does_ShowNodeSchema: "allowed forced config \<Longrightarrow> session_step env srv forced w
    (fst (ShowNodeSchema env srv config w))"
| does_ShowEdgeSchema: "allowed forced config \<Longrightarrow> session_step env srv forced w
    (fst (ShowEdgeSchema env srv config w))"
| does_GetSchema: "allowed forced config \<Longrightarrow> session_step env srv forced w
    (fst (GetSchema env srv n t config w))"
| does_CreateSchema: "allowed forced config \<Longrightarrow> session_step env srv forced w
    (fst (CreateSchema env srv sch b config w))"
| does_CreateSchemaIfNotExist: "allowed forced config \<Longrightarrow> session_step env srv forced w
    (fst (CreateSchemaIfNotExist env srv sch b config w))"
| does_DropSchema: "allowed forced config \<Longrightarrow> session_step env srv forced w
    (fst (DropSchema env srv sch config w))"
| does_AlterSchema: "allowed forced config \<Longrightarrow> session_step env srv forced w
    (fst (AlterSchema env srv sch sch' config w))"
| does_ShowNodeProperty: "allowed forced config \<Longrightarrow> session_step env srv forced w
    (fst (ShowNodeProperty env srv n config w))"
| does_ShowEdgeProperty: "allowed forced config \<Longrightarrow> session_step env srv forced w
    (fst (ShowEdgeProperty env srv n config w))"
| does_ShowProperty: "allowed forced config \<Longrightarrow> session_step env srv forced w
    (fst (ShowProperty env srv t n config w))"
| does_api_GetProperty: "allowed forced config \<Longrightarrow> session_step env srv forced w
    (fst (api_GetProperty env srv t n n' config w))"
| does_CreateProperty: "allowed forced config \<Longrightarrow> session_step env srv forced w
    (fst (CreateProperty env srv t p config w))"
| does_CreatePropertyIfNotExist: "allowed forced config \<Longrightarrow> session_step env srv forced w
    (fst (CreatePropertyIfNotExist env srv t p config w))"
| does_DropProperty: "allowed forced config \<Longrightarrow> session_step env srv forced w
    (fst (DropProperty env srv t p config w))"
| does_AlterProperty: "allowed forced config \<Longrightarrow> session_step env srv forced w
    (fst (AlterProperty env srv t p p' config w))"
| does_ShowGraph: "allowed forced config \<Longrightarrow> session_step env srv forced w
    (fst (ShowGraph env srv config w))"
| does_HasGraph: "allowed forced config \<Longrightarrow> session_step env srv forced w
    (fst (HasGraph env srv n config w))"
| does_api_GetGraph: "allowed forced config \<Longrightarrow> session_step env srv forced w
    (fst (api_GetGraph env srv n config w))"
| does_CreateGraph: "allowed forced config \<Longrightarrow> session_step env srv forced w
    (fst (CreateGraph env srv g config w))"
| does_CreateGraphIfNotExist: "allowed forced config \<Longrightarrow> session_step env srv forced w
    (fst (CreateGraphIfNotExist env srv g config w))"
| does_DropGraph: "allowed forced config \<Longrightarrow> session_step env srv forced w
    (fst (DropGraph env srv n config w))"
| does_AlterGraph: "allowed forced config \<Longrightarrow> session_step env srv forced w
    (fst (AlterGraph env srv n g config w))"
| does_Truncate: "allowed forced config \<Longrightarrow> session_step env srv forced w
    (fst (Truncate env srv tp config w))"
| does_Compact: "allowed forced config \<Longrightarrow> session_step env srv forced w
    (fst (Compact env srv n config w))"
| does_InitModel: "allowed forced config \<Longrightarrow> session_step env srv forced w
    (fst (InitModel env srv m config w))"
| does_InsertNodesBatch: "allowed_insert forced config \<Longrightarrow> session_step env srv forced w
    (fst (InsertNodesBatch env srv schemas rows config w))"
| does_InsertEdgesBatch: "allowed_insert forced config \<Longrightarrow> session_step env srv forced w
    (fst (InsertEdgesBatch env srv schemas rows config w))"
| does_InsertNodesBatchBySchema: "allowed_insert forced config \<Longrightarrow> session_step env srv forced w
    (fst (InsertNodesBatchBySchema env srv sch nodes schedule config w))"
| does_InsertEdgesBatchBySchema: "allowed_insert forced config \<Longrightarrow> session_step env srv forced w
    (fst (InsertEdgesBatchBySchema env srv sch edges schedule config w))"
| does_InsertNodesBatchAuto: "allowed_insert forced config \<Longrightarrow> session_step env srv forced w
    (fst (InsertNodesBatchAuto env srv enum nodes config w))"
| does_InsertEdgesBatchAuto: "allowed_insert forced config \<Longrightarrow> session_step env srv forced w
    (fst (InsertEdgesBatchAuto env srv enum edges config w))"
| does_InsertNodes: "allowed_insert forced config \<Longrightarrow> session_step env srv forced w
    (fst (InsertNodes env srv marshal n ns config w))"
| does_InsertEdges: "allowed_insert forced config \<Longrightarrow> session_step env srv forced w
    (fst (InsertEdges env srv marshal n es config w))"
| does_CreateIndex: "allowed forced config \<Longrightarrow> session_step env srv forced w
    (fst (CreateIndex env srv t n n' config w))"
| does_ShowIndex: "allowed forced config \<Longrightarrow> session_step env srv forced w
    (fst (ShowIndex env srv config w))"
| does_ShowNodeIndex: "allowed forced config \<Longrightarrow> session_step env srv forced w
    (fst (ShowNodeIndex env srv config w))"
| does_ShowEdgeIndex: "allowed forced config \<Longrightarrow> session_step env srv forced w
    (fst (ShowEdgeIndex env srv config w))"
| does_DropIndex: "allowed forced config \<Longrightarrow> session_step env srv forced w
    (fst (DropIndex env srv t n config w))"
| does_CreateFullText: "allowed forced config \<Longrightarrow> session_step env srv forced w
    (fst (CreateFullText env srv t n n' n'' config w))"
| does_ShowFullText: "allowed forced config \<Longrightarrow> session_step env srv forced w
    (fst (ShowFullText env srv config w))"
| does_ShowNodeFullText: "allowed forced config \<Longrightarrow> session_step env srv forced w
    (fst (ShowNodeFullText env srv config w))"
| does_ShowEdgeFullText: "allowed forced config \<Longrightarrow> session_step env srv forced w
    (fst (ShowEdgeFullText env srv config w))"
| does_DropFullText: "allowed forced config \<Longrightarrow> session_step env srv forced w
    (fst (DropFullText env srv n t config w))"
| does_Lte: "allowed forced config \<Longrightarrow> session_step env srv forced w
    (fst (Lte env srv t n n' config w))"
| does_Ufe: "allowed forced config \<Longrightarrow> session_step env srv forced w
    (fst (Ufe env srv t n n' config w))"
| does_Kill: "allowed forced config \<Longrightarrow> session_step env srv forced w
    (fst (Kill env srv n config w))"
| does_Top: "allowed forced config \<Longrightarrow> session_step env srv forced w
    (fst (Top env srv config w))"
| does_Stats: "allowed forced config \<Longrightarrow> session_step env srv forced w
    (fst (Stats env srv config w))"
| does_ShowJob: "allowed forced config \<Longrightarrow> session_step env srv forced w
    (fst (ShowJob env srv n config w))"
| does_ClearJob: "allowed forced config \<Longrightarrow> session_step env srv forced w
    (fst (ClearJob env srv n config w))"
| does_StopJob: "allowed forced config \<Longrightarrow> session_step env srv forced w
    (fst (StopJob env srv n config w))"
| does_ShowTask: "allowed forced config \<Longrightarrow> session_step env srv forced w
    (fst (ShowTask digits env srv n i config w))"
| does_ClearTask: "allowed forced config \<Longrightarrow> session_step env srv forced w
    (fst (ClearTask digits env srv n i config w))"
| does_StopTask: "allowed forced config \<Longrightarrow> session_step env srv forced w
    (fst (StopTask digits env srv n config w))"
| does_ShowProjection: "allowed forced config \<Longrightarrow> session_step env srv forced w
    (fst (ShowProjection env srv config w))"
| does_ShowHDCGraph: "allowed forced config \<Longrightarrow> session_step env srv forced w
    (fst (ShowHDCGraph env srv config w))"
| does_DropHDCGraph: "allowed forced config \<Longrightarrow> session_step env srv forced w
    (fst (DropHDCGraph env srv n config w))"
| does_ShowHDCAlgo: "allowed forced config \<Longrightarrow> session_step env srv forced w
    (fst (ShowHDCAlgo env srv n config w))"
| does_ShowPolicy: "allowed forced config \<Longrightarrow> session_step env srv forced w
    (fst (ShowPolicy env srv config w))"
| does_GetPolicy: "allowed forced config \<Longrightarrow> session_step env srv forced w
    (fst (GetPolicy env srv n config w))"
| does_DropPolicy: "allowed forced config \<Longrightarrow> session_step env srv forced w
    (fst (DropPolicy env srv n config w))"
| does_ShowUser: "allowed forced config \<Longrightarrow> session_step env srv forced w
    (fst (ShowUser env srv config w))"
| does_GetUser: "allowed forced config \<Longrightarrow> session_step env srv forced w
    (fst (GetUser env srv n config w))"
| does_DropUser: "allowed forced config \<Longrightarrow> session_step env srv forced w
    (fst (DropUser env srv n config w))"
| does_ShowPrivilege: "allowed forced config \<Longrightarrow> session_step env srv forced w
    (fst (ShowPrivilege env srv config w))"
| does_ShowLicense: "allowed forced config \<Longrightarrow> session_step env srv forced w
    (fst (ShowLicense env srv config w))"
| does_CreatePolicy: "allowed forced config \<Longrightarrow> session_step env srv forced w
    (fst (CreatePolicy jo env srv pol config w))"
| does_AlterPolicy: "allowed forced config \<Longrightarrow> session_step env srv forced w
    (fst (AlterPolicy jo env srv pol config w))"
| does_CreateUser: "allowed forced config \<Longrightarrow> session_step env srv forced w
    (fst (CreateUser jo env srv user config w))"
| does_AlterUser: "allowed forced config \<Longrightarrow> session_step env srv forced w
    (fst (AlterUser jo env srv user config w))"
| does_Authenticate: "allowed forced config \<Longrightarrow> session_step env srv forced w
    (fst (Authenticate env srv i q config w))"
| does_SetUserSetting: "allowed forced config \<Longrightarrow> session_step env srv forced w
    (fst (SetUserSetting env srv set_request config w))"
| does_GetUserSetting: "allowed forced config \<Longrightarrow> session_step env srv forced w
    (fst (GetUserSetting env srv get_request config w))"
| does_UninstallHDCAlgo: "allowed forced config \<Longrightarrow> session_step env srv forced w
    (fst (UninstallHDCAlgo env srv n n' config w))"
| does_RollbackHDCAlgo: "allowed forced config \<Longrightarrow> session_step env srv forced w
    (fst (RollbackHDCAlgo env srv n n' config w))"
| does_InstallHDCAlgo: "allowed forced config \<Longrightarrow> session_step env srv forced w
    (fst (InstallHDCAlgo env srv dsk files n config w))"
| does_ShowBacukup: "allowed forced config \<Longrightarrow> session_step env srv forced w
    (fst (ShowBacukup (shards :: gostring \<Rightarrow> gostring list go) env srv config w))"
| does_CreateHDCGraphBySchema: "allowed forced config \<Longrightarrow> session_step env srv forced w
    (fst (CreateHDCGraphBySchema marshal env srv builder config w))"
| does_Export: "allowed forced config \<Longrightarrow> session_step env srv forced w
    (fst (Export env srv schedules request config callback w))"
| does_DownloadAlgoResultFile: "allowed forced config \<Longrightarrow> DownloadAlgoResultFile env srv n i config rcv (chunks :: bytes list) w = Some (w', chunks', r) \<Longrightarrow>
    session_step env srv forced w w'"
| does_DownloadAllAlgoResultFile: "allowed forced config \<Longrightarrow> DownloadAllAlgoResultFile env srv i config rcv' (files :: (gostring \<times> bytes) list) w = Some (w', files', r) \<Longrightarrow>
    session_step env srv forced w w'"

lemmas operations_stay = Uql_stays Gql_stays Test_stays schema_stays property_stays create_schema_stays
  graph_stays model_stays insert_stays index_stays job_stays user_stays control_operations_stay
  InstallHDCAlgo_stays

lemma session_step_reaches: "session_step env srv forced w w' \<Longrightarrow> reaches forced w w'"
  by (induction rule: session_step.induct)
    (simp_all add: operations_stay [unfolded allows_def] queryStream_stays Export_stays download_stays download_all_stays)

lemma session_reaches: "(session_step env srv forced)\<^sup>*\<^sup>* w w' \<Longrightarrow> reaches forced w w'"
  by (induction rule: rtranclp_induct)
    (auto intro: reaches_refl reaches_trans session_step_reaches)

text \<open>
  Property C6. Through a driver that has opened, whatever operations are called in whatever order and
  whatever the server answers, every call goes to a host a request forces or to a configured host
  that answered the greeting when the driver opened; the pool stays as it was but for its counter.
\<close>

theorem session_reaches_live_hosts:
  assumes "NewUltipaDriver nw md5_sum now later hello hosts schedule config = (config', Ret api)"
    "distinct hosts" "set hosts = set (uc_Hosts config)" "after_zero_time now"
    "(session_step env srv forced)\<^sup>*\<^sup>* \<lparr>wd_Pool = ua_Pool api, wd_Calls = []\<rparr> w"
  shows "(\<exists>t. wd_Pool w = (ua_Pool api)\<lparr>cp_RandomTick := t\<rparr>) \<and>
    (\<forall>c \<in> set (wd_Calls w). call_host c \<in> forced \<or>
       call_host c \<in> set (uc_Hosts config) \<and> answers (hello (call_host c)))"
  using session_reaches [OF assms(5)] opened_driver(4) [OF assms(1-4)]
  by (fastforce simp: reaches_def extends_def knows_def list_all_iff)

lemma session_reaches_live_hosts_witness:
  "\<exists>api. snd (NewUltipaDriver open_network id 0 0 one_answers [''b'', ''a''] [] sample_pool_config) = Ret api \<and>
    (\<forall>c \<in> set (wd_Calls (fst (Uql toy_json_env sample_server ''top()'' None
        (fst (ShowGraph toy_json_env sample_server None \<lparr>wd_Pool = ua_Pool api, wd_Calls = []\<rparr>))))).
      call_host c = ''a'')"
proof -
  let ?r = "NewUltipaDriver open_network id 0 0 one_answers [''b'', ''a''] [] sample_pool_config"
  obtain api where r: "?r = (fst ?r, Ret api)" using sample_driver by (metis is_ret_iff prod.collapse)
  let ?w = "\<lparr>wd_Pool = ua_Pool api, wd_Calls = []\<rparr>"
  let ?u = "fst (ShowGraph toy_json_env sample_server None ?w)"
  let ?v = "fst (Uql toy_json_env sample_server ''top()'' None ?u)"
  have "session_step toy_json_env sample_server {} ?w ?u" "session_step toy_json_env sample_server {} ?u ?v"
    by (rule session_step.intros, simp)+
  then have "(session_step toy_json_env sample_server {})\<^sup>*\<^sup>* ?w ?v"
    by (meson rtranclp.rtrancl_into_rtrancl rtranclp.rtrancl_refl)
  from session_reaches_live_hosts [OF r _ _ _ this]
  have "\<forall>c \<in> set (wd_Calls ?v). call_host c \<in> set [''a'', ''b''] \<and> answers (one_answers (call_host c))"
    by (auto simp: sample_pool_config_def after_zero_time_def)
  then have "\<forall>c \<in> set (wd_Calls ?v). call_host c = ''a''"
    by (auto simp: one_answers_def answers_def)
  with r show ?thesis by (metis snd_conv)
qed

end
