(* ===== verification/Storage.thy ===== *)
theory Storage
  imports Session
begin

text \<open>
  An insertion and an export through the same driver, composed. Nothing is said of what the server
  does with the rows it is sent: the statement is about an export whose answer consists
  of the rows the insertion has sent into the schema, in any order and cut into any number of
  replies, whatever the reason the server has for this answer. Then the callback gets the nodes the
  client has inserted.
\<close>

section \<open>What the server has been sent\<close>

text \<open>The insertions of nodes into one schema of a graph.\<close>

definition node_insertion :: "gostring \<Rightarrow> gostring \<Rightarrow> call \<Rightarrow> insert_request list" where
  "node_insertion g name c =
     (case c of
        InsertNodesCall h ctx req \<Rightarrow>
          if nq_GraphName req = g \<and> map ps_SchemaName (nq_Schemas req) = [name] then [req] else []
      | _ \<Rightarrow> [])"

definition node_insertions :: "gostring \<Rightarrow> gostring \<Rightarrow> call list \<Rightarrow> insert_request list" where
  "node_insertions g name cs = concat (map (node_insertion g name) cs)"

definition stored_rows :: "insert_request list \<Rightarrow> entity_row list" where
  "stored_rows reqs = concat (map (\<lambda>req. List.map_filter (\<lambda>r. r) (nq_Rows req)) reqs)"

text \<open>A reply of an export with one table of nodes.\<close>

definition node_reply :: "proto_schema \<Rightarrow> entity_row list \<Rightarrow> export_reply" where
  "node_reply s rows = \<lparr>xr_NodeTable = Some \<lparr>et_Schemas = [s], et_EntityRows = rows\<rparr>, xr_EdgeTable = None\<rparr>"

lemma node_insertions_simps [simp]:
  "node_insertions g name [] = []"
  "node_insertions g name (cs @ ds) = node_insertions g name cs @ node_insertions g name ds"
  "node_insertions g name (c # cs) = node_insertion g name c @ node_insertions g name cs"
  by (simp_all add: node_insertions_def)

lemma only_sends_no_insertions:
  assumes "only_sends ps m"
  shows "\<exists>cs. wd_Calls (fst (m w)) = wd_Calls w @ cs \<and> node_insertions g name cs = []"
proof -
  obtain cs where "wd_Calls (fst (m w)) = wd_Calls w @ cs" "list_all (starts ps) cs"
    using assms by (auto simp: allows_def extends_def)
  moreover have "node_insertion g name c = []" if "starts ps c" for c
    using that by (cases c) (simp_all add: starts_def node_insertion_def)
  ultimately show ?thesis by (auto simp: node_insertions_def list_all_iff)
qed

section \<open>What an automatic insertion stores\<close>

text \<open>The one call for a batch.\<close>

definition batch_request :: "insert_request_config \<Rightarrow> gostring \<Rightarrow> batch \<Rightarrow> insert_request" where
  "batch_request c g b = \<lparr>nq_GraphName = g, nq_Schemas = [insert_schema (ba_Schema b)],
     nq_Rows = map Some (ba_Rows b), nq_InsertType = irc_InsertType c, nq_Silent = irc_Silent c\<rparr>"

lemma batch_request_simps [simp]:
  "nq_Schemas (batch_request c g b) = [insert_schema (ba_Schema b)]"
  "nq_InsertType (batch_request c g b) = irc_InsertType c"
  "stored_rows [batch_request c g b] = ba_Rows b"
  by (simp_all add: batch_request_def stored_rows_def List.map_filter_def comp_def)

definition batch_requests ::
  "insert_request_config \<Rightarrow> gostring \<Rightarrow> (gostring \<rightharpoonup> batch) \<Rightarrow> gostring list \<Rightarrow> gostring \<Rightarrow> insert_request list"
  where
  "batch_requests c g batches names name =
     (if name \<in> set names then case batches name of None \<Rightarrow> [] | Some b \<Rightarrow> [batch_request c g b] else [])"

lemma node_insertion_batch:
  "node_insertion g name (InsertNodesCall h ctx (batch_request c g b))
     = (if sc_Name (ba_Schema b) = name then [batch_request c g b] else [])"
  by (simp add: node_insertion_def batch_request_def insert_schema_def)

lemma send_batches_insertions:
  assumes "send_batches env srv InsertNodesCall read c rc g batches names resps w = (w', Ret out)"
    "distinct names" "\<And>n b. batches n = Some b \<Longrightarrow> sc_Name (ba_Schema b) = n"
  shows "\<exists>cs. wd_Calls w' = wd_Calls w @ cs \<and> node_insertions g name cs = batch_requests c g batches names name"
  using assms(1,2)
proof (induction names arbitrary: resps w)
  case Nil
  then show ?case by (auto simp: act_lift_def batch_requests_def)
next
  case (Cons n names)
  show ?case
  proof (cases "batches n")
    case None
    with Cons.prems have "send_batches env srv InsertNodesCall read c rc g batches names resps w = (w', Ret out)"
      by simp
    from Cons.IH [OF this] Cons.prems(2) None show ?thesis by (auto simp: batch_requests_def)
  next
    case (Some b)
    let ?m = "insert_rows env srv InsertNodesCall c rc g [insert_schema (ba_Schema b)] (Ret (map Some (ba_Rows b)))"
    from Cons.prems(1) Some obtain reply response where m: "is_ret (snd (?m w))" and
      rest: "send_batches env srv InsertNodesCall read c rc g batches names
        (resps(sc_Name (ba_Schema b) \<mapsto> response)) (fst (?m w)) = (w', Ret out)"
      by (auto simp: act_iffs)
    from insert_rows_calls [of env srv InsertNodesCall c rc g "[insert_schema (ba_Schema b)]"
        "Ret (map Some (ba_Rows b))" w] m
    obtain h ctx where one: "wd_Calls (fst (?m w)) = wd_Calls w @ [InsertNodesCall h ctx (batch_request c g b)]"
      by (auto simp: batch_request_def)
    from Cons.IH [OF rest] Cons.prems(2) obtain cs where cs: "wd_Calls w' = wd_Calls (fst (?m w)) @ cs"
      "node_insertions g name cs = batch_requests c g batches names name" by auto
    then show ?thesis using one assms(3) [OF Some] Cons.prems(2) Some
      by (intro exI [of _ "InsertNodesCall h ctx (batch_request c g b) # cs"])
        (auto simp: node_insertion_batch batch_requests_def)
  qed
qed

lemma filter_indices:
  "filter (\<lambda>n. schema_of n = name) rows = map ((!) rows) (indices schema_of (map Some rows) name)"
proof -
  have "filter (\<lambda>n. schema_of n = name) (map ((!) rows) [0..<length rows])
      = map ((!) rows) (filter (\<lambda>i. schema_of (rows ! i) = name) [0..<length rows])"
    by (simp add: filter_map comp_def)
  also have "filter (\<lambda>i. schema_of (rows ! i) = name) [0..<length rows] = indices schema_of (map Some rows) name"
    unfolding indices_def by (rule filter_cong) (simp_all add: name_at_def)
  finally show ?thesis by (simp add: map_nth)
qed

text \<open>
  The calls of an automatic insertion hold exactly one insertion per schema name: the conversions, in
  order, of the nodes of that name.
\<close>

lemma auto_stored:
  assumes "InsertNodesBatchAuto env srv enum (map Some nodes) config w = (w', Ret out)"
    "the_insert_config config = (c, rc)" "distinct enum" "name \<in> set enum" "name \<in> nd_Schema ` set nodes"
    "snd (ShowNodeSchema env srv (Some rc) w) = Ret schemas" "found_schema schemas name = Some sch"
  shows "\<exists>rs cs. wd_Calls w' = wd_Calls w @ cs
    \<and> node_insertions (graph_of rc (cp_Config (wd_Pool w))) name cs
        = [batch_request c (graph_of rc (cp_Config (wd_Pool w))) \<lparr>ba_Rows = rs, ba_Schema = sch\<rparr>]
    \<and> list_all2 (\<lambda>n r. \<exists>i. doConvertSdkNodeRowToUltipaNodeRow env sch (Some n) i (Some rc) = Ret r)
        (filter (\<lambda>n. nd_Schema n = name) nodes) rs"
proof -
  let ?g = "graph_of rc (cp_Config (wd_Pool w))" and ?show = "ShowNodeSchema env srv (Some rc)"
  let ?at = "indices nd_Schema (map Some nodes)"
  from insert_auto_stages [OF assms(2) assms(1) [unfolded InsertNodesBatchAuto_def]] assms(6)
  obtain m batches news where d: "distributed (\<lambda>s row i. convertSdkNodeRowToUltipaNodeRow env s row i (Some rc))
      nd_Schema schemas (map Some nodes) news (m, batches)" and
    send: "send_batches env srv InsertNodesCall NewNodesInsertResponse c rc ?g batches enum Map.empty
      (fst (?show w)) = (w', Ret out)" by auto
  have b: "batches n = (if ?at n = [] then None
        else Some \<lparr>ba_Rows = map ((!) news) (?at n), ba_Schema = the (found_schema schemas n)\<rparr>)" for n
    using d by (simp add: distributed_def Let_def)
  have conv: "\<exists>s. found_schema schemas (nd_Schema (nodes ! i)) = Some s
      \<and> doConvertSdkNodeRowToUltipaNodeRow env s (Some (nodes ! i)) i (Some rc) = Ret (news ! i)"
    if "i < length nodes" for i
    using d that by (fastforce simp: distributed_def name_at_def convertSdkNodeRowToUltipaNodeRow_def go_simps)
  have at: "i < length nodes \<and> nd_Schema (nodes ! i) = n" if "i \<in> set (?at n)" for i n
    using that by (auto simp: indices_def name_at_def)
  have "sc_Name (ba_Schema b) = n" if s: "batches n = Some b" for n b
  proof -
    obtain i where "i \<in> set (?at n)" using s b [of n] by (cases "?at n") auto
    from at [OF this] conv [of i] obtain s where "found_schema schemas n = Some s" by auto
    then show ?thesis using s b [of n] found_schema_name [of schemas n s] by (auto split: if_splits)
  qed
  from send_batches_insertions [OF send assms(3) this, of name] obtain ds where
    ds: "wd_Calls w' = wd_Calls (fst (?show w)) @ ds"
    "node_insertions ?g name ds = batch_requests c ?g batches enum name" by blast
  have "only_sends [''show().schema()''] ?show"
    unfolding ShowNodeSchema_def by (intro sends_intros ShowSchema_sends)
  from only_sends_no_insertions [OF this] obtain es where
    es: "wd_Calls (fst (?show w)) = wd_Calls w @ es" "node_insertions ?g name es = []" by blast
  have "?at name \<noteq> []"
    using assms(5) filter_indices [of nd_Schema name nodes] by (auto simp: filter_empty_conv)
  then have "batch_requests c ?g batches enum name
      = [batch_request c ?g \<lparr>ba_Rows = map ((!) news) (?at name), ba_Schema = sch\<rparr>]"
    using assms(4,7) b [of name] by (simp add: batch_requests_def)
  moreover have "list_all2 (\<lambda>n r. \<exists>i. doConvertSdkNodeRowToUltipaNodeRow env sch (Some n) i (Some rc) = Ret r)
        (filter (\<lambda>n. nd_Schema n = name) nodes) (map ((!) news) (?at name))"
    unfolding filter_indices using at [of _ name] conv assms(7)
    by (fastforce simp: list_all2_map1 list_all2_map2 list.rel_refl_strong intro!: list.rel_refl_strong)
  ultimately show ?thesis using ds es
    by (intro exI [of _ "map ((!) news) (?at name)"] exI [of _ "es @ ds"]) simp
qed

section \<open>What an export gives back\<close>

text \<open>An export that gets a client, whose rows all convert and whose callback never fails, returns.\<close>

lemma export_loop_returns:
  assumes "\<forall>reply \<in> set replies. rows_convert env schemaName reply" "\<forall>given. cb given = None"
  shows "\<exists>g. export_loop env schemaName schedules cb replies None k given = (g, Ret ())"
  using assms(1)
proof (induction replies arbitrary: k given)
  case (Cons reply replies)
  have part: "\<exists>g. export_part convert cb t (g', None) = (g, Ret None)"
    if "\<And>t'. t = Some t' \<Longrightarrow> \<exists>c. convert t' = Ret c" for convert t g'
  proof (cases t)
    case (Some t')
    with that obtain c where "convert t' = Ret c" by blast
    then show ?thesis using Some assms(2) by (simp add: export_part_def)
  qed (simp add: export_part_def)
  have rows: "rows_convert env schemaName reply" using Cons.prems by simp
  have "\<exists>g. export_part (export_nodes env schemaName (fst (schedules k))) cb (xr_NodeTable reply) (given, None)
      = (g, Ret None)"
    using rows by (intro part)
      (auto simp: export_nodes_def rows_convert_def list_all_iff is_ret_iff export_table_converts)
  then obtain h where n: "export_part (export_nodes env schemaName (fst (schedules k))) cb (xr_NodeTable reply)
      (given, None) = (h, Ret None)" ..
  have "\<exists>g. export_part (export_edges env (snd (schedules k))) cb (xr_EdgeTable reply) (h, None) = (g, Ret None)"
    using rows by (intro part)
      (auto simp: export_edges_def rows_convert_def list_all_iff is_ret_iff export_table_converts)
  then obtain h' where e: "export_part (export_edges env (snd (schedules k))) cb (xr_EdgeTable reply) (h, None)
      = (h', Ret None)" ..
  show ?case using n e Cons.IH [of "k + 1" h'] Cons.prems by simp
qed simp

lemma client_and_context_calls:
  "client_and_context env srv config w = (u, Ret (client, ctx)) \<Longrightarrow> wd_Calls u = wd_Calls w"
  using GetClient_Some [of srv "the_config config" w]
  by (auto simp: client_and_context_def GetControlClient_def GetControlClientAndConfig_def
      api_NewContext_def act_bind_def act_lift_def split: prod.splits go.splits)

lemma export_returns:
  assumes "client_and_context env srv config w = (u, Ret (client, ctx))" "\<forall>given. cb given = None"
    "sv_export srv (wd_Calls w @ [ControlCall client ctx
       (ExportRequest request (uc_MaxRecvSize (cp_Config (wd_Pool w))))]) = Inr (records, None)"
    "\<forall>reply \<in> set records. rows_convert env (xq_Schema request) reply"
  shows "\<exists>w'. Export env srv schedules request config cb w
    = (w', concat (map (deliveries env (xq_Schema request)) records), Ret ())"
proof -
  obtain g where "export_loop env (xq_Schema request) schedules cb records None 0 [] = (g, Ret ())"
    using export_loop_returns [OF assms(4,2)] by blast
  moreover from this have "g = concat (map (deliveries env (xq_Schema request)) records)"
    using export_loop_Ret by fastforce
  ultimately show ?thesis
    using assms(1,3) client_and_context_calls [OF assms(1)]
    by (simp add: Export_def act_bind_def receive_sum_def Let_def)
qed

text \<open>A stream of rows that all convert, however it is cut into tables.\<close>

lemma deliveries_of_tables:
  assumes "list_all2 (\<lambda>n r. \<exists>n'. export_node env \<lparr>et_Schemas = [s], et_EntityRows = []\<rparr> name r = Ret n' \<and> R n n')
      ns (concat tables)"
  shows "\<exists>parts. concat (map (deliveries env name) (map (node_reply s) tables))
      = map (\<lambda>p. GotNodes (map Some p)) parts \<and> list_all2 R ns (concat parts)"
proof -
  let ?f = "export_node env \<lparr>et_Schemas = [s], et_EntityRows = []\<rparr> name"
  let ?parts = "map (map (the \<circ> as_kept \<circ> ?f)) tables"
  from as_kept_rows [OF assms] obtain ys where
    ys: "map (as_kept \<circ> ?f) (concat tables) = map Some ys" "list_all2 R ns ys" by blast
  have "deliveries env name (node_reply s t) = [GotNodes (map (as_kept \<circ> ?f) t)]" for t
    by (simp add: deliveries_def node_reply_def export_node_def comp_def)
  moreover have "map (as_kept \<circ> ?f) t = map Some (map (the \<circ> as_kept \<circ> ?f) t)" if "t \<in> set tables" for t
  proof -
    have "as_kept (?f r) \<noteq> None" if "r \<in> set t" for r
    proof -
      have "(as_kept \<circ> ?f) r \<in> set (map (as_kept \<circ> ?f) (concat tables))"
        using \<open>t \<in> set tables\<close> that by (metis (no_types) image_eqI list.set_map set_concat UN_I)
      then show ?thesis unfolding ys(1) by auto
    qed
    then show ?thesis by auto
  qed
  ultimately have "concat (map (deliveries env name) (map (node_reply s) tables))
      = map (\<lambda>p. GotNodes (map Some p)) ?parts" by (simp add: comp_def)
  moreover have "concat ?parts = map the (map (as_kept \<circ> ?f) (concat tables))"
    by (simp add: map_concat comp_def)
  then have "concat ?parts = ys" unfolding ys(1) by (simp add: comp_def)
  ultimately show ?thesis using ys(2) by blast
qed

lemma list_all2_reorder_right:
  assumes "list_all2 R xs ys" "mset ys' = mset ys"
  shows "\<exists>xs'. list_all2 R xs' ys' \<and> mset xs' = mset xs"
  using list_all2_reorder_left_invariance [of "R\<inverse>\<inverse>" ys xs ys'] assms by (simp add: list.rel_conversep)

text \<open>An export whose answer is a batch of converted rows, in any order and any parts.\<close>

lemma batch_exported:
  assumes "client_and_context env srv config w = (u, Ret (client, ctx))" "\<forall>given. cb given = None"
    "sv_export srv (wd_Calls w @ [ControlCall client ctx (ExportRequest request
       (uc_MaxRecvSize (cp_Config (wd_Pool w))))]) = Inr (map (node_reply s) tables, None)"
    "mset (concat tables) = mset rs" "xq_Schema request = name"
    "list_all2 (\<lambda>n r. \<exists>n'. export_node env \<lparr>et_Schemas = [s], et_EntityRows = []\<rparr> name r = Ret n'
      \<and> R n n') ns rs"
  shows "\<exists>w' parts. Export env srv schedules request config cb w = (w', map (\<lambda>p. GotNodes (map Some p)) parts, Ret ())
    \<and> rel_mset R (mset ns) (mset (concat parts))"
proof -
  let ?f = "export_node env \<lparr>et_Schemas = [s], et_EntityRows = []\<rparr> name"
  from list_all2_reorder_right [OF assms(6,4)] obtain ks where
    ks: "list_all2 (\<lambda>n r. \<exists>n'. ?f r = Ret n' \<and> R n n') ks (concat tables)" "mset ks = mset ns" by blast
  from deliveries_of_tables [OF ks(1)] obtain parts where
    parts: "concat (map (deliveries env name) (map (node_reply s) tables))
      = map (\<lambda>p. GotNodes (map Some p)) parts" "list_all2 R ks (concat parts)" by blast
  have "is_ret (?f r)" if r: "r \<in> set (concat tables)" for r
  proof -
    obtain j where "j < length (concat tables)" "concat tables ! j = r"
      using r unfolding in_set_conv_nth by blast
    then show ?thesis using list_all2_nthD2 [OF ks(1), of j] by (auto simp: is_ret_iff)
  qed
  then have "\<forall>reply \<in> set (map (node_reply s) tables). rows_convert env (xq_Schema request) reply"
    by (auto simp: rows_convert_def node_reply_def assms(5) list_all_iff export_node_def)
  from export_returns [OF assms(1-3) this, of schedules] obtain w' where
    "Export env srv schedules request config cb w = (w', map (\<lambda>p. GotNodes (map Some p)) parts, Ret ())"
    unfolding assms(5) parts(1) by blast
  moreover have "rel_mset R (mset ns) (mset (concat parts))"
    using parts(2) ks(2) unfolding rel_mset_def by blast
  ultimately show ?thesis by blast
qed

text \<open>
  Property C4. What a client inserts can be read back through the driver: after an automatic insertion of
  nodes of any number of schemas that returned, take an export of one of these schemas that gets a
  connection, whose callback never fails, and whose answer by the server is, in any order and in any
  number of replies, the rows the calls of the insertion carried into that schema, under the schema
  message of the insertion. The export returns, and it has given its callback the nodes of that schema,
  each once and no other: the same ids, uuids and schema, and under every property the same value in the
  sense of the statement on scalars. The schema names every property once, and every node of it
  has for every property a value of its Go type. The enumeration of the batches and the schedules of the
  goroutines are arbitrary.
\<close>

theorem auto_inserted_nodes_exported:
  fixes env :: "'a json_env_scheme" and w :: world and sch :: schema and name g :: gostring
    and nodes :: "node list" and config :: "insert_request_config option"
  defines "ps \<equiv> data_properties (sc_Properties sch)" and "rc \<equiv> snd (the_insert_config config)"
    and "mine \<equiv> filter (\<lambda>n. nd_Schema n = name) nodes"
  assumes inserted: "InsertNodesBatchAuto env srv enum (map Some nodes) config w = (w', Ret out)"
      "distinct enum" "set enum = nd_Schema ` set nodes" "g = graph_of rc (cp_Config (wd_Pool w))"
    and schema: "snd (ShowNodeSchema env srv (Some rc) w) = Ret schemas" "found_schema schemas name = Some sch"
      "distinct (map prop_name ps)"
    and nodes: "mine \<noteq> []" "\<And>n. n \<in> set mine \<Longrightarrow> \<exists>v. nd_Values n = Some v \<and> well_typed ps v"
    and exporting: "client_and_context env srv rconfig w' = (u, Ret (client, ctx))" "\<forall>given. cb given = None"
      "xq_Schema request = name"
    and answer: "sv_export srv (wd_Calls w' @ [ControlCall client ctx (ExportRequest request
        (uc_MaxRecvSize (cp_Config (wd_Pool w'))))]) = Inr (map (node_reply (insert_schema sch)) tables, None)"
      "mset (concat tables)
        = mset (stored_rows (node_insertions g name (drop (length (wd_Calls w)) (wd_Calls w'))))"
  shows "\<exists>w'' parts. Export env srv schedules request rconfig cb w'
      = (w'', map (\<lambda>p. GotNodes (map Some p)) parts, Ret ())
    \<and> rel_mset (same_node sch) (mset mine) (mset (concat parts))"
proof -
  obtain c where config: "the_insert_config config = (c, rc)" by (cases "the_insert_config config") (simp add: rc_def)
  have name: "sc_Name sch = name" by (rule found_schema_name [OF schema(2)])
  have mem: "name \<in> nd_Schema ` set nodes" using nodes(1) by (auto simp: mine_def filter_empty_conv)
  then have "name \<in> set enum" by (simp add: inserted(3))
  from auto_stored [OF inserted(1) config inserted(2) this mem schema(1,2)]
  obtain rs cs where calls: "wd_Calls w' = wd_Calls w @ cs"
    "node_insertions g name cs = [batch_request c g \<lparr>ba_Rows = rs, ba_Schema = sch\<rparr>]"
    and rs: "list_all2 (\<lambda>n r. \<exists>i. doConvertSdkNodeRowToUltipaNodeRow env sch (Some n) i (Some rc) = Ret r) mine rs"
    unfolding inserted(4) [symmetric] mine_def [symmetric] by blast
  have len: "length rs = length mine" using rs by (simp add: list_all2_lengthD)
  have rows: "list_all2 (\<lambda>n r. \<exists>n'. export_node env \<lparr>et_Schemas = [insert_schema sch], et_EntityRows = []\<rparr> name r
      = Ret n' \<and> same_node sch n n') mine rs"
  proof (rule list_all2_all_nthI)
    fix i assume i: "i < length mine"
    then obtain v where v: "nd_Values (mine ! i) = Some v" "well_typed ps v" using nodes(2) [OF nth_mem] by blast
    from rs i obtain k where "doConvertSdkNodeRowToUltipaNodeRow env sch (Some (mine ! i)) k (Some rc) = Ret (rs ! i)"
      by (auto simp: list_all2_conv_all_nth)
    from exported_row [OF v(1) schema(3) [unfolded ps_def] v(2) [unfolded ps_def] this] name
    show "\<exists>n'. export_node env \<lparr>et_Schemas = [insert_schema sch], et_EntityRows = []\<rparr> name (rs ! i) = Ret n'
      \<and> same_node sch (mine ! i) n'" by simp
  qed (simp add: len)
  have "mset (concat tables) = mset rs" using answer(2) calls by simp
  from batch_exported [OF exporting(1,2) answer(1) this exporting(3) rows] show ?thesis .
qed

section \<open>A server that keeps what it is sent\<close>

definition keeping_server :: server where
  "keeping_server = schema_server\<lparr>sv_export := (\<lambda>calls.
     case last calls of
       ControlCall h ctx (ExportRequest xq m) \<Rightarrow>
         let reqs = node_insertions (xq_Graph xq) (xq_Schema xq) (butlast calls)
         in Inr (case reqs of [] \<Rightarrow> [] | req # _ \<Rightarrow> [node_reply (hd (nq_Schemas req)) (stored_rows reqs)], None)
     | _ \<Rightarrow> Inr ([], None))\<rparr>"

definition int_env :: json_env where
  "int_env = toy_json_env\<lparr>js_props := (\<lambda>_. Ret [Some \<lparr>pj_PropName = ''x'', pj_PropType = ''int64'',
     pj_PropDescription = [], pj_PropLte = [], pj_PropExtra = []\<rparr>])\<rparr>"

definition int_node :: "gostring \<Rightarrow> uuid \<Rightarrow> gostring \<Rightarrow> int64 \<Rightarrow> node" where
  "int_node i u name v = \<lparr>nd_ID = i, nd_UUID = u, nd_Schema = name, nd_Values = Some [''x'' \<mapsto> GInt64 v]\<rparr>"

definition int_nodes :: "node list" where
  "int_nodes = [int_node ''a'' 1 ''s'' 7, int_node ''b'' 2 ''t'' 8, int_node ''c'' 3 ''s'' 9]"

definition int_schema :: "schema \<Rightarrow> bool" where
  "int_schema s \<longleftrightarrow> map prop_name (data_properties (sc_Properties s)) = [''x''] \<and>
     map prop_type (data_properties (sc_Properties s)) = [PT_INT64]"

lemma int_schemas:
  obtains s t where
    "snd (ShowNodeSchema int_env keeping_server (Some empty_request_config) sample_world) = Ret [s, t]"
    "sc_Name s = ''s''" "sc_Name t = ''t''" "int_schema s" "int_schema t"
proof -
  have "case snd (ShowNodeSchema int_env keeping_server (Some empty_request_config) sample_world) of
      Ret ss \<Rightarrow> map sc_Name ss = [''s'', ''t''] \<and> list_all int_schema ss | _ \<Rightarrow> False"
    by code_simp
  then show thesis using that by (auto split: go.splits)
qed

lemma int_node_typed:
  assumes "int_schema s"
  shows "distinct (map prop_name (data_properties (sc_Properties s)))"
    "well_typed (data_properties (sc_Properties s)) [''x'' \<mapsto> GInt64 v]"
  using assms by (auto simp: int_schema_def well_typed_def)

lemma int_node_converts:
  assumes "int_schema s"
  shows "\<exists>r. convertSdkNodeRowToUltipaNodeRow env s (Some (int_node i u n v)) k c = Ret r"
proof -
  have "dom [''x'' \<mapsto> GInt64 v] = prop_name ` set (data_properties (sc_Properties s))"
    using assms by (auto simp: int_schema_def)
  then have "checkNodeProperties s (Some (int_node i u n v)) k = Ret ()"
    using check_values_iff [of "[''x'' \<mapsto> GInt64 v]" "sc_Properties s" k] int_node_typed(1) [OF assms]
    by (simp add: checkNodeProperties_def int_node_def)
  moreover obtain r where "doConvertSdkNodeRowToUltipaNodeRow env s (Some (int_node i u n v)) k c = Ret r"
    using converted_node_row [of "int_node i u n v" "[''x'' \<mapsto> GInt64 v]" s env k c] int_node_typed [OF assms]
    by (auto simp: int_node_def)
  ultimately show ?thesis by (simp add: convertSdkNodeRowToUltipaNodeRow_def)
qed

lemma int_nodes_distributed:
  assumes "sc_Name s = ''s''" "sc_Name t = ''t''" "int_schema s" "int_schema t"
  shows "\<exists>st. distribute (\<lambda>s row i. convertSdkNodeRowToUltipaNodeRow env s row i c) nd_Schema
    missing [s, t] 0 (map Some int_nodes) (Map.empty, Map.empty) = Ret st"
proof -
  obtain r1 r2 r3 where
    "convertSdkNodeRowToUltipaNodeRow env s (Some (int_node ''a'' 1 ''s'' 7)) 0 c = Ret r1"
    "convertSdkNodeRowToUltipaNodeRow env t (Some (int_node ''b'' 2 ''t'' 8)) (Suc 0) c = Ret r2"
    "convertSdkNodeRowToUltipaNodeRow env s (Some (int_node ''c'' 3 ''s'' 9)) (Suc (Suc 0)) c = Ret r3"
    using int_node_converts assms(3,4) by metis
  moreover have "nd_Schema (int_node i u n v) = n" for i u n v by (simp add: int_node_def)
  ultimately show ?thesis
    using assms by (simp add: int_nodes_def deref_def batch_for_def Let_def)
qed

definition int_request :: export_request where
  "int_request = \<lparr>xq_DbType = DBNODE, xq_Limit = 10, xq_SelectProperties = [''x''], xq_Schema = ''s'',
     xq_Graph = uc_DefaultGraph (cp_Config (wd_Pool sample_world))\<rparr>"

lemma same_nodes_ids:
  assumes "rel_mset (same_node sch) ns ns'"
  shows "image_mset nd_ID ns' = image_mset nd_ID ns"
proof -
  from assms obtain xs ys where l: "mset xs = ns" "mset ys = ns'" "list_all2 (same_node sch) xs ys"
    unfolding rel_mset_def by blast
  have "map nd_ID ys = map nd_ID xs" using l(3)
    by (induction rule: list_all2_induct) (simp_all add: same_node_def)
  then show ?thesis using l(1,2) by (metis mset_map)
qed

lemma forced_client:
  assumes "cp_Config (wd_Pool w) = cp_Config (wd_Pool sample_world)"
  shows "is_ret (snd (client_and_context env keeping_server (Some (empty_request_config\<lparr>rc_Host := ''a''\<rparr>)) w))"
  using assms
  by (simp add: client_and_context_def GetControlClient_def GetControlClientAndConfig_def GetClient_def
      api_GetConn_def the_config_def snd_act_bind NewConnection_def keeping_server_def schema_server_def
      sample_server_def MergeRequestConfig_def empty_request_config_def sample_world_def sample_pool_def sample_pool_config_def
      deref_def api_NewContext_def NewContext_def Let_def)

lemma int_auto:
  "\<exists>out. snd (InsertNodesBatchAuto int_env keeping_server [''t'', ''s''] (map Some int_nodes) None sample_world)
    = Ret out"
proof -
  let ?show = "ShowNodeSchema int_env keeping_server (Some empty_request_config) sample_world"
  obtain s t where st: "snd ?show = Ret [s, t]" "sc_Name s = ''s''" "sc_Name t = ''t''" "int_schema s" "int_schema t"
    by (rule int_schemas)
  obtain b where d: "distribute (\<lambda>s row i. convertSdkNodeRowToUltipaNodeRow int_env s row i
      (Some empty_request_config)) nd_Schema ''Schema not found : '' [s, t] 0 (map Some int_nodes)
      (Map.empty, Map.empty) = Ret b"
    using int_nodes_distributed [OF st(2-5)] by fastforce
  have "cp_Actives (wd_Pool (fst ?show)) = map Some [''a'', ''b''] \<and> cp_RandomTick (wd_Pool (fst ?show)) = 1"
    by code_simp
  then show ?thesis
    using sample_auto_insertion [OF _ st(1) _ _ d, of "[''t'', ''s'']"]
    by (auto simp: keeping_server_def schema_server_def)
qed

lemma int_client:
  "is_ret (snd (client_and_context int_env keeping_server (Some (empty_request_config\<lparr>rc_Host := ''a''\<rparr>))
     (fst (InsertNodesBatchAuto int_env keeping_server [''t'', ''s''] (map Some int_nodes) None sample_world))))"
proof -
  have "allowed_insert {} None" by (simp add: allowed_insert_def)
  from insert_stays(5) [OF this, of int_env keeping_server "[''t'', ''s'']" "map Some int_nodes"]
  obtain tick where "wd_Pool (fst (InsertNodesBatchAuto int_env keeping_server [''t'', ''s''] (map Some int_nodes)
      None sample_world)) = (wd_Pool sample_world)\<lparr>cp_RandomTick := tick\<rparr>"
    unfolding allows_def reaches_def extends_def by blast
  then show ?thesis by (intro forced_client) simp
qed

lemma auto_inserted_nodes_exported_witness:
  "\<exists>w'' parts. Export int_env keeping_server (\<lambda>_. ([Main, Row 0], [])) int_request
      (Some (empty_request_config\<lparr>rc_Host := ''a''\<rparr>)) (\<lambda>_. None)
      (fst (InsertNodesBatchAuto int_env keeping_server [''t'', ''s''] (map Some int_nodes) None sample_world))
    = (w'', map (\<lambda>p. GotNodes (map Some p)) parts, Ret ()) \<and>
    image_mset nd_ID (mset (concat parts)) = {#''a'', ''c''#}"
proof -
  let ?auto = "InsertNodesBatchAuto int_env keeping_server [''t'', ''s''] (map Some int_nodes) None sample_world"
  obtain s t where st: "snd (ShowNodeSchema int_env keeping_server (Some empty_request_config) sample_world) = Ret [s, t]"
    "sc_Name s = ''s''" "int_schema s" by (rule int_schemas) blast
  obtain out where "snd ?auto = Ret out" using int_auto by blast
  then have auto: "?auto = (fst ?auto, Ret out)" by (simp add: prod_eq_iff)
  have mine: "filter (\<lambda>n. nd_Schema n = ''s'') int_nodes = [int_node ''a'' 1 ''s'' 7, int_node ''c'' 3 ''s'' 9]"
    by (simp add: int_nodes_def int_node_def)
  have config: "the_insert_config None = (\<lparr>irc_RequestConfig = None, irc_InsertType = INSERT_NORMAL,
      irc_Silent = False\<rparr>, empty_request_config)"
    by (simp add: the_insert_config_def the_config_def)
  have g: "graph_of empty_request_config c = uc_DefaultGraph c" for c
    by (simp add: graph_of_def empty_request_config_def)
  obtain u client ctx where client: "client_and_context int_env keeping_server
      (Some (empty_request_config\<lparr>rc_Host := ''a''\<rparr>)) (fst ?auto) = (u, Ret (client, ctx))"
    using int_client by (auto simp: is_ret_iff prod_eq_iff)
  have "''s'' \<in> set [''t'', ''s'']" "''s'' \<in> nd_Schema ` set int_nodes" "distinct [''t'', ''s'']"
    by (auto simp: int_nodes_def int_node_def)
  from auto_stored [OF auto config this(3,1,2) st(1)] st(2) obtain rs where
    stored: "node_insertions (uc_DefaultGraph (cp_Config (wd_Pool sample_world))) ''s'' (wd_Calls (fst ?auto))
      = [batch_request \<lparr>irc_RequestConfig = None, irc_InsertType = INSERT_NORMAL, irc_Silent = False\<rparr>
          (uc_DefaultGraph (cp_Config (wd_Pool sample_world))) \<lparr>ba_Rows = rs, ba_Schema = s\<rparr>]"
    by (auto simp: found_schema_def g sample_world_def)
  note run = auto_inserted_nodes_exported [where config = None and env = int_env and nodes = int_nodes and sch = s
      and name = "''s''" and request = int_request and tables = "[rs]", OF auto _ _ refl]
  have "\<exists>w'' parts. Export int_env keeping_server (\<lambda>_. ([Main, Row 0], [])) int_request
      (Some (empty_request_config\<lparr>rc_Host := ''a''\<rparr>)) (\<lambda>_. None) (fst ?auto)
      = (w'', map (\<lambda>p. GotNodes (map Some p)) parts, Ret ()) \<and>
    rel_mset (same_node s) (mset (filter (\<lambda>n. nd_Schema n = ''s'') int_nodes)) (mset (concat parts))"
  proof (rule run)
    show "set [''t'', ''s''] = nd_Schema ` set int_nodes" by (auto simp: int_nodes_def int_node_def)
    show "snd (ShowNodeSchema int_env keeping_server (Some (snd (the_insert_config None))) sample_world) = Ret [s, t]"
      by (simp add: config st(1))
    show "found_schema [s, t] ''s'' = Some s" by (simp add: found_schema_def st(2))
    show "\<exists>v. nd_Values n = Some v \<and> well_typed (data_properties (sc_Properties s)) v"
      if "n \<in> set (filter (\<lambda>n. nd_Schema n = ''s'') int_nodes)" for n
      using that int_node_typed(2) [OF st(3)] by (auto simp: mine int_node_def)
    show "sv_export keeping_server (wd_Calls (fst ?auto) @ [ControlCall client ctx
        (ExportRequest int_request (uc_MaxRecvSize (cp_Config (wd_Pool (fst ?auto)))))])
      = Inr (map (node_reply (insert_schema s)) [rs], None)"
      using stored by (simp add: keeping_server_def int_request_def)
    show "mset (concat [rs]) = mset (stored_rows (node_insertions (graph_of (snd (the_insert_config None))
        (cp_Config (wd_Pool sample_world))) ''s'' (drop (length (wd_Calls sample_world)) (wd_Calls (fst ?auto)))))"
      using stored by (simp add: config g sample_world_def)
  qed (use int_node_typed(1) [OF st(3)] client in
    \<open>simp_all add: mine int_request_def\<close>)
  then show ?thesis by (auto simp: mine int_node_def dest!: same_nodes_ids)
qed

end
