(* ===== verification/Regexp.thy ===== *)
theory Regexp
  imports Names
begin

text \<open>
  The part of Go's \<open>regexp\<close> that the driver's patterns use, over the bytes of a string: the first
  match from the left, and of the matches there the one that tries alternatives and repetitions
  in the order of the pattern, with the text of every group. Classes hold ASCII only or leave out
  ASCII only and are repeated, so they are read byte by byte; a dot takes one rune. The patterns that are
  searched for begin with ASCII, so a search by bytes finds what a search by runes finds.
\<close>

section \<open>Runes\<close>

definition byte_at :: "gostring \<Rightarrow> nat \<Rightarrow> nat" where
  "byte_at s i = (if i < length s then of_char (s ! i) else 0)"

definition between :: "nat \<Rightarrow> nat \<Rightarrow> nat \<Rightarrow> bool" where
  "between a b n \<longleftrightarrow> a \<le> n \<and> n \<le> b"

text \<open>The bytes of the first rune of a string that is not empty; an invalid byte is a rune.\<close>

definition rune_len :: "gostring \<Rightarrow> nat" where
  "rune_len s =
     (let a = byte_at s 0; b = byte_at s 1;
          cont = (\<lambda>i. between 0x80 0xBF (byte_at s i))
      in if between 0xC2 0xDF a \<and> cont 1 then 2
         else if cont 2 \<and> (a = 0xE0 \<and> between 0xA0 0xBF b
                \<or> a = 0xED \<and> between 0x80 0x9F b
                \<or> between 0xE1 0xEF a \<and> a \<noteq> 0xED \<and> cont 1) then 3
         else if cont 2 \<and> cont 3 \<and> (a = 0xF0 \<and> between 0x90 0xBF b
                \<or> a = 0xF4 \<and> between 0x80 0x8F b
                \<or> between 0xF1 0xF3 a \<and> cont 1) then 4
         else 1)"

text \<open>The spellings of a letter when case is ignored; two letters have one beyond ASCII.\<close>

definition spellings :: "char \<Rightarrow> gostring list" where
  "spellings c =
     to_lower [c] #
     (if is_letter c then [to_upper [c]] else []) @
     (if to_lower [c] = ''k'' then [[CHR 0xE2, CHR 0x84, CHR 0xAA]]
      else if to_lower [c] = ''s'' then [[CHR 0xC5, CHR 0xBF]] else [])"

section \<open>Patterns\<close>

datatype re =
    Eps
  | Bol
  | Byte "char \<Rightarrow> bool"
  | AnyRune
  | Fold char
  | Cat re re
  | Alt re re
  | Star re
  | Cap nat re

type_synonym captures = "nat \<Rightarrow> gostring"

text \<open>A repetition is tried before leaving the loop, and must take at least one byte.\<close>

function star_iter ::
  "(gostring \<Rightarrow> captures \<Rightarrow> (gostring \<times> captures) list) \<Rightarrow> gostring \<Rightarrow> captures
   \<Rightarrow> (gostring \<times> captures) list" where
  "star_iter f s c =
     concat (map (\<lambda>(s', c'). if length s' < length s then star_iter f s' c' else []) (f s c)) @ [(s, c)]"
  by pat_completeness auto
termination by (relation "measure (\<lambda>(f, s, c). length s)") auto

text \<open>All ways to match at the front of \<open>s\<close>, a suffix of \<open>t\<close>, in the order they are tried.\<close>

primrec matches ::
  "re \<Rightarrow> gostring \<Rightarrow> gostring \<Rightarrow> captures \<Rightarrow> (gostring \<times> captures) list" where
  "matches Eps t s c = [(s, c)]"
| "matches Bol t s c = (if length s = length t then [(s, c)] else [])"
| "matches (Byte p) t s c = (case s of x # xs \<Rightarrow> if p x then [(xs, c)] else [] | [] \<Rightarrow> [])"
| "matches AnyRune t s c =
     (case s of [] \<Rightarrow> [] | x # xs \<Rightarrow> if x = CHR 10 then [] else [(drop (rune_len s) s, c)])"
| "matches (Fold x) t s c =
     map (\<lambda>p. (drop (length p) s, c)) (filter (\<lambda>p. has_prefix s p) (spellings x))"
| "matches (Cat a b) t s c = concat (map (\<lambda>(s', c'). matches b t s' c') (matches a t s c))"
| "matches (Alt a b) t s c = matches a t s c @ matches b t s c"
| "matches (Star a) t s c = star_iter (matches a t) s c"
| "matches (Cap n a) t s c =
     map (\<lambda>(s', c'). (s', c'(n := take (length s - length s') s))) (matches a t s c)"

definition Opt :: "re \<Rightarrow> re" where
  "Opt r = Alt r Eps"

definition Plus :: "re \<Rightarrow> re" where
  "Plus r = Cat r (Star r)"

fun Lit :: "gostring \<Rightarrow> re" where
  "Lit [] = Eps" | "Lit (x # xs) = Cat (Byte (\<lambda>c. c = x)) (Lit xs)"

fun Alts :: "re list \<Rightarrow> re" where
  "Alts [] = Byte (\<lambda>c. False)" | "Alts [r] = r" | "Alts (r # s # rs) = Alt r (Alts (s # rs))"

section \<open>Searching\<close>

text \<open>What comes before the first match from \<open>s\<close> on, the match, its groups, and what comes after.\<close>

fun find_from :: "re \<Rightarrow> gostring \<Rightarrow> gostring \<Rightarrow> (gostring \<times> gostring \<times> captures \<times> gostring) option" where
  "find_from r t s =
     (case matches r t s (\<lambda>_. []) of
        (s', c) # _ \<Rightarrow> Some ([], take (length s - length s') s, c, s')
      | [] \<Rightarrow> (case s of
            [] \<Rightarrow> None
          | x # xs \<Rightarrow> map_option (\<lambda>(before, m). (x # before, m)) (find_from r t xs)))"

declare find_from.simps [simp del]

definition re_find :: "re \<Rightarrow> gostring \<Rightarrow> (gostring \<times> captures) option" where
  "re_find r t = map_option (\<lambda>(before, m, c, after). (m, c)) (find_from r t t)"

definition re_match :: "re \<Rightarrow> gostring \<Rightarrow> bool" where
  "re_match r t \<longleftrightarrow> find_from r t t \<noteq> None"

text \<open>
  All matches from the left that do not overlap, with what is before each, and what is after the
  last; the patterns searched for so take at least one byte.
\<close>

function find_all ::
  "re \<Rightarrow> gostring \<Rightarrow> gostring \<Rightarrow> (gostring \<times> captures) list \<times> gostring" where
  "find_all r t s =
     (case find_from r t s of
        None \<Rightarrow> ([], s)
      | Some (before, m, c, after) \<Rightarrow>
          if length after < length s
          then (case find_all r t after of (ms, rest) \<Rightarrow> ((before, c) # ms, rest))
          else ([], s))"
  by pat_completeness auto
termination by (relation "measure (\<lambda>(r, t, s). length s)") auto

declare find_all.simps [simp del] star_iter.simps [simp del]

definition re_replace :: "re \<Rightarrow> (captures \<Rightarrow> gostring) \<Rightarrow> gostring \<Rightarrow> gostring" where
  "re_replace r repl t =
     (case find_all r t t of (ms, rest) \<Rightarrow> concat (map (\<lambda>(before, c). before @ repl c) ms) @ rest)"

section \<open>How the patterns of the driver match\<close>

lemma star_byte [simp]:
  "matches (Star (Byte p)) t [] c = [([], c)]"
  "matches (Star (Byte p)) t (x # xs) c =
     (if p x then matches (Star (Byte p)) t xs c else []) @ [(x # xs, c)]"
  by (simp_all add: star_iter.simps [of _ "[]"] star_iter.simps [of _ "x # xs"])

declare matches.simps(8) [simp del]

text \<open>A run of a class that what follows cannot begin with is taken whole.\<close>

lemma star_run:
  assumes "list_all p u" "v = [] \<or> \<not> p (hd v)"
  shows "matches (Star (Byte p)) t (u @ v) c = (v, c) # map (\<lambda>i. (drop i u @ v, c)) (rev [0..<length u])"
  using assms(1)
proof (induction u)
  case Nil
  then show ?case using assms(2) by (cases v) auto
next
  case (Cons x u)
  have e: "rev [0..<Suc (length u)] = map Suc (rev [0..<length u]) @ [0]"
    by (simp add: map_Suc_upt [symmetric] rev_map upt_conv_Cons del: upt_Suc)
  show ?case using Cons by (simp add: e comp_def del: upt_Suc)
qed

text \<open>What must not match where the run could have ended earlier.\<close>

definition stops :: "(char \<Rightarrow> bool) \<Rightarrow> re \<Rightarrow> gostring \<Rightarrow> bool" where
  "stops p r t \<longleftrightarrow> (\<forall>s c. s \<noteq> [] \<longrightarrow> p (hd s) \<longrightarrow> matches r t s c = [])"

lemma stops_Byte [simp]: "stops p (Byte q) t \<longleftrightarrow> (\<forall>x. p x \<longrightarrow> \<not> q x)"
proof
  assume h: "stops p (Byte q) t"
  show "\<forall>x. p x \<longrightarrow> \<not> q x"
  proof (intro allI impI notI)
    fix x assume "p x" "q x"
    then show False using h [unfolded stops_def, rule_format, of "[x]"] by simp
  qed
qed (auto simp: stops_def neq_Nil_conv)

lemma stops_Cat [simp]: "stops p a t \<Longrightarrow> stops p (Cat a b) t"
  by (simp add: stops_def)

lemma stops_Lit: "\<not> p x \<Longrightarrow> stops p (Lit (x # xs)) t"
  by (simp add: stops_def split: list.split) (metis list.sel(1))

lemma cap_run:
  assumes "list_all p u" "v = [] \<or> \<not> p (hd v)" "stops p r t"
  shows "matches (Cat (Cap n (Star (Byte p))) r) t (u @ v) c = matches r t v (c(n := u))"
proof -
  have "matches r t (drop i u @ v) d = []" if "i < length u" for i d
  proof -
    have "drop i u \<noteq> []" "p (hd (drop i u))"
      using that assms(1) by (auto simp: hd_drop_conv_nth list_all_length)
    then show ?thesis using assms(3) by (simp add: stops_def)
  qed
  then show ?thesis by (simp add: star_run [OF assms(1,2)] comp_def)
qed

lemma run_then:
  assumes "list_all p u" "v = [] \<or> \<not> p (hd v)" "stops p r t"
  shows "matches (Cat (Star (Byte p)) r) t (u @ v) c = matches r t v c"
proof -
  have "matches r t (drop i u @ v) d = []" if "i < length u" for i d
  proof -
    have "drop i u \<noteq> []" "p (hd (drop i u))"
      using that assms(1) by (auto simp: hd_drop_conv_nth list_all_length)
    then show ?thesis using assms(3) by (simp add: stops_def)
  qed
  then show ?thesis by (simp add: star_run [OF assms(1,2)] comp_def)
qed

lemma cap_plus:
  assumes "u \<noteq> []" "list_all p u" "v = [] \<or> \<not> p (hd v)" "stops p r t"
  shows "matches (Cat (Cap n (Plus (Byte p))) r) t (u @ v) c = matches r t v (c(n := u))"
proof -
  obtain x w where u: "u = x # w" using assms(1) by (cases u) auto
  have "matches r t (drop i w @ v) d = []" if "i < length w" for i d
  proof -
    have "drop i w \<noteq> []" "p (hd (drop i w))"
      using that assms(2) by (auto simp: u hd_drop_conv_nth list_all_length)
    then show ?thesis using assms(4) by (simp add: stops_def)
  qed
  then show ?thesis using assms(2) star_run [of p w v t c] assms(3)
    by (simp add: u Plus_def comp_def)
qed

lemma concat_map_concat: "concat (map f (concat (map g xs))) = concat (map (\<lambda>x. concat (map f (g x))) xs)"
  by (induction xs) simp_all

lemma matches_Cat_assoc: "matches (Cat (Cat a b) r) t s c = matches (Cat a (Cat b r)) t s c"
  by (simp add: concat_map_concat split_def)

lemma matches_Lit_Cat [simp]: "matches (Cat (Lit w) r) t (w @ s) c = matches r t s c"
  by (induction w arbitrary: s) simp_all

text \<open>Whether there is a match, whatever the groups hold.\<close>

lemma Cat_matches:
  "matches (Cat a b) t s c \<noteq> [] \<longleftrightarrow> (\<exists>u d. (u, d) \<in> set (matches a t s c) \<and> matches b t u d \<noteq> [])"
  by (force simp: concat_eq_Nil_conv)

lemma Cat_Opt_matches: "matches (Cat a (Opt r)) t s c \<noteq> [] \<longleftrightarrow> matches a t s c \<noteq> []"
proof -
  have "matches (Opt r) t u d \<noteq> []" for u d by (simp add: Opt_def)
  then show ?thesis unfolding Cat_matches
    by (metis list.set_intros(1) list.set(1) empty_iff surj_pair neq_Nil_conv)
qed

lemma Alts_matches: "matches (Alts rs) t s c \<noteq> [] \<longleftrightarrow> (\<exists>r \<in> set rs. matches r t s c \<noteq> [])"
  by (induction rs rule: Alts.induct) (auto split: list.split)

lemma Cap_matches: "matches (Cap n r) t s c = [] \<longleftrightarrow> matches r t s c = []"
  by simp

lemma find_from_iff:
  "find_from r t s \<noteq> None \<longleftrightarrow> (\<exists>a u. s = a @ u \<and> matches r t u (\<lambda>_. []) \<noteq> [])"
proof (induction s)
  case Nil
  then show ?case by (simp add: find_from.simps split: list.split)
next
  case (Cons x s)
  have "(\<exists>a u. x # s = a @ u \<and> matches r t u (\<lambda>_. []) \<noteq> []) \<longleftrightarrow>
    matches r t (x # s) (\<lambda>_. []) \<noteq> [] \<or> (\<exists>a u. s = a @ u \<and> matches r t u (\<lambda>_. []) \<noteq> [])"
    by (simp add: Cons_eq_append_conv) blast
  then show ?case using Cons
    by (subst find_from.simps) (auto split: list.split)
qed

end
