(* ===== verification/Uql.thy ===== *)
theory Uql
  imports Regexp
begin

text \<open>
  \<open>sdk/utils/uql.go\<close> and \<open>uql.maker.go\<close>: what kind of statement a text is, found out with regular
  expressions; the builder of a statement from a command and its parameters; and the reader of such
  a statement.
\<close>

section \<open>The kinds of statements\<close>

definition backslash :: char where
  "backslash = CHR 0x5C"

text \<open>Characters with a backslash before each: in a pattern they stand for themselves.\<close>

definition esc :: "gostring \<Rightarrow> gostring" where
  "esc s = concat (map (\<lambda>c. [backslash, c]) s)"

definition parens :: gostring where
  "parens = esc ''()''"

definition spaces :: gostring where
  "spaces = esc ''s'' @ ''*''"

definition WriteUqlCommandKeys :: "gostring list" where
  "WriteUqlCommandKeys =
    [''create'', ''alter'', ''drop'', ''grant'', ''revoke'', ''LTE'', ''UFE'', ''truncate'', ''compact'',
     ''insert'', ''update'', ''delete'', ''upsert'', ''clear'', ''stop'', ''pause'', ''resume'', ''top'',
     ''kill'', ''mount'' @ parens @ ''.graph'', ''unmount'' @ parens @ ''.graph'',
     ''db'' @ esc ''.'' @ ''backup'']"

definition GlobalUqlCommandKeys :: "gostring list" where
  "GlobalUqlCommandKeys =
    [''show'' @ parens @ ''.user'', ''get'' @ parens @ ''.user'', ''create'' @ parens @ ''.user'',
     ''delete'' @ parens @ ''.user'', ''drop'' @ parens @ ''.user'',
     ''grant'' @ parens @ ''.user'', ''grant'' @ parens @ ''.system'',
     ''grant'' @ parens @ ''.privilege'', ''grant'' @ parens @ ''.node_privilege'',
     ''grant'' @ parens @ ''.edge_privilege'', ''revoke'' @ parens @ ''.user'',
     ''alter'' @ parens @ ''.user'', ''show'' @ parens @ ''.policy'',
     ''get'' @ parens @ ''.policy'', ''create'' @ parens @ ''.policy'',
     ''delete'' @ parens @ ''.policy'', ''drop'' @ parens @ ''.policy'',
     ''alter'' @ parens @ ''.policy'', ''show'' @ parens @ ''.privilege'', ''stats'' @ parens,
     ''show'' @ parens @ ''.graph'', ''get'' @ parens @ ''.graph'',
     ''create'' @ parens @ ''.graph'', ''alter'' @ parens @ ''.graph'',
     ''drop'' @ parens @ ''.graph'', ''kill'' @ parens, ''^'' @ spaces @ ''top'' @ parens,
     ''db'' @ esc ''.'' @ ''backup'']"

definition ExtraUqlCommandKeys :: "gostring list" where
  "ExtraUqlCommandKeys =
    [''top()'', ''kill'', ''show().task'', ''stats()'', ''show().graph'', ''show().algo'',
     ''show().policy'', ''show().privilege'', ''show().user'', ''show().self'', ''show().index'']"

definition is_re_space :: "char \<Rightarrow> bool" where
  "is_re_space c \<longleftrightarrow> c \<in> {CHR '' '', CHR 0x09, CHR 0x0A, CHR 0x0C, CHR 0x0D}"

text \<open>
  The keys are patterns: a backslash makes the next character stand for itself, a dot is any rune, a
  caret the beginning, a backslash and \<open>s*\<close> a run of spaces. Case is ignored.
\<close>

fun key_re :: "gostring \<Rightarrow> re" where
  "key_re [] = Eps"
| "key_re (x # xs) =
     (if x = backslash then
        (case xs of
           [] \<Rightarrow> Eps
         | y # ys \<Rightarrow> if y = CHR ''s'' then Cat (Star (Byte is_re_space)) (key_re (drop 1 ys))
                     else Cat (Fold y) (key_re ys))
      else if x = CHR ''.'' then Cat AnyRune (key_re xs)
      else if x = CHR ''^'' then Cat Bol (key_re xs)
      else Cat (Fold x) (key_re xs))"

definition GetUqlRegExpMatcher :: "gostring list \<Rightarrow> re" where
  "GetUqlRegExpMatcher fnNames =
     Cat (Cap 1 (Alts (map key_re fnNames))) (Opt (Cap 2 (Fold (CHR ''(''))))"

definition HasWith :: "gostring \<Rightarrow> bool" where
  "HasWith uql = re_match (GetUqlRegExpMatcher [''with'']) uql"

definition HasWrite :: "gostring \<Rightarrow> bool" where
  "HasWrite uql = re_match (GetUqlRegExpMatcher WriteUqlCommandKeys) uql"

definition HasExecTask :: "gostring \<Rightarrow> bool" where
  "HasExecTask uql = re_match (GetUqlRegExpMatcher [''exec task'']) uql"

definition IsGlobal :: "gostring \<Rightarrow> bool" where
  "IsGlobal uql = re_match (GetUqlRegExpMatcher GlobalUqlCommandKeys) uql"

definition is_command :: "char \<Rightarrow> bool" where
  "is_command c \<longleftrightarrow> is_letter c \<or> c = CHR ''_''"

definition is_argument :: "char \<Rightarrow> bool" where
  "is_argument c \<longleftrightarrow> c \<notin> {CHR ''('', CHR ''|'', CHR ''^'', CHR '')''}"

text \<open>Group 1 is the first command, group 2 its argument, group 3 the last command.\<close>

definition extra_matcher :: re where
  "extra_matcher =
     Cat (Cap 1 (Star (Byte is_command)))
     (Cat (Opt (Cat (Lit ''('') (Cat (Cap 2 (Star (Byte is_argument))) (Lit '')''))))
       (Star (Cat (Star (Byte (\<lambda>c. c = CHR ''.''))) (Cap 3 (Star (Byte is_command))))))"

definition IsExtra :: "gostring \<Rightarrow> bool" where
  "IsExtra uql =
     (case re_find extra_matcher (trim_space uql) of
        None \<Rightarrow> False
      | Some (whole, c) \<Rightarrow>
          if whole \<in> set ExtraUqlCommandKeys then True
          else if c 1 \<noteq> [] \<and> c 3 \<noteq> [] \<and> c 1 @ ''().'' @ c 3 \<in> set ExtraUqlCommandKeys then True
          else whole \<noteq> [] \<and> c 1 \<in> set ExtraUqlCommandKeys \<and> c 2 \<noteq> [])"

definition is_quote :: "char \<Rightarrow> bool" where
  "is_quote c \<longleftrightarrow> c = CHR 0x22 \<or> c = CHR 0x27"

definition ParseGraphCommandKeys :: re where
  "ParseGraphCommandKeys =
     Cat (Cap 1 (Alts [Lit ''mount'', Lit ''unmount'', Lit ''truncate'']))
     (Cat (Lit ''('') (Cat (Star (Byte is_re_space)) (Cat (Lit '').graph('')
     (Cat (Star (Byte is_re_space)) (Cat (Byte is_quote)
     (Cat (Cap 2 (Plus (Byte is_word))) (Cat (Byte is_quote)
     (Cat (Star (Byte is_re_space)) (Lit '')'')))))))))"

definition ParseGraph :: "gostring \<Rightarrow> bool \<times> gostring" where
  "ParseGraph uql =
     (case re_find ParseGraphCommandKeys uql of
        None \<Rightarrow> (False, [])
      | Some (whole, c) \<Rightarrow> (True, c 2))"

lemma extra_statements:
  "IsExtra ''kill(1)''" "IsExtra '' top()''" "\<not> IsExtra ''kill()''"
  by code_simp+

section \<open>Building a statement\<close>

record UQLMAKER =
  mk_command :: gostring
  mk_commandP :: gostring
  mk_params :: "(gostring \<times> gostring) list"

text \<open>The commands the driver names, in the order of their constants.\<close>

definition UQLCommands :: "gostring list" where
  "UQLCommands =
   [''show().graph'', ''show().node_schema'', ''ab'', ''khop'', ''find().nodes'', ''find().edges'',
    ''delete().nodes'', ''delete().edges'', ''update().nodes'', ''update().edges'', ''t'',
    ''autoNet'', ''autoNetByPart'', ''spread'', ''insert().nodes'', ''insert().edges'',
    ''show().property'', ''show().node_property'', ''show().edge_property'',
    ''create().node_property'', ''create().edge_property'', ''alter().node_property'',
    ''alter().edge_property'', ''drop().node_property'', ''drop().edge_property'',
    ''LTE().node_property'', ''LTE().edge_property'', ''UFE().node_property'',
    ''UFE().edge_property'', ''createIndex'', ''showIndex'', ''dropIndex'', ''stat'', ''algo'',
    ''listPrivilege'', ''grant'', ''revoke'', ''listUser'', ''getUser'', ''createUser'',
    ''updateUser'', ''deleteUser'', ''createPolicy'', ''updatePolicy'', ''deletePolicy'',
    ''listPolicy'', ''getPolicy'', ''show().task'', ''clear().task'', ''createGraph'',
    ''getGraph'', ''dropGraph'', ''updateGraph'']"

text \<open>A value of a parameter, by its dynamic type; the JSON encoder of the others is an argument.\<close>

datatype 'v param = PNil | PBool bool | PString gostring | PStrings "gostring list" | POther 'v

definition doller_re :: re where
  "doller_re = Cat (Lit [CHR 0x22]) (Cat (Cap 1 (Cat (Lit ''$'') (Plus (Byte is_command)))) (Lit [CHR 0x22]))"

definition replace_doller :: "gostring \<Rightarrow> gostring" where
  "replace_doller str = re_replace doller_re (\<lambda>c. c 1) str"

definition SetCommand :: "gostring \<Rightarrow> UQLMAKER \<Rightarrow> UQLMAKER" where
  "SetCommand command t = t\<lparr>mk_command := command\<rparr>"

definition SetCommandParams ::
  "('v param \<Rightarrow> gostring go) \<Rightarrow> 'v param \<Rightarrow> UQLMAKER \<Rightarrow> UQLMAKER go" where
  "SetCommandParams marshal commandP t =
     (case commandP of
        PNil \<Rightarrow> Ret t
      | PString s \<Rightarrow> Ret (t\<lparr>mk_commandP := s\<rparr>)
      | _ \<Rightarrow> (case marshal commandP of
            Ret b \<Rightarrow> Ret (t\<lparr>mk_commandP := replace_doller b\<rparr>)
          | Fail e \<Rightarrow> Ret t
          | Panic p \<Rightarrow> Panic p))"

text \<open>
  A boolean becomes the empty string, true or false alike. Of the keys the source lists only the
  last joins a list of strings: its cases do not fall through.
\<close>

definition plain_param :: "'v param \<Rightarrow> 'v param" where
  "plain_param value = (case value of PBool b \<Rightarrow> PString [] | _ \<Rightarrow> value)"

definition add_one ::
  "('v param \<Rightarrow> gostring go) \<Rightarrow> gostring \<Rightarrow> 'v param \<Rightarrow> UQLMAKER \<Rightarrow> UQLMAKER go" where
  "add_one marshal key value t =
     (let value = (case value of PStrings ss \<Rightarrow> if key = ''policies'' then PString (join '','' ss) else value
                   | _ \<Rightarrow> value)
      in case value of
           PString s \<Rightarrow> Ret (t\<lparr>mk_params := mk_params t @ [(key, s)]\<rparr>)
         | _ \<Rightarrow> (case marshal value of
               Ret b \<Rightarrow> Ret (t\<lparr>mk_params := mk_params t @ [(key, replace_doller b)]\<rparr>)
             | Fail e \<Rightarrow> Ret t
             | Panic p \<Rightarrow> Panic p))"

definition is_nil_param :: "'v param \<Rightarrow> bool" where
  "is_nil_param value = (case value of PNil \<Rightarrow> True | _ \<Rightarrow> False)"

definition AddParam ::
  "('v param \<Rightarrow> gostring go) \<Rightarrow> gostring \<Rightarrow> 'v param \<Rightarrow> bool \<Rightarrow> UQLMAKER \<Rightarrow> UQLMAKER go" where
  "AddParam marshal key value required t =
     (let required = (case value of PBool True \<Rightarrow> False | _ \<Rightarrow> required); value = plain_param value
      in if required \<and> is_nil_param value then Ret t
         else if key = ''filter''
         then (if is_nil_param value then Ret t
               else go_bind (add_one marshal ''node_filter'' value t) (add_one marshal ''edge_filter'' value))
         else add_one marshal key value t)"

definition call_text :: "gostring \<times> gostring \<Rightarrow> gostring" where
  "call_text c = fst c @ ''('' @ snd c @ '')''"

lemma call_text_ne [simp]: "call_text c \<noteq> []"
  by (simp add: call_text_def)

definition ToString :: "UQLMAKER \<Rightarrow> gostring" where
  "ToString t =
     call_text (mk_command t, mk_commandP t) @
     (if mk_params t \<noteq> [] then ''.'' @ join ''.'' (map call_text (mk_params t)) else [])"

section \<open>Reading a statement\<close>

record UQL =
  uq_Uql :: gostring
  uq_Command :: gostring
  uq_CommandParam :: gostring
  uq_Params :: "gostring \<rightharpoonup> gostring"

definition parse_re :: re where
  "parse_re = Cat (Cap 1 (Star (Byte is_letter))) (Cat (Lit ''('')
     (Cat (Cap 2 (Star (Byte is_argument))) (Lit '')'')))"

definition trim_value :: "gostring \<Rightarrow> gostring" where
  "trim_value s = trim (\<lambda>c. c = CHR '' '' \<or> is_quote c) s"

definition UQL_Parse :: "gostring \<Rightarrow> UQL" where
  "UQL_Parse uqlString =
     (let found = map (\<lambda>(before, c). (c 1, trim_value (c 2))) (fst (find_all parse_re uqlString uqlString));
          u = \<lparr>uq_Uql = uqlString, uq_Command = [], uq_CommandParam = [], uq_Params = Map.empty\<rparr>
      in case found of
           [] \<Rightarrow> u
         | (name, value) # params \<Rightarrow>
             u\<lparr>uq_Command := name, uq_CommandParam := value, uq_Params := map_of (rev params)\<rparr>)"

section \<open>Reading back what was built\<close>

text \<open>
  A command or parameter the reader knows again: a name of letters and an argument with none of the
  four characters that the class of the pattern excludes, the two parentheses, the bar and the caret.
\<close>

definition readable :: "gostring \<times> gostring \<Rightarrow> bool" where
  "readable c \<longleftrightarrow> list_all is_letter (fst c) \<and> list_all is_argument (snd c)"

lemma not_letter [simp]: "\<not> is_letter (CHR ''('')" "\<not> is_letter (CHR '')'')" "\<not> is_letter (CHR ''.'')"
  by (simp_all add: is_letter_def is_lower_def is_upper_def)

lemma not_argument [simp]: "\<not> is_argument (CHR '')'')"
  by (simp add: is_argument_def)

lemma match_call:
  assumes "readable call"
  shows "matches parse_re t (call_text call @ s) c = [(s, c(1 := fst call, 2 := snd call))]"
proof -
  let ?arg = "Cat (Cap 2 (Star (Byte is_argument))) (Lit '')'')"
  have "matches parse_re t (fst call @ ''('' @ snd call @ '')'' @ s) c
      = matches (Cat (Lit ''('') ?arg) t (''('' @ snd call @ '')'' @ s) (c(1 := fst call))"
    unfolding parse_re_def using assms by (intro cap_run stops_Cat stops_Lit) (auto simp: readable_def)
  also have "\<dots> = matches ?arg t (snd call @ '')'' @ s) (c(1 := fst call))" by (rule matches_Lit_Cat)
  also have "\<dots> = matches (Lit '')'') t ('')'' @ s) (c(1 := fst call, 2 := snd call))"
    using assms by (intro cap_run stops_Lit) (auto simp: readable_def)
  finally show ?thesis by (simp add: call_text_def)
qed

lemma find_call:
  assumes "readable call"
  shows "find_from parse_re t (call_text call @ s) = Some ([], call_text call,
    (\<lambda>_. [])(1 := fst call, 2 := snd call), s)"
  by (simp add: find_from.simps match_call [OF assms])

lemma dot_no_match: "matches parse_re t (CHR ''.'' # s) c = []"
proof -
  let ?r = "Cat (Lit ''('') (Cat (Cap 2 (Star (Byte is_argument))) (Lit '')''))"
  have "matches parse_re t ([] @ CHR ''.'' # s) c = matches ?r t (CHR ''.'' # s) (c(1 := []))"
    unfolding parse_re_def by (intro cap_run stops_Cat stops_Lit) auto
  then show ?thesis by simp
qed

lemma find_dot:
  "find_from parse_re t (CHR ''.'' # s)
    = map_option (\<lambda>(before, m). (CHR ''.'' # before, m)) (find_from parse_re t s)"
  by (simp add: find_from.simps [of parse_re t "CHR ''.'' # s"] dot_no_match)

lemma find_end [simp]: "find_from parse_re t [] = None"
  by (simp add: find_from.simps parse_re_def)

lemma find_all_calls:
  assumes "list_all readable calls"
  shows "map (\<lambda>(before, c). (c 1, c 2)) (fst (find_all parse_re t (concat (map (\<lambda>c. ''.'' @ call_text c) calls))))
    = calls"
  using assms
proof (induction calls)
  case Nil
  then show ?case by (simp add: find_all.simps)
next
  case (Cons call calls)
  then show ?case
    by (subst find_all.simps) (simp add: find_dot find_call split_def)
qed

lemma dotted: "calls \<noteq> [] \<Longrightarrow> ''.'' @ join ''.'' (map call_text calls) = concat (map (\<lambda>c. ''.'' @ call_text c) calls)"
  by (induction calls rule: induct_list012) simp_all

lemma ToString_dotted:
  "ToString t = call_text (mk_command t, mk_commandP t) @ concat (map (\<lambda>c. ''.'' @ call_text c) (mk_params t))"
  using dotted [of "mk_params t"] by (simp add: ToString_def)

text \<open>What is read from calls with dots between them.\<close>

lemma parse_calls:
  assumes "list_all readable (call # calls)"
  defines "s \<equiv> call_text call @ concat (map (\<lambda>c. ''.'' @ call_text c) calls)"
  shows "UQL_Parse s = \<lparr>uq_Uql = s, uq_Command = fst call, uq_CommandParam = trim_value (snd call),
    uq_Params = map_of (rev (map (map_prod id trim_value) calls))\<rparr>"
proof -
  have r: "readable call" "list_all readable calls" using assms(1) by simp_all
  have found: "map (\<lambda>(before, c). (c 1, c 2)) (fst (find_all parse_re s s)) = call # calls"
    unfolding s_def
    by (subst find_all.simps) (use find_all_calls [OF r(2)] in
        \<open>simp add: find_call [OF r(1)] split_def\<close>)
  have "map (\<lambda>(before, c). (c 1, trim_value (c 2))) (fst (find_all parse_re s s))
      = map (map_prod id trim_value) (map (\<lambda>(before, c). (c 1, c 2)) (fst (find_all parse_re s s)))"
    by (simp add: comp_def split_def)
  also have "\<dots> = (fst call, trim_value (snd call)) # map (map_prod id trim_value) calls"
    unfolding found by (cases call) simp
  finally show ?thesis by (simp add: UQL_Parse_def)
qed

text \<open>
  Property C31. Reading a statement that was built gives back what it was built from: the command, its
  argument and, under every parameter name, the last argument added under it, without the blanks and
  quotes around it; the command and the names are letters, and the arguments hold no parenthesis, no
  bar and no caret. An argument with a bar or a caret is not read back (\<open>bar_argument_lost\<close>): the class
  of the pattern was meant as an alternative of the two parentheses.
\<close>

theorem parse_built_statement:
  assumes "readable (mk_command t, mk_commandP t)" "list_all readable (mk_params t)"
  shows "UQL_Parse (ToString t) = \<lparr>uq_Uql = ToString t, uq_Command = mk_command t,
    uq_CommandParam = trim_value (mk_commandP t),
    uq_Params = map_of (rev (map (map_prod id trim_value) (mk_params t)))\<rparr>"
  using parse_calls [of "(mk_command t, mk_commandP t)" "mk_params t"] assms
  by (simp add: ToString_dotted)

text \<open>
  A parameter whose argument has a bar or a caret is skipped, and a command that has one is lost: the first
  parameter is taken for the command.
\<close>

definition barred :: "gostring \<Rightarrow> gostring \<Rightarrow> UQLMAKER" where
  "barred a b = \<lparr>mk_command = ''khop'', mk_commandP = a, mk_params = [(''src'', b), (''limit'', ''3'')]\<rparr>"

lemma bar_argument_lost:
  "uq_Params (UQL_Parse (ToString (barred ''1'' ''a|b''))) ''src'' = None"
  "uq_Params (UQL_Parse (ToString (barred ''1'' ''a^b''))) ''src'' = None"
  "uq_Command (UQL_Parse (ToString (barred ''a|b'' ''1''))) = ''src''"
  by code_simp+

text \<open>
  A command of two parts, like \<open>find().nodes\<close>, is not read back: the first part becomes the command,
  with an empty argument, and the second a parameter that holds the argument of the command. So are
  25 of the 53 commands the driver names.
\<close>

lemma two_part_command:
  assumes "mk_command t = a @ ''().'' @ b" "list_all is_letter a"
    "list_all readable ((b, mk_commandP t) # mk_params t)"
  shows "uq_Command (UQL_Parse (ToString t)) = a" "uq_CommandParam (UQL_Parse (ToString t)) = []"
    "b \<notin> fst ` set (mk_params t) \<Longrightarrow> uq_Params (UQL_Parse (ToString t)) b = Some (trim_value (mk_commandP t))"
proof -
  have r: "list_all readable ((a, []) # (b, mk_commandP t) # mk_params t)"
    using assms(2,3) by (simp add: readable_def)
  have e: "ToString t = call_text (a, []) @ concat (map (\<lambda>c. ''.'' @ call_text c) ((b, mk_commandP t) # mk_params t))"
    by (simp add: ToString_dotted assms(1) call_text_def)
  note p = parse_calls [OF r, folded e]
  show "uq_Command (UQL_Parse (ToString t)) = a" "uq_CommandParam (UQL_Parse (ToString t)) = []"
    by (simp_all add: p trim_value_def trim_def)
  assume "b \<notin> fst ` set (mk_params t)"
  then have "map_of (rev (map (map_prod id trim_value) (mk_params t))) b = None"
    by (force simp: map_of_eq_None_iff)
  then show "uq_Params (UQL_Parse (ToString t)) b = Some (trim_value (mk_commandP t))"
    by (simp add: p map_add_def)
qed

lemma commands_of_one_part:
  "filter (list_all is_letter) UQLCommands =
    [''ab'', ''khop'', ''t'', ''autoNet'', ''autoNetByPart'', ''spread'', ''createIndex'', ''showIndex'',
     ''dropIndex'', ''stat'', ''algo'', ''listPrivilege'', ''grant'', ''revoke'', ''listUser'', ''getUser'',
     ''createUser'', ''updateUser'', ''deleteUser'', ''createPolicy'', ''updatePolicy'', ''deletePolicy'',
     ''listPolicy'', ''getPolicy'', ''createGraph'', ''getGraph'', ''dropGraph'', ''updateGraph'']"
  by code_simp

definition sample_maker :: UQLMAKER where
  "sample_maker = \<lparr>mk_command = ''khop'', mk_commandP = '' 1'',
     mk_params = [(''limit'', ''3''), (''src'', [CHR 0x22] @ ''a'' @ [CHR 0x22]), (''limit'', ''4'')]\<rparr>"

lemma parse_built_statement_witness:
  "ToString sample_maker = ''khop( 1).limit(3).src('' @ [CHR 0x22] @ ''a'' @ [CHR 0x22] @ '').limit(4)'' \<and>
   uq_CommandParam (UQL_Parse (ToString sample_maker)) = ''1'' \<and>
   uq_Params (UQL_Parse (ToString sample_maker)) ''limit'' = Some ''4'' \<and>
   uq_Params (UQL_Parse (ToString sample_maker)) ''src'' = Some ''a''"
proof -
  have "readable (mk_command sample_maker, mk_commandP sample_maker)"
    "list_all readable (mk_params sample_maker)" by code_simp+
  note e = parse_built_statement [OF this]
  show ?thesis unfolding e
    by (simp add: sample_maker_def ToString_def call_text_def trim_value_def trim_def is_quote_def)
qed

section \<open>The kinds of plain statements\<close>

definition ascii :: "gostring \<Rightarrow> bool" where
  "ascii s \<longleftrightarrow> list_all (\<lambda>c. (of_char c :: nat) < 128) s"

lemma matcher_iff:
  "re_match (GetUqlRegExpMatcher ks) t \<longleftrightarrow>
     (\<exists>k \<in> set ks. \<exists>a s. t = a @ s \<and> matches (key_re k) t s (\<lambda>_. []) \<noteq> [])"
proof -
  have "matches (GetUqlRegExpMatcher ks) t s c \<noteq> [] \<longleftrightarrow> (\<exists>k \<in> set ks. matches (key_re k) t s c \<noteq> [])"
    for s c
    by (simp only: GetUqlRegExpMatcher_def Cat_Opt_matches Cap_matches Alts_matches set_map bex_simps)
  then show ?thesis unfolding re_match_def find_from_iff by blast
qed

text \<open>In a text of ASCII a letter matches its two cases.\<close>

definition lower :: "char \<Rightarrow> char" where
  "lower c = (if is_upper c then char_of (of_char c + 32 :: nat) else c)"

lemma to_lower_Cons: "to_lower (x # xs) = lower x # to_lower xs"
  by (simp add: to_lower_def lower_def)

lemma same_letter:
  assumes "is_letter x"
  shows "[y] = to_lower [x] \<or> [y] = to_upper [x] \<longleftrightarrow> lower y = lower x"
proof -
  have m: "(of_char c :: nat) < 256" for c :: char by (metis of_char_mod_256 mod_less_divisor zero_less_numeral)
  have e: "y = c \<longleftrightarrow> (of_char y :: nat) = of_char c" for y c :: char by simp
  show ?thesis using assms m [of x] m [of y]
    by (auto simp: to_lower_def to_upper_def lower_def is_letter_def is_lower_def is_upper_def e
        simp del: of_char_eq_iff)
qed

lemma other_letter:
  assumes "\<not> is_letter x"
  shows "to_lower [x] = [x]" "y = x \<longleftrightarrow> lower y = lower x"
proof -
  have m: "(of_char c :: nat) < 256" for c :: char by (metis of_char_mod_256 mod_less_divisor zero_less_numeral)
  have e: "y = c \<longleftrightarrow> (of_char y :: nat) = of_char c" for y c :: char by simp
  show "to_lower [x] = [x]" using assms by (simp add: to_lower_def is_letter_def)
  show "y = x \<longleftrightarrow> lower y = lower x" using assms m [of x] m [of y]
    by (auto simp: lower_def is_letter_def is_lower_def is_upper_def e simp del: of_char_eq_iff)
qed

lemma Fold_ascii:
  assumes "ascii s"
  shows "(u, d) \<in> set (matches (Fold x) t s c) \<longleftrightarrow> (\<exists>y. s = y # u \<and> d = c \<and> lower y = lower x)"
proof (cases s)
  case Nil
  then show ?thesis by (auto simp: spellings_def has_prefix_def to_lower_def to_upper_def)
next
  case (Cons y ys)
  have "y \<noteq> CHR 0xE2" "y \<noteq> CHR 0xC5" using assms Cons by (auto simp: ascii_def)
  then have "(u, d) \<in> set (matches (Fold x) t s c) \<longleftrightarrow> u = ys \<and> d = c \<and>
      ([y] = to_lower [x] \<or> is_letter x \<and> [y] = to_upper [x])"
    unfolding Cons by (auto simp: spellings_def has_prefix_def to_lower_def to_upper_def)
  also have "\<dots> \<longleftrightarrow> u = ys \<and> d = c \<and> lower y = lower x"
    using same_letter [of x y] other_letter(1) [of x] other_letter(2) [of x y] by (cases "is_letter x") auto
  finally show ?thesis unfolding Cons by blast
qed

definition plain_key :: "gostring \<Rightarrow> bool" where
  "plain_key k \<longleftrightarrow> list_all (\<lambda>c. c \<noteq> backslash \<and> c \<noteq> CHR ''.'' \<and> c \<noteq> CHR ''^'') k"

lemma plain_key_matches:
  "plain_key k \<Longrightarrow> ascii s \<Longrightarrow> matches (key_re k) t s c \<noteq> [] \<longleftrightarrow> prefix (to_lower k) (to_lower s)"
proof (induction k arbitrary: s)
  case Nil
  then show ?case by (simp add: to_lower_def)
next
  case (Cons x k)
  have x: "key_re (x # k) = Cat (Fold x) (key_re k)" and k: "plain_key k"
    using Cons.prems(1) by (simp_all add: plain_key_def)
  have "matches (key_re (x # k)) t s c \<noteq> [] \<longleftrightarrow>
    (\<exists>y u. s = y # u \<and> lower y = lower x \<and> matches (key_re k) t u c \<noteq> [])"
    unfolding x Cat_matches by (subst Fold_ascii [OF Cons.prems(2)]) blast
  also have "\<dots> \<longleftrightarrow> (\<exists>y u. s = y # u \<and> lower y = lower x \<and> prefix (to_lower k) (to_lower u))"
  proof -
    have "matches (key_re k) t u c \<noteq> [] \<longleftrightarrow> prefix (to_lower k) (to_lower u)" if "s = y # u" for y u
      using Cons.IH [OF k, of u] Cons.prems(2) that by (simp add: ascii_def)
    then show ?thesis by blast
  qed
  finally show ?case by (cases s) (auto simp: to_lower_Cons to_lower_def [of "[]"])
qed

lemma key_occurs:
  assumes "plain_key k" "ascii t"
  shows "(\<exists>a s. t = a @ s \<and> matches (key_re k) t s (\<lambda>_. []) \<noteq> []) \<longleftrightarrow> contains (to_lower t) (to_lower k)"
proof -
  have "matches (key_re k) t s (\<lambda>_. []) \<noteq> [] \<longleftrightarrow> prefix (to_lower k) (to_lower s)" if "t = a @ s" for a s
    using that assms by (intro plain_key_matches) (simp_all add: ascii_def)
  then have "(\<exists>a s. t = a @ s \<and> matches (key_re k) t s (\<lambda>_. []) \<noteq> []) \<longleftrightarrow>
      (\<exists>a s. t = a @ s \<and> prefix (to_lower k) (to_lower s))" by blast
  also have "\<dots> \<longleftrightarrow> contains (to_lower t) (to_lower k)"
  proof
    assume "\<exists>a s. t = a @ s \<and> prefix (to_lower k) (to_lower s)"
    then obtain a s z where "t = a @ s" "to_lower s = to_lower k @ z" by (auto simp: prefix_def)
    then have "to_lower t = to_lower a @ to_lower k @ z" by (simp add: to_lower_def)
    then show "contains (to_lower t) (to_lower k)" unfolding contains_iff by blast
  next
    assume "contains (to_lower t) (to_lower k)"
    then obtain a b where ab: "to_lower t = a @ to_lower k @ b" by (auto simp: contains_iff)
    have "to_lower (drop (length a) t) = drop (length a) (to_lower t)" by (simp add: to_lower_def drop_map)
    then have "prefix (to_lower k) (to_lower (drop (length a) t))" by (simp add: ab)
    then show "\<exists>a s. t = a @ s \<and> prefix (to_lower k) (to_lower s)"
      by (intro exI [of _ "take (length a) t"] exI [of _ "drop (length a) t"]) simp
  qed
  finally show ?thesis .
qed

text \<open>
  What kind a statement of ASCII text is depends on the words that occur in it anywhere,
  in any case: with \<open>with\<close> it has a with, with \<open>exec task\<close> it runs a task, and it writes as soon
  as one of the plain write keys occurs, be it inside another word or a value.
\<close>

theorem statement_kinds:
  assumes "ascii uql"
  shows "HasWith uql \<longleftrightarrow> contains (to_lower uql) ''with''"
    "HasExecTask uql \<longleftrightarrow> contains (to_lower uql) ''exec task''"
    "k \<in> set WriteUqlCommandKeys \<Longrightarrow> plain_key k \<Longrightarrow> contains (to_lower uql) (to_lower k) \<Longrightarrow> HasWrite uql"
proof -
  have k: "plain_key ''with''" "plain_key ''exec task''" by (simp_all add: plain_key_def backslash_def)
  have l: "to_lower ''with'' = ''with''" "to_lower ''exec task'' = ''exec task''"
    by (simp_all add: to_lower_def is_upper_def)
  show "HasWith uql \<longleftrightarrow> contains (to_lower uql) ''with''"
    using key_occurs [OF k(1) assms] by (simp add: HasWith_def matcher_iff l del: matches.simps)
  show "HasExecTask uql \<longleftrightarrow> contains (to_lower uql) ''exec task''"
    using key_occurs [OF k(2) assms] by (simp add: HasExecTask_def matcher_iff l del: matches.simps)
  show "k \<in> set WriteUqlCommandKeys \<Longrightarrow> plain_key k \<Longrightarrow> contains (to_lower uql) (to_lower k) \<Longrightarrow> HasWrite uql"
    using key_occurs [OF _ assms, of k] unfolding HasWrite_def matcher_iff by blast
qed

lemma statement_kinds_witness:
  "HasWith ''x With y'' \<and> \<not> HasExecTask ''x With y'' \<and> HasWrite ''find().nodes({a == 1}) as desktop''"
proof -
  have a: "ascii ''x With y''" "ascii ''find().nodes({a == 1}) as desktop''" by code_simp+
  have "contains (to_lower ''x With y'') ''with''" "\<not> contains (to_lower ''x With y'') ''exec task''"
    "''top'' \<in> set WriteUqlCommandKeys" "plain_key ''top''"
    "contains (to_lower ''find().nodes({a == 1}) as desktop'') (to_lower ''top'')" by code_simp+
  then show ?thesis
    using statement_kinds(1,2) [OF a(1)] statement_kinds(3) [OF a(2)] by blast
qed

section \<open>The graph of a statement\<close>

lemma graph_command:
  assumes "cmd \<in> {''mount'', ''unmount'', ''truncate''}"
  shows "matches (Cat (Cap 1 (Alts [Lit ''mount'', Lit ''unmount'', Lit ''truncate''])) r) t (cmd @ s) c
    = matches r t s (c(1 := cmd))"
  using assms by auto

text \<open>
  A statement that mounts, unmounts or truncates a graph given by a name of word characters
  in quotes is found with that name, whatever spaces are inside the parentheses.
\<close>

theorem graph_of_statement:
  assumes "cmd \<in> {''mount'', ''unmount'', ''truncate''}" "graph \<noteq> []" "list_all is_word graph"
    "is_quote q" "is_quote q'" "list_all is_re_space (u @ v @ w)"
  shows "ParseGraph (cmd @ ''('' @ u @ '').graph('' @ v @ [q] @ graph @ [q'] @ w @ '')'' @ rest) = (True, graph)"
proof -
  let ?text = "cmd @ ''('' @ u @ '').graph('' @ v @ [q] @ graph @ [q'] @ w @ '')'' @ rest"
  let ?S = "Star (Byte is_re_space)"
  let ?tail = "Cat ?S (Lit '')'')"
  let ?name = "Cat (Cap 2 (Plus (Byte is_word))) (Cat (Byte is_quote) ?tail)"
  have quote: "\<not> is_word x" "\<not> is_re_space x" if "is_quote x" for x
    using that by (auto simp: is_quote_def is_word_def is_letter_def is_lower_def is_upper_def
        is_digit_def is_re_space_def)
  have paren: "\<not> is_re_space (CHR '')'')" by (simp add: is_re_space_def)
  have m: "matches ParseGraphCommandKeys t ?text c = [(rest, c(1 := cmd, 2 := graph))]" for t c
  proof -
    let ?c = "c(1 := cmd)"
    have "matches ParseGraphCommandKeys t ?text c
        = matches (Cat ?S (Cat (Lit '').graph('') (Cat ?S (Cat (Byte is_quote) ?name)))) t
            (u @ '').graph('' @ v @ [q] @ graph @ [q'] @ w @ '')'' @ rest) ?c"
      unfolding ParseGraphCommandKeys_def graph_command [OF assms(1)] by (rule matches_Lit_Cat)
    also have "\<dots> = matches (Cat (Lit '').graph('') (Cat ?S (Cat (Byte is_quote) ?name))) t
        ('').graph('' @ v @ [q] @ graph @ [q'] @ w @ '')'' @ rest) ?c"
      using assms(6) paren by (intro run_then stops_Cat stops_Lit) auto
    also have "\<dots> = matches (Cat ?S (Cat (Byte is_quote) ?name)) t
        (v @ [q] @ graph @ [q'] @ w @ '')'' @ rest) ?c" by (rule matches_Lit_Cat)
    also have "\<dots> = matches (Cat (Byte is_quote) ?name) t ([q] @ graph @ [q'] @ w @ '')'' @ rest) ?c"
      using assms(4,6) quote by (intro run_then stops_Cat) auto
    also have "\<dots> = matches ?name t (graph @ [q'] @ w @ '')'' @ rest) ?c" using assms(4) by simp
    also have "\<dots> = matches (Cat (Byte is_quote) ?tail) t ([q'] @ w @ '')'' @ rest) (?c(2 := graph))"
      using assms(2,3,5) quote by (intro cap_plus stops_Cat) auto
    also have "\<dots> = matches ?tail t (w @ '')'' @ rest) (?c(2 := graph))" using assms(5) by simp
    also have "\<dots> = matches (Lit '')'') t ('')'' @ rest) (?c(2 := graph))"
      using assms(6) paren by (intro run_then stops_Lit) auto
    finally show ?thesis by simp
  qed
  show ?thesis unfolding ParseGraph_def re_find_def find_from.simps [of _ _ ?text] m by simp
qed

lemma graph_of_statement_witness:
  "ParseGraph (''unmount'' @ ''('' @ '' '' @ '').graph('' @ [] @ [CHR 0x22] @ ''g_1'' @ [CHR 0x27] @ [] @ '')'' @ ''.x()'')
    = (True, ''g_1'')"
  by (rule graph_of_statement) (simp_all add: is_word_def is_letter_def is_lower_def is_upper_def
      is_digit_def is_quote_def is_re_space_def)

end
