(* ===== verification/Explain.thy ===== *)
theory Explain
  imports Responses
begin

text \<open>
  \<open>sdk/printers/explain.printer.go\<close>: the plan of a query comes as a list of its nodes, each with
  the number of its children; the printer builds the tree and lists it with the depth of every line.
  That list is all it does: the two lines that would turn it into a tree and draw it are commented out
  in the source, so nothing is drawn. The channel it reads from is the list of the nodes that are left.
  A tree that is nil is a constructor of its own.
\<close>

section \<open>The tree of a plan\<close>

datatype tree_node = NilTree | TreeNode explain_node "tree_node list"

text \<open>The first \<open>k\<close> trees read from a channel, and what is left in it.\<close>

function build_trees :: "nat \<Rightarrow> explain_node list \<Rightarrow> tree_node list \<times> explain_node list" where
  "build_trees 0 graphs = ([], graphs)"
| "build_trees (Suc k) [] = (NilTree # fst (build_trees k []), [])"
| "build_trees (Suc k) (nd # graphs) =
     (case build_trees (unat (en_ChildrenNum nd)) graphs of (children, rest) \<Rightarrow>
        (case build_trees k rest of (trees, rest') \<Rightarrow> (TreeNode nd children # trees, rest')))"
  by pat_completeness auto

lemma build_trees_rest:
  "build_trees_dom (k, graphs) \<Longrightarrow> length (snd (build_trees k graphs)) \<le> length graphs"
  by (induction rule: build_trees.pinduct) (auto simp: build_trees.psimps split: prod.split)

lemma build_trees_left:
  "(trees, rest) = build_trees k graphs \<Longrightarrow> build_trees_dom (k, graphs) \<Longrightarrow> length rest \<le> length graphs"
  using build_trees_rest [of k graphs] by (metis snd_conv)

termination build_trees
  by (relation "inv_image (less_than <*lex*> less_than) (\<lambda>(k, graphs). (length graphs, k))")
    (auto dest: build_trees_left)

definition buildTree :: "explain_node list \<Rightarrow> tree_node" where
  "buildTree graphs = hd (fst (build_trees 1 graphs))"

section \<open>Listing a tree\<close>

type_synonym leveled = "(nat \<times> gostring) list"

definition node_lines :: "explain_node \<Rightarrow> gostring list" where
  "node_lines s = [''Alias: '' @ en_Alias s, ''ChildrenNum: '' @ nat_str (unat (en_ChildrenNum s)),
     ''Uql: '' @ en_Uql s, ''Infos: '' @ en_Infos s]"

text \<open>The node is read before the tree is compared with nil.\<close>

fun traverse :: "tree_node \<Rightarrow> nat \<Rightarrow> leveled \<times> unit go"
  and traverse_all :: "tree_node list \<Rightarrow> nat \<Rightarrow> leveled \<times> unit go" where
  "traverse NilTree index = ([], Panic NilDeref)"
| "traverse (TreeNode s children) index =
     (case traverse_all children (index + 1) of
        (ls, r) \<Rightarrow> (map (\<lambda>l. (index, l)) (node_lines s) @ ls, r))"
| "traverse_all [] index = ([], Ret ())"
| "traverse_all (t # ts) index =
     (case traverse t index of
        (ls, Ret _) \<Rightarrow> (case traverse_all ts index of (ms, r) \<Rightarrow> (ls @ ms, r))
      | (ls, r) \<Rightarrow> (ls, r))"

text \<open>
  The list is a variable of the package to which every call appends; no call reads or draws it, and
  none empties it.
\<close>

definition PrintExplain :: "leveled \<Rightarrow> explain_node list \<Rightarrow> leveled \<times> unit go" where
  "PrintExplain leveledList graphs =
     (if graphs = [] then (leveledList, Ret ())
      else case traverse (buildTree graphs) 0 of (ls, r) \<Rightarrow> (leveledList @ ls, r))"

section \<open>What a plan becomes\<close>

text \<open>The nodes of a tree in the order of a plan; a tree whose nodes count their children.\<close>

fun preorder :: "tree_node \<Rightarrow> explain_node list" where
  "preorder NilTree = []"
| "preorder (TreeNode nd children) = nd # concat (map preorder children)"

fun counted :: "tree_node \<Rightarrow> bool" where
  "counted NilTree = False"
| "counted (TreeNode nd children) \<longleftrightarrow>
     unat (en_ChildrenNum nd) = length children \<and> list_all counted children"

text \<open>The lines of a tree: those of its node at its depth, then those of its children one deeper.\<close>

fun outline :: "nat \<Rightarrow> tree_node \<Rightarrow> leveled" where
  "outline index NilTree = []"
| "outline index (TreeNode nd children) =
     map (Pair index) (node_lines nd) @ concat (map (outline (Suc index)) children)"

lemma outline_lines: "map snd (outline index t) = concat (map node_lines (preorder t))"
proof (induction t arbitrary: index)
  case (TreeNode nd children)
  then have "map snd (concat (map (outline i) children))
      = concat (map node_lines (concat (map preorder children)))" for i
    by (induction children) auto
  then show ?case by (simp add: comp_def)
qed simp

lemma build_counted:
  "counted t \<Longrightarrow> build_trees (Suc k) (preorder t @ rest)
     = (case build_trees k rest of (ts, rest') \<Rightarrow> (t # ts, rest'))"
proof (induction t arbitrary: k rest)
  case NilTree
  then show ?case by simp
next
  case (TreeNode nd children)
  have "build_trees (length ts) (concat (map preorder ts) @ rest) = (ts, rest)"
    if "set ts \<subseteq> set children" for ts rest
    using that
  proof (induction ts)
    case (Cons t ts)
    then have "counted t" using TreeNode.prems by (auto simp: list_all_iff)
    with TreeNode.IH [of t "length ts" "concat (map preorder ts) @ rest"] Cons show ?case by simp
  qed simp
  then show ?case using TreeNode.prems by simp
qed

lemma traverse_counted: "counted t \<Longrightarrow> traverse t index = (outline index t, Ret ())"
proof (induction t arbitrary: index)
  case (TreeNode nd children)
  have "traverse_all ts i = (concat (map (outline i) ts), Ret ())" if "set ts \<subseteq> set children" for ts i
    using that
  proof (induction ts)
    case (Cons t ts)
    then have "counted t" using TreeNode.prems by (auto simp: list_all_iff)
    with TreeNode.IH [of t i] Cons show ?case by simp
  qed simp
  from this [of children "index + 1"] show ?case by simp
qed simp

text \<open>
  Property C37. The list of nodes of a plan determines its tree, and the list of lines that the printer makes
  follows it: when every node counts its children, the tree that is built from the nodes in pre-order
  is the tree they came from, and one run appends, to the lines of earlier runs, the four lines of every
  node with the depth of the node in the tree, a node before its children, and does not panic.
  Nothing is drawn from that list: the calls that would do it are commented out in the source.
\<close>

theorem plan_listed:
  assumes "counted t"
  shows "buildTree (preorder t) = t
    \<and> PrintExplain before (preorder t) = (before @ outline 0 t, Ret ())"
proof
  show b: "buildTree (preorder t) = t"
    using build_counted [OF assms, of 0 "[]"] by (simp add: buildTree_def)
  have "preorder t \<noteq> []" using assms by (cases t) auto
  then show "PrintExplain before (preorder t) = (before @ outline 0 t, Ret ())"
    by (simp add: PrintExplain_def b traverse_counted [OF assms])
qed

definition sample_plan :: "gostring \<Rightarrow> 32 word \<Rightarrow> explain_node" where
  "sample_plan name n = \<lparr>en_Alias = name, en_ChildrenNum = n, en_Uql = [], en_Infos = []\<rparr>"

definition sample_tree :: tree_node where
  "sample_tree = TreeNode (sample_plan ''a'' 2)
     [TreeNode (sample_plan ''b'' 1) [TreeNode (sample_plan ''c'' 0) []], TreeNode (sample_plan ''d'' 0) []]"

lemma plan_listed_witness:
  "let plan = [sample_plan ''a'' 2, sample_plan ''b'' 1, sample_plan ''c'' 0, sample_plan ''d'' 0]
   in buildTree plan = sample_tree
     \<and> filter (\<lambda>l. prefix ''Alias'' (snd l)) (fst (PrintExplain [] plan))
        = [(0, ''Alias: a''), (1, ''Alias: b''), (2, ''Alias: c''), (1, ''Alias: d'')]"
proof -
  have "counted sample_tree" by (simp add: sample_tree_def sample_plan_def)
  from plan_listed [OF this, of "[]"] show ?thesis
    by (simp add: sample_tree_def node_lines_def sample_plan_def)
qed

text \<open>A plan that ends before the children its nodes count makes the printer panic.\<close>

lemma missing_child_panics:
  "0 < unat (en_ChildrenNum nd) \<Longrightarrow> snd (PrintExplain before [nd]) = Panic NilDeref"
  by (cases "unat (en_ChildrenNum nd)") (simp_all add: PrintExplain_def buildTree_def)

end
