(* ===== verification/Printers.thy ===== *)
theory Printers
  imports Control Regexp
begin

text \<open>
  The printers of \<open>sdk/printers\<close>, other than that of plans: what they hand to the console. A line, a
  log message and a table are printed things; the table library draws a table from the texts of its
  header and body, and its alignment is left out. How \<open>fmt\<close> writes a dynamic value is an
  argument.
\<close>

section \<open>Printed things\<close>

record text_table =
  tx_Header :: "gostring list"
  tx_Body :: "gostring list list"

datatype printed = Line gostring | Info gostring | Warn gostring | Alarm gostring | Tab text_table

text \<open>What was printed before the function returned or died.\<close>

type_synonym 'a printer = "printed list \<times> 'a go"

definition prints :: "printed list \<Rightarrow> unit printer" where
  "prints ps = (ps, Ret ())"

definition pr_lift :: "'a go \<Rightarrow> 'a printer" where
  "pr_lift r = ([], r)"

definition pr_bind :: "'a printer \<Rightarrow> ('a \<Rightarrow> 'b printer) \<Rightarrow> 'b printer" where
  "pr_bind m f =
     (case m of
        (ps, Ret x) \<Rightarrow> (case f x of (qs, r) \<Rightarrow> (ps @ qs, r))
      | (ps, Fail e) \<Rightarrow> (ps, Fail e)
      | (ps, Panic p) \<Rightarrow> (ps, Panic p))"

fun pr_each :: "('a \<Rightarrow> unit printer) \<Rightarrow> 'a list \<Rightarrow> unit printer" where
  "pr_each f [] = prints []"
| "pr_each f (x # xs) = pr_bind (f x) (\<lambda>_. pr_each f xs)"

text \<open>
  How values are written: a dynamic value, an attribute value that is no list, a cost in
  milliseconds as seconds, the names of result types; and the order in which a map is enumerated.
\<close>

record formatting =
  fm_value :: "gval \<Rightarrow> gostring"
  fm_attr :: "attr_value \<Rightarrow> gostring"
  fm_seconds :: "int64 \<Rightarrow> gostring"
  fm_result :: "result_type \<Rightarrow> gostring"
  fm_keys :: "values_map \<Rightarrow> gostring list"

section \<open>Nodes and edges\<close>

text \<open>
  Consecutive rows of one schema share a table. The cells of a row after the fixed ones follow the
  header of its table, which was made for the schema of the first row.
\<close>

definition value_cells :: "formatting \<Rightarrow> values_map option \<Rightarrow> gostring list \<Rightarrow> gostring list go" where
  "value_cells fm vals keys = go_map (\<lambda>k. go_lift (\<lambda>v. fm_value fm (Values_Get v k)) (deref vals)) keys"

definition property_names :: "schema option \<Rightarrow> gostring list" where
  "property_names sch = (case sch of None \<Rightarrow> [] | Some s \<Rightarrow> map prop_name (sc_Properties s))"

definition node_header :: "schema option \<Rightarrow> gostring list" where
  "node_header sch = [''ID'', ''UUID'', ''Schema''] @ property_names sch"

definition node_cells :: "formatting \<Rightarrow> gostring list \<Rightarrow> node option \<Rightarrow> gostring list go" where
  "node_cells fm header row =
     (case row of
        None \<Rightarrow> Ret [''nil'', ''nil'', ''nil'']
      | Some n \<Rightarrow> go_lift (\<lambda>cs. [nd_ID n, nat_str (unat (nd_UUID n)), nd_Schema n] @ cs)
          (value_cells fm (nd_Values n) (drop 3 header)))"

definition node_schema :: "node option \<Rightarrow> gostring" where
  "node_schema row = (case row of None \<Rightarrow> [] | Some n \<Rightarrow> nd_Schema n)"

definition edge_header :: "schema option \<Rightarrow> gostring list" where
  "edge_header sch = [''UUID'', ''FROM_UUID'', ''FROM'', ''TO_UUID'', ''TO'', ''SCHEMA''] @ property_names sch"

definition edge_cells :: "formatting \<Rightarrow> gostring list \<Rightarrow> edge option \<Rightarrow> gostring list go" where
  "edge_cells fm header row =
     (case row of
        None \<Rightarrow> Ret (replicate 6 ''nil'')
      | Some e \<Rightarrow> go_lift (\<lambda>cs. [nat_str (unat (ed_UUID e)), nat_str (unat (ed_FromUUID e)), ed_From e,
            nat_str (unat (ed_ToUUID e)), ed_To e, ed_Schema e] @ cs)
          (value_cells fm (ed_Values e) (drop 6 header)))"

definition edge_schema :: "edge option \<Rightarrow> gostring" where
  "edge_schema row = (case row of None \<Rightarrow> [] | Some e \<Rightarrow> ed_Schema e)"

text \<open>
  The loop: what it has printed, and the table it is filling, which the caller prints. A change of
  schema is noted by \<open>note\<close>, which for edges reads the edge.
\<close>

fun fill_tables ::
  "('r \<Rightarrow> gostring) \<Rightarrow> ('r \<Rightarrow> gostring go) \<Rightarrow> (schema option \<Rightarrow> gostring list)
   \<Rightarrow> (gostring list \<Rightarrow> 'r \<Rightarrow> gostring list go) \<Rightarrow> (gostring \<rightharpoonup> schema) \<Rightarrow> 'r list
   \<Rightarrow> gostring \<Rightarrow> text_table option \<Rightarrow> text_table option printer" where
  "fill_tables name note header cells schemas [] seen table = pr_lift (Ret table)"
| "fill_tables name note header cells schemas (r # rs) seen table =
     (let schemaName = name r; switchSchema = (schemaName \<noteq> seen) in
      pr_bind (pr_lift (if switchSchema then note r else Ret seen)) (\<lambda>seen.
      pr_bind (prints (case table of Some t \<Rightarrow> if switchSchema then [Tab t] else [] | None \<Rightarrow> [])) (\<lambda>_.
        let t = (case table of
              Some t \<Rightarrow> if switchSchema then \<lparr>tx_Header = header (schemas schemaName), tx_Body = []\<rparr> else t
            | None \<Rightarrow> \<lparr>tx_Header = header (schemas schemaName), tx_Body = []\<rparr>)
        in pr_bind (pr_lift (cells (tx_Header t) r)) (\<lambda>row.
             fill_tables name note header cells schemas rs seen
               (Some (t\<lparr>tx_Body := tx_Body t @ [row]\<rparr>))))))"

definition print_table :: "text_table option \<Rightarrow> unit printer" where
  "print_table table = prints [case table of Some t \<Rightarrow> Tab t | None \<Rightarrow> Line []]"

definition getNodeTableString ::
  "formatting \<Rightarrow> node option list \<Rightarrow> (gostring \<rightharpoonup> schema) \<Rightarrow> text_table option printer" where
  "getNodeTableString fm nodes schemas =
     fill_tables node_schema (\<lambda>r. Ret (node_schema r)) node_header (node_cells fm) schemas nodes [] None"

definition getEdgeTableString ::
  "formatting \<Rightarrow> edge option list \<Rightarrow> (gostring \<rightharpoonup> schema) \<Rightarrow> text_table option printer" where
  "getEdgeTableString fm edges schemas =
     fill_tables edge_schema (\<lambda>r. go_lift ed_Schema (deref r)) edge_header (edge_cells fm) schemas edges [] None"

definition PrintNodes :: "formatting \<Rightarrow> node option list \<Rightarrow> (gostring \<rightharpoonup> schema) \<Rightarrow> unit printer" where
  "PrintNodes fm nodes schemas =
     (if nodes = [] then prints [Line ''No node data found.'']
      else pr_bind (getNodeTableString fm nodes schemas) print_table)"

definition PrintEdges :: "formatting \<Rightarrow> edge option list \<Rightarrow> (gostring \<rightharpoonup> schema) \<Rightarrow> unit printer" where
  "PrintEdges fm edges schemas =
     (if edges = [] then prints [Line ''No edge data found.'']
      else pr_bind (getEdgeTableString fm edges schemas) print_table)"

definition PrintNodesWithoutSchema :: "formatting \<Rightarrow> node option list \<Rightarrow> unit printer" where
  "PrintNodesWithoutSchema fm nodes =
     (if nodes = [] then prints [Line ''No node data found.'']
      else pr_bind (pr_lift (go_bind (go_map deref nodes) (GetSchemasOfNodeList (fm_keys fm)))) (\<lambda>schemas.
        pr_bind (getNodeTableString fm nodes schemas) print_table))"

definition PrintEdgesWithoutSchema :: "formatting \<Rightarrow> edge option list \<Rightarrow> unit printer" where
  "PrintEdgesWithoutSchema fm edges =
     (if edges = [] then prints [Line ''No edge data found.'']
      else pr_bind (pr_lift (go_bind (go_map deref edges) (GetSchemasOfEdgeList (fm_keys fm)))) (\<lambda>schemas.
        pr_bind (getEdgeTableString fm edges schemas) print_table))"

section \<open>Paths and attributes\<close>

text \<open>A path whose edge or node is 0 is written as nil up to there.\<close>

fun path_text :: "uuid list \<Rightarrow> nat \<Rightarrow> uuid list \<Rightarrow> gostring \<Rightarrow> gostring go" where
  "path_text nodes index [] text = Ret text"
| "path_text nodes index (edge # edges) text =
     go_bind (go_nth nodes index) (\<lambda>node.
       if edge = 0 \<or> node = 0 then path_text nodes (index + 1) edges ''nil''
       else path_text nodes (index + 1) edges
         (text @ ''('' @ nat_str (unat node) @ '') - ['' @ nat_str (unat edge) @ ''] - ''))"

definition path_cells :: "nat \<times> path \<Rightarrow> gostring list go" where
  "path_cells np = (case np of (num, p) \<Rightarrow>
     go_bind (path_text (pa_NodeUUIDs p) 0 (pa_EdgeUUIDs p) []) (\<lambda>text.
     go_bind (GetLastNode p) (\<lambda>final.
       Ret [nat_str num, text @ (if final \<noteq> 0 then ''('' @ nat_str (unat final) @ '')'' else [])])))"

definition getPathTableString :: "path list \<Rightarrow> text_table go" where
  "getPathTableString paths =
     go_lift (\<lambda>rows. \<lparr>tx_Header = [''#'', ''Path''], tx_Body = rows\<rparr>)
       (go_map path_cells (zip [0..<length paths] paths))"

definition PrintPaths :: "path list \<Rightarrow> unit printer" where
  "PrintPaths paths =
     (if paths = [] then prints [Line ''No path data found.'']
      else pr_bind (pr_lift (getPathTableString paths)) (\<lambda>t. prints [Tab t]))"

text \<open>A list is written element by element, whatever its depth.\<close>

fun format_gval :: "formatting \<Rightarrow> gval \<Rightarrow> gostring" where
  "format_gval fm GNil = ''<nil>''"
| "format_gval fm (GSlice xs) =
     (if xs = [] then ''[]'' else if xs = [GNil] then ''[<nil>]''
      else ''['' @ join '', '' (map (format_gval fm) xs) @ '']'')"
| "format_gval fm (GBytes bs) =
     (if bs = [] then ''[]'' else ''['' @ join '', '' (map (\<lambda>b. nat_str (unat b)) bs) @ '']'')"
| "format_gval fm v = fm_value fm v"

fun formatRow :: "formatting \<Rightarrow> attr_value \<Rightarrow> gostring" where
  "formatRow fm (AV v) = format_gval fm v"
| "formatRow fm (AVRow rows) =
     (if rows = [] then ''[]'' else if rows = [AV GNil] then ''[<nil>]''
      else ''['' @ join '', '' (map (formatRow fm) rows) @ '']'')"
| "formatRow fm v = fm_attr fm v"

definition the_rows :: "attr \<Rightarrow> attr_value list" where
  "the_rows a = (case at_Values a of None \<Rightarrow> [] | Some rows \<Rightarrow> rows)"

definition getAttrStr :: "formatting \<Rightarrow> attr \<Rightarrow> gostring list" where
  "getAttrStr fm a = map (formatRow fm) (the_rows a)"

definition printSimpleAttr :: "formatting \<Rightarrow> attr \<Rightarrow> unit printer" where
  "printSimpleAttr fm a =
     prints [Tab \<lparr>tx_Header = [at_Name a], tx_Body = map (\<lambda>s. [s]) (getAttrStr fm a)\<rparr>]"

definition list_line :: "formatting \<Rightarrow> gostring \<Rightarrow> result_type \<Rightarrow> nat \<Rightarrow> printed" where
  "list_line fm name t i = Info (''Alias:'' @ name @ '', DBType:LIST, resultType:'' @ fm_result fm t
     @ [CHR 13, CHR 10] @ ''Index:'' @ nat_str i)"

text \<open>Their lists are never nil: the groups of a list attribute are made before they are filled.\<close>

definition PrintAttrNodes :: "formatting \<Rightarrow> attr_nodes \<Rightarrow> unit printer" where
  "PrintAttrNodes fm a =
     pr_each (\<lambda>(i, nodes). pr_bind (prints [list_line fm (an_Name a) (an_ResultType a) i])
         (\<lambda>_. PrintNodesWithoutSchema fm (map Some nodes)))
       (zip [0..<length (an_NodesList a)] (an_NodesList a))"

definition PrintAttrEdges :: "formatting \<Rightarrow> attr_edges \<Rightarrow> unit printer" where
  "PrintAttrEdges fm a =
     pr_each (\<lambda>(i, edges). pr_bind (prints [list_line fm (ae_Name a) (ae_ResultType a) i])
         (\<lambda>_. PrintEdgesWithoutSchema fm (map Some edges)))
       (zip [0..<length (ae_EdgesList a)] (ae_EdgesList a))"

definition PrintAttrPaths :: "formatting \<Rightarrow> attr_paths \<Rightarrow> unit printer" where
  "PrintAttrPaths fm a =
     pr_each (\<lambda>(i, paths). pr_bind (prints [list_line fm (ap_Name a) (ap_ResultType a) i])
         (\<lambda>_. PrintPaths paths))
       (zip [0..<length (ap_PathsList a)] (ap_PathsList a))"

definition is_nil_row :: "attr_value \<Rightarrow> bool" where
  "is_nil_row v = (case v of AV g \<Rightarrow> g = GNil | _ \<Rightarrow> False)"

text \<open>The values of a list are groups, asserted to be of the kind of the result type.\<close>

definition print_group :: "formatting \<Rightarrow> result_type \<Rightarrow> attr_value \<Rightarrow> unit printer" where
  "print_group fm t row =
     (if is_nil_row row then prints []
      else case row of
        AVNodes nss \<Rightarrow> if t = RT_NODE
          then PrintAttrNodes fm \<lparr>an_Name = [], an_ResultType = RT_UNSET, an_NodesList = nss\<rparr>
          else pr_lift (Panic TypeAssertion)
      | AVEdges ess \<Rightarrow> if t = RT_EDGE
          then PrintAttrEdges fm \<lparr>ae_Name = [], ae_ResultType = RT_UNSET, ae_EdgesList = ess\<rparr>
          else pr_lift (Panic TypeAssertion)
      | AVPaths rt pss \<Rightarrow> if t = RT_PATH
          then PrintAttrPaths fm \<lparr>ap_Name = [], ap_ResultType = rt, ap_PathsList = pss\<rparr>
          else pr_lift (Panic TypeAssertion)
      | _ \<Rightarrow> pr_lift (Panic TypeAssertion))"

definition PrintAttr :: "formatting \<Rightarrow> attr option \<Rightarrow> unit printer" where
  "PrintAttr fm a =
     (case a of
        None \<Rightarrow> prints [Line ''No attr data found.'']
      | Some a \<Rightarrow>
          if (at_PropertyType a = PT_SET \<or> at_PropertyType a = PT_LIST)
             \<and> (at_ResultType a = RT_NODE \<or> at_ResultType a = RT_EDGE \<or> at_ResultType a = RT_PATH)
          then pr_each (print_group fm (at_ResultType a)) (the_rows a)
          else printSimpleAttr fm a)"

section \<open>Tables and the catalogue\<close>

text \<open>A row that is not as wide as the header ends the printing with a line instead of a table.\<close>

definition PrintTable :: "formatting \<Rightarrow> table option \<Rightarrow> unit printer" where
  "PrintTable fm tableData =
     (case tableData of
        None \<Rightarrow> prints [Line ''No table data found.'']
      | Some t \<Rightarrow>
          let width = length (tb_Headers t) in
          case List.find (\<lambda>row. length row \<noteq> width) (tb_Rows t) of
            Some row \<Rightarrow> prints [Line (''Table name:  '' @ tb_Name t),
              Line (''table row('' @ nat_str (length row) @ '') not equal to table head('' @ nat_str width @ '') .'')]
          | None \<Rightarrow> prints [Line (''Table name:  '' @ tb_Name t),
              Tab \<lparr>tx_Header = map hd_Name (tb_Headers t), tx_Body = map (map (fm_value fm)) (tb_Rows t)\<rparr>])"

definition bool_text :: "bool \<Rightarrow> gostring" where
  "bool_text b = (if b then ''true'' else ''false'')"

text \<open>\<open>log.Panic\<close> on a property whose type has no string.\<close>

definition panic_on_error :: "'a go \<Rightarrow> 'a go" where
  "panic_on_error r = (case r of Fail e \<Rightarrow> Panic (PanicCall (error_text e)) | _ \<Rightarrow> r)"

definition schema_line :: "schema \<Rightarrow> gostring" where
  "schema_line sch = DBTypeToString (sc_DBType sch) @ ''Schema: '' @ sc_Id sch @ '' - '' @ sc_Name sch
     @ (if sc_Total sch \<noteq> 0 then '' ('' @ nat_str (unat (sc_Total sch)) @ '')'' else [])"

definition print_schema :: "schema \<Rightarrow> unit printer" where
  "print_schema sch =
     pr_bind (prints ([Line (schema_line sch)]
       @ (if sc_Description sch \<noteq> [] then [Line (''Description:  '' @ sc_Description sch)] else [])
       @ (if sc_Properties sch \<noteq> [] then [Line ''Property: ''] else []))) (\<lambda>_.
     pr_bind (pr_lift (go_map (\<lambda>p. go_lift (\<lambda>t.
         [prop_name p, prop_description p, t, bool_text (prop_lte p), prop_schema p])
       (panic_on_error (GetStringType p))) (sc_Properties sch))) (\<lambda>rows.
     prints ((if rows \<noteq> []
         then [Tab \<lparr>tx_Header = [''Name'', ''Description'', ''Type'', ''LTE'', ''Schema''], tx_Body = rows\<rparr>] else [])
       @ [Line ''-''])))"

definition PrintSchema :: "schema list \<Rightarrow> unit printer" where
  "PrintSchema schemas = pr_each print_schema schemas"

definition MarshalDecimalExtra :: "decimal_extra option \<Rightarrow> gostring" where
  "MarshalDecimalExtra d =
     (case d of
        None \<Rightarrow> []
      | Some x \<Rightarrow>
          if de_precision x = 0 \<and> de_scale x = 0 then []
          else ''{'' @ dq ''precision'' @ '':'' @ itoa (de_precision x) @ '','' @ dq ''scale'' @ '':''
            @ itoa (de_scale x) @ ''}'')"

definition PrintProperty :: "property option list \<Rightarrow> unit printer" where
  "PrintProperty properties =
     pr_bind (pr_lift (go_map (\<lambda>p. go_lift (\<lambda>t.
         [prop_name p, prop_description p, t, bool_text (prop_lte p), bool_text (prop_read p),
          bool_text (prop_write p), prop_schema p, MarshalDecimalExtra (prop_decimal p), prop_encrypt p])
       (panic_on_error (GetStringType p))) (map the (filter (\<lambda>p. p \<noteq> None) properties)))) (\<lambda>rows.
     prints (if rows \<noteq> []
       then [Tab \<lparr>tx_Header = [''Name'', ''Description'', ''DBType'', ''LTE'', ''READ'', ''WRITE'', ''Schema'',
               ''DecimalExtra'', ''Encrypt''], tx_Body = rows\<rparr>] else []))"

definition PrintGraphSet :: "graph_set list \<Rightarrow> unit printer" where
  "PrintGraphSet graphs =
     prints (if graphs \<noteq> []
       then [Tab \<lparr>tx_Header = [''ID'', ''Name'', ''Status'', ''Description'', ''Total Node'', ''Total Edge'',
               ''Shards'', ''Slot Num''],
             tx_Body = map (\<lambda>g. [gs_ID g, gs_Name g, gs_Status g, gs_Description g, nat_str (gs_TotalNodes g),
               nat_str (gs_TotalEdges g), ''['' @ join '','' (gs_Shards g) @ '']'', itoa (gs_SlotNum g)]) graphs\<rparr>]
       else [])"

text \<open>The schemas are enumerated in some order, which is the argument.\<close>

definition getSchemaNameContent :: "db_type \<Rightarrow> schema list \<Rightarrow> text_table" where
  "getSchemaNameContent t schemas =
     \<lparr>tx_Header = [''#'', if t = DBNODE then ''Node schemas'' else ''Edge schemas''],
      tx_Body = map (\<lambda>(i, s). [nat_str (i + 1), sc_Name s]) (zip [0..<length schemas] schemas)\<rparr>"

definition PrintBackupInfoList :: "backup_info list \<Rightarrow> unit printer" where
  "PrintBackupInfoList infos =
     prints [Tab \<lparr>tx_Header = [''backup_name'', ''backup_uuid'', ''start_time'', ''end_time'', ''status'', ''msg'',
         ''backup_infos''],
       tx_Body = map (\<lambda>b. [bk_BackupName b, bk_BackupUUID b, bk_StartTime b, bk_EndTime b, bk_Status b,
         bk_Msg b, ''...'']) infos\<rparr>]"

definition PrintStatistics :: "formatting \<Rightarrow> statistic \<Rightarrow> unit printer" where
  "PrintStatistics fm stats =
     prints ((if sg_NodeAffected stats \<noteq> 0
         then [Line (''Effect Nodes: '' @ itoa (sint (sg_NodeAffected stats)) @ '' '')] else [])
       @ (if sg_EdgeAffected stats \<noteq> 0
         then [Line (''Effect Edges: '' @ itoa (sint (sg_EdgeAffected stats)) @ '' '')] else [])
       @ [Line (''Total Cost : '' @ fm_seconds fm (sg_TotalCost stats) @ ''s | Engine Cost : ''
           @ fm_seconds fm (sg_EngineCost stats) @ ''s '')])"

text \<open>An array: its name and its rows, each dereferenced.\<close>

definition PrintArray :: "formatting \<Rightarrow> gostring \<Rightarrow> gval option list \<Rightarrow> unit printer" where
  "PrintArray fm name rows =
     pr_bind (pr_lift (go_map (\<lambda>r. go_lift (\<lambda>v. [fm_value fm v]) (deref r)) rows)) (\<lambda>body.
       prints [Tab \<lparr>tx_Header = [name], tx_Body = body\<rparr>])"

section \<open>Syntax errors\<close>

definition is_any :: re where
  "is_any = Star AnyRune"

definition error_position :: re where
  "error_position = Cat (Lit ''['') (Cat (Cap 1 (Plus (Byte is_digit))) (Cat (Lit ''-'')
     (Cat (Cap 2 (Plus (Byte is_digit))) (Cat (Lit '']'') (Cap 3 is_any)))))"

text \<open>
  A slice of a string from one index to another panics outside its bounds. The indexes are numerals
  less one; a numeral too large is clamped with an error that is dropped.
\<close>

definition go_slice :: "gostring \<Rightarrow> int \<Rightarrow> int \<Rightarrow> gostring go" where
  "go_slice s a b =
     (if 0 \<le> a \<and> a \<le> b \<and> b \<le> int (length s) then Ret (take (nat (b - a)) (drop (nat a) s))
      else Panic IndexOutOfRange)"

text \<open>The first line of a message holds the position and the statement, the second the message.\<close>

definition PrintUqlErr :: "gostring \<Rightarrow> unit printer" where
  "PrintUqlErr errmsg =
     (case split_on (CHR 10) errmsg of
        s # msg # _ \<Rightarrow>
          (case re_find error_position s of
             None \<Rightarrow> prints []
           | Some (m, c) \<Rightarrow>
               let uql = c 3; start = fst (parse_int (c 1) 64) - 1; final = fst (parse_int (c 2) 64) - 1
               in pr_bind (prints [Line ''Uql Syntax Error:'']) (\<lambda>_.
                  pr_bind (pr_lift (go_slice uql 0 start)) (\<lambda>before.
                  pr_bind (pr_lift (go_slice uql start final)) (\<lambda>marked.
                  pr_bind (pr_lift (go_slice uql final (int (length uql)))) (\<lambda>after.
                    prints [Line (before @ marked @ after), Line msg])))))
      | _ \<Rightarrow> prints [Alarm errmsg])"

section \<open>Any item\<close>

text \<open>A warning is printed for an error, and the printing goes on with what was returned: nil.\<close>

definition warned :: "'a \<Rightarrow> 'a go \<Rightarrow> ('a \<Rightarrow> unit printer) \<Rightarrow> unit printer" where
  "warned nothing r f =
     (case r of
        Ret x \<Rightarrow> f x
      | Fail e \<Rightarrow> pr_bind (prints [Warn (error_text e)]) (\<lambda>_. f nothing)
      | Panic p \<Rightarrow> pr_lift (Panic p))"

definition quiet :: "'a \<Rightarrow> 'a go \<Rightarrow> 'a go" where
  "quiet nothing r = (case r of Fail e \<Rightarrow> Ret nothing | _ \<Rightarrow> r)"

text \<open>
  The name of a table is read before the error is looked at, so a table that does not decode panics.
  \<open>what\<close> is the text of the result type.
\<close>

definition PrintAny ::
  "formatting \<Rightarrow> 'a json_env_scheme \<Rightarrow> 'b attr_env_scheme \<Rightarrow> nat \<Rightarrow> data_item option \<Rightarrow> unit printer" where
  "PrintAny fm env aenv depth dataitem =
     (case dataitem of
        None \<Rightarrow> prints [Line ''No dataItem found.'']
      | Some di \<Rightarrow>
          if di_Data di = DNil then prints [Line (fm_result fm (di_Type di) @ '': No Return Data'')]
          else case di_Type di of
            RT_NODE \<Rightarrow> pr_bind (pr_lift (quiet ([], Map.empty) (AsNodes env di)))
              (\<lambda>(nodes, schemas). PrintNodes fm (map Some nodes) schemas)
          | RT_EDGE \<Rightarrow> pr_bind (pr_lift (quiet ([], Map.empty) (AsEdges env di)))
              (\<lambda>(edges, schemas). PrintEdges fm (map Some edges) schemas)
          | RT_TABLE \<Rightarrow> pr_bind (pr_lift (go_bind (quiet None (AsTable env di)) deref)) (\<lambda>res.
              if contains (tb_Name res) ''_nodeSchema'' \<or> contains (tb_Name res) ''_edgeSchema''
              then warned [] (AsSchemas env di) PrintSchema
              else PrintTable fm (Some res))
          | RT_PATH \<Rightarrow> warned [] (AsPaths env di) PrintPaths
          | RT_ATTR \<Rightarrow> warned None (AsAttr aenv depth di) (PrintAttr fm)
          | _ \<Rightarrow> prints [Line (''Printer Got UnHandled Alias '' @ di_Alias di @ '' DBType ''
              @ fm_result fm (di_Type di))])"

section \<open>One table per run of a schema\<close>

text \<open>The maximal runs of neighbours with the same key.\<close>

fun runs :: "('r \<Rightarrow> 'k) \<Rightarrow> 'r list \<Rightarrow> 'r list list" where
  "runs f [] = []"
| "runs f (x # xs) =
     (case runs f xs of [] \<Rightarrow> [[x]] | g # gs \<Rightarrow> if f x = f (hd g) then (x # g) # gs else [x] # g # gs)"

lemma runs_Nil_iff [simp]: "runs f xs = [] \<longleftrightarrow> xs = []"
  by (cases xs) (auto split: list.split)

lemma runs_ne: "g \<in> set (runs f xs) \<Longrightarrow> g \<noteq> []"
  by (induction xs arbitrary: g) (auto split: list.splits if_splits)

lemma hd_runs: "runs f (x # xs) = g # gs \<Longrightarrow> hd g = x"
  by (auto split: list.splits if_splits)

lemma concat_runs [simp]: "concat (runs f xs) = xs"
  by (induction xs) (auto split: list.split)

lemma runs_same: "xs \<noteq> [] \<Longrightarrow> \<forall>x \<in> set xs. f x = k \<Longrightarrow> runs f xs = [xs]"
proof (induction xs)
  case (Cons x xs)
  then show ?case by (cases "xs = []") simp_all
qed simp

lemma runs_append:
  assumes "g \<noteq> []" "\<forall>x \<in> set g. f x = k" "f r \<noteq> k"
  shows "runs f (g @ r # rs) = g # runs f (r # rs)"
  using assms(1,2)
proof (induction g)
  case (Cons x g)
  show ?case
  proof (cases "g = []")
    case True
    obtain h hs where h: "runs f (r # rs) = h # hs"
      by (metis list.distinct(1) neq_Nil_conv runs_Nil_iff)
    then have "hd h = r" by (rule hd_runs)
    then show ?thesis using True Cons.prems assms(3) h by simp
  next
    case False
    then have "runs f (g @ r # rs) = g # runs f (r # rs)" using Cons by simp
    moreover have "f (hd g) = k" using False Cons.prems by simp
    ultimately show ?thesis using Cons.prems by simp
  qed
qed simp

lemma pr_bind_Ret:
  "pr_bind m f = (ps, Ret y) \<longleftrightarrow>
     (\<exists>qs x rs. m = (qs, Ret x) \<and> f x = (rs, Ret y) \<and> ps = qs @ rs)"
  by (auto simp: pr_bind_def split: prod.splits go.splits)

text \<open>What the table of a run must be.\<close>

definition table_of ::
  "('r \<Rightarrow> gostring) \<Rightarrow> (schema option \<Rightarrow> gostring list) \<Rightarrow> (gostring list \<Rightarrow> 'r \<Rightarrow> gostring list go)
   \<Rightarrow> (gostring \<rightharpoonup> schema) \<Rightarrow> 'r list \<Rightarrow> text_table \<Rightarrow> bool" where
  "table_of name header cells schemas g t \<longleftrightarrow>
     tx_Header t = header (schemas (name (hd g))) \<and>
     list_all2 (\<lambda>r row. cells (tx_Header t) r = Ret row) g (tx_Body t)"

lemma fill_tables_runs:
  assumes "fill_tables name note header cells schemas rs seen (Some t) = (ps, Ret t')"
    "g \<noteq> []" "\<forall>r \<in> set g. name r = seen" "table_of name header cells schemas g t"
    "\<And>r x. note r = Ret x \<Longrightarrow> x = name r"
  shows "\<exists>ts l. ps = map Tab ts \<and> t' = Some l \<and>
    list_all2 (table_of name header cells schemas) (runs name (g @ rs)) (ts @ [l])"
  using assms(1-4)
proof (induction rs arbitrary: seen t g ps)
  case Nil
  then have "ps = []" "t' = Some t" by (simp_all add: pr_lift_def)
  with Nil runs_same [OF Nil(2,3)] show ?case by (intro exI [of _ "[]"]) simp
next
  case (Cons r rs)
  show ?case
  proof (cases "name r = seen")
    case True
    from Cons.prems(1) True obtain row where row: "cells (tx_Header t) r = Ret row" and
      f: "fill_tables name note header cells schemas rs seen (Some (t\<lparr>tx_Body := tx_Body t @ [row]\<rparr>)) = (ps, Ret t')"
      by (auto simp: pr_bind_Ret pr_lift_def prints_def Let_def)
    have "table_of name header cells schemas (g @ [r]) (t\<lparr>tx_Body := tx_Body t @ [row]\<rparr>)"
      using Cons.prems(2,4) row by (auto simp: table_of_def intro: list_all2_appendI)
    from Cons.IH [OF f _ _ this] Cons.prems(3) True show ?thesis by simp
  next
    case False
    let ?h = "header (schemas (name r))"
    from Cons.prems(1) False obtain n row qs where n: "note r = Ret n" and row: "cells ?h r = Ret row" and
      f: "fill_tables name note header cells schemas rs n (Some \<lparr>tx_Header = ?h, tx_Body = [row]\<rparr>) = (qs, Ret t')"
      and ps: "ps = Tab t # qs"
      by (auto simp: pr_bind_Ret pr_lift_def prints_def Let_def)
    have "table_of name header cells schemas [r] \<lparr>tx_Header = ?h, tx_Body = [row]\<rparr>"
      using row by (simp add: table_of_def)
    from Cons.IH [OF f _ _ this] assms(5) [OF n] obtain ts l where
      "qs = map Tab ts" "t' = Some l" "list_all2 (table_of name header cells schemas) (runs name (r # rs)) (ts @ [l])"
      by auto
    with ps Cons.prems(4) runs_append [OF Cons.prems(2,3) False] show ?thesis
      by (intro exI [of _ "t # ts"] exI [of _ l]) (simp del: runs.simps)
  qed
qed

lemma fill_tables_all:
  assumes "fill_tables name note header cells schemas rs [] None = (ps, Ret t')" "rs \<noteq> []"
    "\<And>r x. note r = Ret x \<Longrightarrow> x = name r"
  shows "\<exists>ts l. ps = map Tab ts \<and> t' = Some l \<and>
    list_all2 (table_of name header cells schemas) (runs name rs) (ts @ [l])"
proof -
  obtain r rs' where rs: "rs = r # rs'" using assms(2) by (cases rs) auto
  let ?h = "header (schemas (name r))"
  from assms(1) obtain row where row: "cells ?h r = Ret row" and
    f: "fill_tables name note header cells schemas rs' (name r) (Some \<lparr>tx_Header = ?h, tx_Body = [row]\<rparr>) = (ps, Ret t')"
    using assms(3) by (auto simp: rs pr_bind_Ret pr_lift_def prints_def Let_def split: if_splits)
  have "table_of name header cells schemas [r] \<lparr>tx_Header = ?h, tx_Body = [row]\<rparr>"
    using row by (simp add: table_of_def)
  from fill_tables_runs [OF f _ _ this assms(3)] show ?thesis by (simp add: rs)
qed

text \<open>
  Property C38. Printing nodes or edges that returns prints exactly one table for every run of neighbours
  of one schema, in order: its header has the property names of that schema, and its rows are the
  rows of the run, each with the values under that header.
\<close>

theorem entities_printed_by_schema:
  shows "(nodes \<noteq> [] \<and> PrintNodes fm nodes schemas = (out, Ret ()) \<longrightarrow>
    (\<exists>ts. out = map Tab ts \<and>
      list_all2 (table_of node_schema node_header (node_cells fm) schemas) (runs node_schema nodes) ts)) \<and>
    (edges \<noteq> [] \<and> PrintEdges fm edges schemas = (out', Ret ()) \<longrightarrow>
    (\<exists>ts. out' = map Tab ts \<and>
      list_all2 (table_of edge_schema edge_header (edge_cells fm) schemas) (runs edge_schema edges) ts))"
proof (intro conjI impI; elim conjE)
  have note_ok: "go_lift ed_Schema (deref r) = Ret x \<Longrightarrow> x = edge_schema r" for r :: "edge option" and x
    by (cases r) (auto simp: edge_schema_def)
  {
    assume "nodes \<noteq> []" "PrintNodes fm nodes schemas = (out, Ret ())"
    then obtain qs t where g: "getNodeTableString fm nodes schemas = (qs, Ret t)"
      and o: "out = qs @ fst (print_table t)"
      by (auto simp: PrintNodes_def pr_bind_Ret print_table_def prints_def)
    from fill_tables_all [OF g [unfolded getNodeTableString_def] \<open>nodes \<noteq> []\<close>] obtain ts l where
      "qs = map Tab ts" "t = Some l"
      "list_all2 (table_of node_schema node_header (node_cells fm) schemas) (runs node_schema nodes) (ts @ [l])"
      by auto
    then show "\<exists>ts. out = map Tab ts \<and>
      list_all2 (table_of node_schema node_header (node_cells fm) schemas) (runs node_schema nodes) ts"
      by (intro exI [of _ "ts @ [l]"]) (simp add: o print_table_def prints_def)
  next
    assume "edges \<noteq> []" "PrintEdges fm edges schemas = (out', Ret ())"
    then obtain qs t where g: "getEdgeTableString fm edges schemas = (qs, Ret t)"
      and o: "out' = qs @ fst (print_table t)"
      by (auto simp: PrintEdges_def pr_bind_Ret print_table_def prints_def)
    from fill_tables_all [OF g [unfolded getEdgeTableString_def] \<open>edges \<noteq> []\<close> note_ok] obtain ts l where
      "qs = map Tab ts" "t = Some l"
      "list_all2 (table_of edge_schema edge_header (edge_cells fm) schemas) (runs edge_schema edges) (ts @ [l])"
      by auto
    then show "\<exists>ts. out' = map Tab ts \<and>
      list_all2 (table_of edge_schema edge_header (edge_cells fm) schemas) (runs edge_schema edges) ts"
      by (intro exI [of _ "ts @ [l]"]) (simp add: o print_table_def prints_def)
  }
qed

text \<open>A nil edge after an edge with a schema is dereferenced; a nil node is not.\<close>

lemma value_cells_panic: "value_cells fm vals keys = Panic NilDeref \<or> is_ret (value_cells fm vals keys)"
  by (cases vals; induction keys) (auto simp: value_cells_def is_ret_iff)

lemma nil_edge_panics:
  assumes "ed_Schema e \<noteq> []"
  shows "snd (getEdgeTableString fm [Some e, None] schemas) = Panic NilDeref"
  using assms value_cells_panic [of fm "ed_Values e" "property_names (schemas (ed_Schema e))"]
  by (auto simp: getEdgeTableString_def Let_def pr_bind_def pr_lift_def prints_def edge_schema_def
      edge_cells_def edge_header_def is_ret_iff)

definition sample_format :: formatting where
  "sample_format = \<lparr>fm_value = (\<lambda>v. case v of GString s \<Rightarrow> s | _ \<Rightarrow> ''?''), fm_attr = (\<lambda>_. ''?''),
     fm_seconds = (\<lambda>_. ''0''), fm_result = (\<lambda>_. ''?''), fm_keys = (\<lambda>_. [])\<rparr>"

definition sample_node :: "gostring \<Rightarrow> gostring \<Rightarrow> node" where
  "sample_node name sch = \<lparr>nd_ID = name, nd_UUID = 1, nd_Schema = sch, nd_Values = None\<rparr>"

lemma entities_printed_by_schema_witness:
  "\<exists>ts. fst (PrintNodes sample_format [Some (sample_node ''a'' ''x''), Some (sample_node ''b'' ''x''), None] Map.empty)
      = map Tab ts \<and> length ts = 2"
proof -
  let ?ns = "[Some (sample_node ''a'' ''x''), Some (sample_node ''b'' ''x''), None]"
  let ?r = "PrintNodes sample_format ?ns Map.empty"
  have "snd ?r = Ret ()"
    by (simp add: PrintNodes_def getNodeTableString_def pr_bind_def pr_lift_def prints_def Let_def
        node_schema_def node_cells_def node_header_def property_names_def value_cells_def sample_node_def
        print_table_def)
  then have "?r = (fst ?r, Ret ())" by (simp add: prod_eq_iff)
  from entities_printed_by_schema [of ?ns sample_format Map.empty "fst ?r"] this obtain ts where ts: "fst ?r = map Tab ts"
    "list_all2 (table_of node_schema node_header (node_cells sample_format) Map.empty) (runs node_schema ?ns) ts"
    by auto
  have "length (runs node_schema ?ns) = 2" by (simp add: node_schema_def sample_node_def)
  with ts list_all2_lengthD [OF ts(2)] show ?thesis by auto
qed

section \<open>Marked statements\<close>

lemma byte_at_pos: "byte_at s i \<noteq> 0 \<Longrightarrow> i < length s"
  by (simp add: byte_at_def split: if_splits)

lemma rune_len_bounds: "s \<noteq> [] \<Longrightarrow> 1 \<le> rune_len s \<and> rune_len s \<le> length s"
proof -
  assume s: "s \<noteq> []"
  have c: "between 0x80 0xBF (byte_at s i) \<Longrightarrow> i < length s" for i
    by (rule byte_at_pos) (auto simp: between_def)
  show ?thesis using s c [of 1] c [of 2] c [of 3]
    by (auto simp: rune_len_def Let_def Suc_le_eq)
qed

text \<open>A run of runes takes all of a text without a newline.\<close>

lemma any_takes_all:
  "CHR 10 \<notin> set s \<Longrightarrow> \<exists>ms. matches is_any t s c = ([], c) # ms"
proof (induction "length s" arbitrary: s rule: less_induct)
  case less
  show ?case
  proof (cases s)
    case Nil
    then show ?thesis by (simp add: is_any_def matches.simps(8) star_iter.simps [of _ "[]"])
  next
    case (Cons x xs)
    let ?u = "drop (rune_len s) s"
    have u: "length ?u < length s" using rune_len_bounds [of s] Cons by auto
    from less.hyps [OF u] less.prems obtain ms where ms: "star_iter (matches AnyRune t) ?u c = ([], c) # ms"
      by (auto simp: is_any_def matches.simps(8) dest: in_set_dropD)
    have "matches AnyRune t s c = [(?u, c)]" using less.prems Cons by auto
    then show ?thesis using u ms
      by (simp add: is_any_def matches.simps(8) star_iter.simps [of _ s] del: matches.simps(4))
  qed
qed

lemma digits_nat_str: "list_all is_digit (nat_str n)"
  by (auto simp: list_all_iff dest: nat_str_digits)

lemma position_matches:
  assumes "CHR 10 \<notin> set uql"
  shows "\<exists>ms. matches error_position t (''['' @ nat_str i @ ''-'' @ nat_str j @ '']'' @ uql) c
    = ([], c(1 := nat_str i, 2 := nat_str j, 3 := uql)) # ms"
proof -
  let ?rest = "Cat (Lit '']'') (Cap 3 is_any)"
  have d: "\<not> is_digit (CHR '']'')" by (simp add: is_digit_def)
  have "matches error_position t (''['' @ nat_str i @ ''-'' @ nat_str j @ '']'' @ uql) c
      = matches (Cat (Cap 1 (Plus (Byte is_digit))) (Cat (Lit ''-'') (Cat (Cap 2 (Plus (Byte is_digit))) ?rest))) t
          (nat_str i @ ''-'' @ nat_str j @ '']'' @ uql) c"
    unfolding error_position_def by (rule matches_Lit_Cat)
  also have "\<dots> = matches (Cat (Lit ''-'') (Cat (Cap 2 (Plus (Byte is_digit))) ?rest)) t
      (''-'' @ nat_str j @ '']'' @ uql) (c(1 := nat_str i))"
    by (intro cap_plus stops_Cat stops_Lit) (auto simp: digits_nat_str)
  also have "\<dots> = matches (Cat (Cap 2 (Plus (Byte is_digit))) ?rest) t (nat_str j @ '']'' @ uql) (c(1 := nat_str i))"
    by (rule matches_Lit_Cat)
  also have "\<dots> = matches ?rest t ('']'' @ uql) (c(1 := nat_str i, 2 := nat_str j))"
    using d by (intro cap_plus stops_Cat stops_Lit) (auto simp: digits_nat_str)
  also have "\<dots> = matches (Cap 3 is_any) t uql (c(1 := nat_str i, 2 := nat_str j))"
    by (rule matches_Lit_Cat)
  finally show ?thesis using any_takes_all [OF assms, of t "c(1 := nat_str i, 2 := nat_str j)"] by auto
qed

text \<open>
  The error of a statement, positioned inside it, is printed with the whole statement, its
  three parts put together again, and the message; a position that starts at 0 or leaves the
  statement makes the printer panic after it has begun.
\<close>

theorem marked_statement_whole:
  assumes "CHR 10 \<notin> set uql" "CHR 10 \<notin> set msg" "i < 2 ^ 63" "j < 2 ^ 63"
  shows "PrintUqlErr (''['' @ nat_str i @ ''-'' @ nat_str j @ '']'' @ uql @ [CHR 10] @ msg)
    = (if 1 \<le> i \<and> i \<le> j \<and> j \<le> length uql + 1
       then ([Line ''Uql Syntax Error:'', Line uql, Line msg], Ret ())
       else ([Line ''Uql Syntax Error:''], Panic IndexOutOfRange))"
proof -
  let ?s = "''['' @ nat_str i @ ''-'' @ nat_str j @ '']'' @ uql"
  have n: "CHR 10 \<notin> set (nat_str k)" for k using nat_str_digits [of "CHR 10" k] by (auto simp: is_digit_def)
  have split: "split_on (CHR 10) (?s @ CHR 10 # msg) = [?s, msg]"
    using n assms(1,2) by (subst split_on_append) (auto simp: split_on_no_sep)
  let ?c = "(\<lambda>_. [])(1 := nat_str i, 2 := nat_str j, 3 := uql)"
  have "find_from error_position ?s ?s = Some ([], ?s, ?c, [])"
    using position_matches [OF assms(1), of ?s i j "\<lambda>_. []"] by (subst find_from.simps) auto
  then have f: "re_find error_position ?s = Some (?s, ?c)" by (simp add: re_find_def)
  have p: "fst (parse_int (nat_str k) 64) = int k" if "k < 2 ^ 63" for k
    using parse_int_itoa [of 64 "int k"] that by (simp add: itoa_def)
  have e: "PrintUqlErr (?s @ CHR 10 # msg) =
      pr_bind (prints [Line ''Uql Syntax Error:'']) (\<lambda>_.
      pr_bind (pr_lift (go_slice uql 0 (int i - 1))) (\<lambda>before.
      pr_bind (pr_lift (go_slice uql (int i - 1) (int j - 1))) (\<lambda>marked.
      pr_bind (pr_lift (go_slice uql (int j - 1) (int (length uql)))) (\<lambda>after.
        prints [Line (before @ marked @ after), Line msg]))))"
    unfolding PrintUqlErr_def split list.case f option.case prod.case Let_def
    by (simp add: p [OF assms(3)] p [OF assms(4)])
  have parts: "take (nat (int i - 1)) uql @ take (nat (int j - int i)) (drop (nat (int i - 1)) uql)
      @ drop (nat (int j - 1)) uql = uql" if "1 \<le> i" "i \<le> j"
  proof -
    have "drop (nat (int j - 1)) uql = drop (nat (int j - int i)) (drop (nat (int i - 1)) uql)"
      using that by (simp add: nat_diff_distrib)
    then show ?thesis by (simp only: append_take_drop_id)
  qed
  have "PrintUqlErr (?s @ CHR 10 # msg) = (if 1 \<le> i \<and> i \<le> j \<and> j \<le> length uql + 1
       then ([Line ''Uql Syntax Error:'', Line uql, Line msg], Ret ())
       else ([Line ''Uql Syntax Error:''], Panic IndexOutOfRange))"
    unfolding e using parts
    by (auto simp: pr_bind_def pr_lift_def prints_def go_slice_def)
  then show ?thesis by simp
qed

lemma marked_statement_whole_witness:
  "PrintUqlErr (''['' @ nat_str 2 @ ''-'' @ nat_str 3 @ '']'' @ ''find'' @ [CHR 10] @ ''no'')
    = ([Line ''Uql Syntax Error:'', Line ''find'', Line ''no''], Ret ())"
  by (subst marked_statement_whole) simp_all

end
