(* ===== verification/Helpers.thy ===== *)
theory Helpers
  imports UltipaTime DataTables Config
begin

text \<open>
  The helpers of \<open>utils/time.util.go\<close>, \<open>hash.go\<close>, \<open>common.go\<close> and of \<open>sdk/utils/convert_helper.go\<close> and
  \<open>error.go\<close>. The date-time of \<open>utils\<close> has the fields and the packing of the one of \<open>sdk/utils\<close>, whose
  record and calendar serve here too. The JSON encoder, the digest and the coders of floating-point
  numbers are arguments.
\<close>

section \<open>The date-time of utils\<close>

definition legacy_Uint64ToTime :: "ultipa_time \<Rightarrow> uint64 \<Rightarrow> ultipa_time" where
  "legacy_Uint64ToTime t datetime =
     (let year_month = and (drop_bit 46 datetime) 0x1FFFF;
          year = year_month div 13;
          year = (if 70 < year \<and> year < 100 then year + 1900 else if year < 70 then year + 2000 else year);
          month = year_month mod 13;
          day = and (drop_bit 41 datetime) 0x1F;
          hour = and (drop_bit 36 datetime) 0x1F;
          minute = and (drop_bit 30 datetime) 0x3F;
          second = and (drop_bit 24 datetime) 0x3F;
          macrosec = and datetime 0xFFFFFF
      in t\<lparr>ut_Year := year, ut_Datetime := datetime, ut_Month := month, ut_Day := day,
           ut_Hour := hour, ut_Minute := minute, ut_Second := second, ut_Macrosec := macrosec,
           ut_Time := Some (time_Date_UTC (uint year) (uint month) (uint day) (uint hour)
              (uint minute) (uint second) (uint (macrosec * 1000)))\<rparr>)"

definition legacy_New :: "uint64 \<Rightarrow> ultipa_time" where
  "legacy_New datetime = legacy_Uint64ToTime (zero_ultipa_time\<lparr>ut_Datetime := datetime\<rparr>) datetime"

text \<open>Here the packing also stores the fields it packs.\<close>

definition legacy_TimeToUint64 :: "ultipa_time \<Rightarrow> gotime \<Rightarrow> ultipa_time \<times> uint64" where
  "legacy_TimeToUint64 u t =
     (let year = word_of_int (time_Year t); month = word_of_int (time_Month t);
          day = word_of_int (time_Day t); hour = word_of_int (time_Hour t);
          minute = word_of_int (time_Minute t); second = word_of_int (time_Second t);
          macrosec = word_of_int (gt_nsec t div 1000);
          yearMonth = year * 13 + month;
          datetime = push_bit 46 yearMonth;
          datetime = or datetime (push_bit 41 day);
          datetime = or datetime (push_bit 36 hour);
          datetime = or datetime (push_bit 30 minute);
          datetime = or datetime (push_bit 24 second);
          datetime = or datetime macrosec
      in (u\<lparr>ut_Year := year, ut_Month := month, ut_Day := day, ut_Hour := hour, ut_Minute := minute,
           ut_Second := second, ut_Macrosec := macrosec, ut_Datetime := datetime\<rparr>, datetime))"

definition legacy_layouts :: "gostring list" where
  "legacy_layouts = [''2006-1-2T15:04:05.000Z07:00'', ''2006-1-2T15:04:05.000Z0700'',
     ''2006-1-2T15:04:05Z07:00'', ''2006-1-2T15:04:05Z0700'', ''2006-01-02 15:04:05.000'',
     ''2006-01-02 15:04:05'', ''2006-01-02'']"

text \<open>
  The error of the loop is a variable of the loop: when no layout fits, the outer one is nil, and a nil
  date-time is returned without an error. What a failed layout stores is overwritten by the next.
\<close>

fun legacy_try :: "time_env \<Rightarrow> gostring \<Rightarrow> gostring list \<Rightarrow> ultipa_time option go" where
  "legacy_try env dateString [] = Ret None"
| "legacy_try env dateString (l # ls) =
     (case te_parse_in_location env l dateString UTC of
        None \<Rightarrow> legacy_try env dateString ls
      | Some t \<Rightarrow> Ret (Some (fst (legacy_TimeToUint64 (zero_ultipa_time\<lparr>ut_Time := Some t\<rparr>) t))))"

definition legacy_NewFromString :: "time_env \<Rightarrow> gostring \<Rightarrow> ultipa_time option go" where
  "legacy_NewFromString env dateString = legacy_try env dateString legacy_layouts"

definition legacy_ToString :: "ultipa_time \<Rightarrow> gostring go" where
  "legacy_ToString u = UT_String u"

section \<open>Strings and numbers\<close>

text \<open>
  \<open>Map\<close> of \<open>slice.go\<close> takes a value of any type and ends the process unless it is a slice, here \<open>None\<close>;
  the callback is given the indexes.
\<close>

definition slice_Map :: "'v list option \<Rightarrow> (nat \<Rightarrow> 'b go) \<Rightarrow> 'b list go" where
  "slice_Map arg callback =
     (case arg of None \<Rightarrow> Panic Fatal | Some s \<Rightarrow> go_map callback [0..<length s])"

text \<open>The 64-bit FNV-1a hash of the standard library, as a signed number.\<close>

definition fnv1a :: "bytes \<Rightarrow> uint64" where
  "fnv1a bs = fold (\<lambda>b h. xor h (ucast b) * 0x100000001B3) bs 0xCBF29CE484222325"

definition Hash64 :: "bytes \<Rightarrow> int" where
  "Hash64 str = sint (fnv1a str)"

fun Remove :: "gostring list \<Rightarrow> gostring \<Rightarrow> gostring list" where
  "Remove [] r = []"
| "Remove (v # s) r = (if v = r then s else v # Remove s r)"

definition Str2Uint64 :: "gostring \<Rightarrow> nat \<times> go_error option" where
  "Str2Uint64 s = parse_uint s 64"

definition Str2Int :: "gostring \<Rightarrow> int \<times> go_error option" where
  "Str2Int s = parse_int s 64"

definition JSONString :: "('v \<Rightarrow> bytes go) \<Rightarrow> 'v \<Rightarrow> gostring go" where
  "JSONString marshal data =
     (case marshal data of Ret b \<Rightarrow> Ret (string_of b) | Fail e \<Rightarrow> Ret ''{}'' | Panic p \<Rightarrow> Panic p)"

definition StructToJSONString :: "('v \<Rightarrow> bytes go) \<Rightarrow> 'v \<Rightarrow> gostring go" where
  "StructToJSONString marshal data = go_lift string_of (marshal data)"

definition BytesToString :: "bytes \<Rightarrow> gostring" where
  "BytesToString bs = string_of bs"

definition StructToPrettyJSONString :: "('v \<Rightarrow> bytes go) \<Rightarrow> 'v \<Rightarrow> gostring go" where
  "StructToPrettyJSONString marshal_indent data = go_lift BytesToString (marshal_indent data)"

text \<open>Both errors of the pretty printer, of encoding and of indenting, give the empty object.\<close>

definition ToJSONStringPretty :: "('v \<Rightarrow> bytes go) \<Rightarrow> (bytes \<Rightarrow> bytes go) \<Rightarrow> 'v \<Rightarrow> gostring go" where
  "ToJSONStringPretty marshal indent data =
     (case go_bind (marshal data) indent of
        Ret b \<Rightarrow> Ret (string_of b) | Fail e \<Rightarrow> Ret ''{}'' | Panic p \<Rightarrow> Panic p)"

definition Md5ToString :: "(bytes \<Rightarrow> bytes) \<Rightarrow> gostring \<Rightarrow> gostring" where
  "Md5ToString md5_sum str = hex_encode (md5_sum (bytes_of str))"

text \<open>The number is formatted also when the parser has returned an error beside it.\<close>

definition FloatStr2IntStr ::
  "(gostring \<Rightarrow> 'f \<times> go_error option) \<Rightarrow> ('f \<Rightarrow> gostring) \<Rightarrow> gostring \<Rightarrow> gostring \<times> go_error option" where
  "FloatStr2IntStr parse_float format0 floatStr =
     (case parse_float floatStr of (f, e) \<Rightarrow> (format0 f, e))"

definition LeaderNotYetElectedError_Error :: "gostring \<Rightarrow> gostring" where
  "LeaderNotYetElectedError_Error Message =
     (if Message \<noteq> [] then Message else ''raft leader not elected yet'')"

definition GetTaskFileName :: "task \<Rightarrow> gostring list go" where
  "GetTaskFileName t =
     (case tk_Result t ''result_files'' of
        None \<Rightarrow> Fail (Err ''get task fileName error'')
      | Some resultFiles \<Rightarrow> Ret (split_on (CHR '','') resultFiles))"

section \<open>Facts\<close>

text \<open>The two packages pack and unpack alike, so what is proved of the one holds of the other.\<close>

lemma legacy_packs_alike:
  "legacy_Uint64ToTime t d = Uint64ToTime t d" "snd (legacy_TimeToUint64 u x) = TimeToUint64 x"
  by (simp_all add: legacy_Uint64ToTime_def Uint64ToTime_def expand_year_def legacy_TimeToUint64_def
      TimeToUint64_def pack_datetime_def Let_def)

text \<open>A text that fits no layout gives nil and no error.\<close>

lemma legacy_error_lost:
  "\<forall>l \<in> set legacy_layouts. te_parse_in_location env l s UTC = None \<Longrightarrow> legacy_NewFromString env s = Ret None"
proof -
  have "\<forall>l \<in> set ls. te_parse_in_location env l s UTC = None \<Longrightarrow> legacy_try env s ls = Ret None" for ls
    by (induction ls) simp_all
  then show "\<forall>l \<in> set legacy_layouts. te_parse_in_location env l s UTC = None \<Longrightarrow> legacy_NewFromString env s = Ret None"
    by (simp add: legacy_NewFromString_def)
qed

lemma slice_Map_nth: "slice_Map (Some xs) (\<lambda>i. Ret (f (xs ! i))) = Ret (map f xs)"
proof -
  have "go_map (\<lambda>i. Ret (f (xs ! i))) [0..<length xs] = Ret (map (\<lambda>i. f (xs ! i)) [0..<length xs])"
    by (simp add: go_map_Ret_iff list_all2_conv_all_nth)
  also have "map (\<lambda>i. f (xs ! i)) [0..<length xs] = map f xs" by (rule nth_equalityI) simp_all
  finally show ?thesis by (simp add: slice_Map_def)
qed

lemma Remove_remove1: "Remove s r = remove1 r s"
  by (induction s) auto

text \<open>The encryptor of passwords is the digest of the helper in capital letters.\<close>

lemma encrypted_md5: "Encrypt md5_sum ''md5'' pwd = Ret (to_upper (Md5ToString md5_sum pwd))"
proof -
  have "to_upper ''md5'' = ''MD5''" by code_simp
  then show ?thesis by (simp add: Encrypt_def passwordEncryptMethodMap_def MD5Encrypt_def Md5ToString_def)
qed

text \<open>The published test vectors of the hash for the empty text and for \<open>a\<close>.\<close>

lemma hash_vectors: "fnv1a [] = 0xCBF29CE484222325" "fnv1a [0x61] = 0xAF63DC4C8601EC8C"
  by code_simp+

end
