(* ===== verification/StructMerge.thy ===== *)
theory StructMerge
  imports Prelude
begin

text \<open>
  \<open>sdk/utils/struct.merge.go\<close>: merging one struct into another by reflection. Of a Go value the
  function only sees its kind, and of a struct its fields with their names and whether they are
  exported. The first struct is changed in place, also when an error is returned, so the result
  carries its fields.
\<close>

section \<open>Values under reflection\<close>

text \<open>What is in a field: the values inside are opaque.\<close>

datatype 'v content =
    PtrContent "'v option"
  | StructContent 'v
  | SliceContent "'v list"
  | OtherContent 'v

record 'v field =
  fd_Name :: gostring
  fd_Exported :: bool
  fd_Content :: "'v content"

text \<open>An argument: nothing, no pointer, a nil pointer, or a pointer to a value of a named type.\<close>

datatype 'v pointee = Fields "'v field list" | NoStruct

datatype 'v argument = NoValue | NoPointer | NilPointer | PointerTo gostring "'v pointee"

definition is_pointer :: "'v argument \<Rightarrow> bool" where
  "is_pointer a = (case a of NilPointer \<Rightarrow> True | PointerTo t p \<Rightarrow> True | _ \<Rightarrow> False)"

definition items :: "'v content \<Rightarrow> 'v list go" where
  "items c = (case c of SliceContent xs \<Rightarrow> Ret xs | _ \<Rightarrow> Panic ReflectPanic)"

text \<open>
  The recursive calls are not made on the fields: a pointer field is handed over as the
  \<open>reflect.Value\<close> that describes it, which is a struct and no pointer, and a struct field as a pointer to
  such a description, whose own fields are all unexported.
\<close>

definition described_fields :: "'v \<Rightarrow> 'v field list" where
  "described_fields v = map (\<lambda>n. \<lparr>fd_Name = n, fd_Exported = False, fd_Content = OtherContent v\<rparr>)
     [''typ_'', ''ptr'', ''flag'']"

definition no_pointer_error :: go_error where
  "no_pointer_error = Err ''struct1 and struct2 should be struct Ptr''"

section \<open>The merge\<close>

text \<open>
  The fields of the second struct one after the other; \<open>s1\<close> are the fields of the first one as they are
  now. In the last case the code sets the whole struct, not the field. A nested merge is given as
  an argument.
\<close>

fun merge_fields ::
  "('v argument \<Rightarrow> 'v argument \<Rightarrow> 'v field list \<times> unit go) \<Rightarrow> 'v field list \<Rightarrow> 'v field list \<Rightarrow> nat
   \<Rightarrow> 'v field list \<Rightarrow> 'v field list \<times> unit go" where
  "merge_fields nested s2 [] i s1 = (s1, Ret ())"
| "merge_fields nested s2 (f # fs) i s1 =
     (if \<not> fd_Exported f then merge_fields nested s2 fs (i + 1) s1
      else case fd_Content f of
        PtrContent p \<Rightarrow> (case snd (nested NoPointer NoPointer) of
            Ret u \<Rightarrow> merge_fields nested s2 fs (i + 1) s1
          | Fail e \<Rightarrow> (s1, Fail e)
          | Panic q \<Rightarrow> (s1, Panic q))
      | StructContent v \<Rightarrow>
          (case snd (nested (PointerTo ''reflect.Value'' (Fields (described_fields v)))
                 (PointerTo ''reflect.Value'' (Fields (described_fields v)))) of
            Ret u \<Rightarrow> merge_fields nested s2 fs (i + 1) s1
          | Fail e \<Rightarrow> (s1, Fail e)
          | Panic q \<Rightarrow> (s1, Panic q))
      | SliceContent ys \<Rightarrow> (case go_bind (go_nth s1 i) (\<lambda>g. items (fd_Content g)) of
            Ret xs \<Rightarrow> merge_fields nested s2 fs (i + 1) (s1[i := f\<lparr>fd_Content := SliceContent (xs @ ys)\<rparr>])
          | Fail e \<Rightarrow> (s1, Fail e)
          | Panic q \<Rightarrow> (s1, Panic q))
      | OtherContent v \<Rightarrow> merge_fields nested s2 fs (i + 1) s2)"

definition fields_of :: "'v argument \<Rightarrow> 'v field list" where
  "fields_of a = (case a of PointerTo t (Fields fs) \<Rightarrow> fs | _ \<Rightarrow> [])"

definition merge_with ::
  "('v argument \<Rightarrow> 'v argument \<Rightarrow> 'v field list \<times> unit go) \<Rightarrow> 'v argument \<Rightarrow> 'v argument
   \<Rightarrow> 'v field list \<times> unit go" where
  "merge_with nested struct1 struct2 =
     (if struct1 = NoValue \<or> struct2 = NoValue then (fields_of struct1, Panic ReflectPanic)
      else if \<not> is_pointer struct1 \<or> \<not> is_pointer struct2 then (fields_of struct1, Fail no_pointer_error)
      else case (struct1, struct2) of
        (PointerTo t1 p1, PointerTo t2 p2) \<Rightarrow>
          if t1 \<noteq> t2
          then (fields_of struct1, Fail (Err ''struct1 and struct2 should be same DBType''))
          else (case (p1, p2) of
              (Fields s1, Fields s2) \<Rightarrow> merge_fields nested s2 s2 0 s1
            | _ \<Rightarrow> (fields_of struct1, Panic ReflectPanic))
      | _ \<Rightarrow> (fields_of struct1, Panic ReflectPanic))"

text \<open>A nested merge has no exported field to go into, so two levels are all there are.\<close>

definition MergeSameStruct :: "'v argument \<Rightarrow> 'v argument \<Rightarrow> 'v field list \<times> unit go" where
  "MergeSameStruct = merge_with (merge_with (\<lambda>a b. ([], Ret ())))"

section \<open>What it merges\<close>

lemma nested_simps [simp]:
  "snd (merge_with nested NoPointer NoPointer) = Fail no_pointer_error"
  "snd (merge_with nested (PointerTo t (Fields (described_fields v))) (PointerTo t (Fields (described_fields w))))
     = Ret ()"
  by (simp_all add: merge_with_def is_pointer_def described_fields_def)

text \<open>The depth is enough: a third level changes nothing.\<close>

lemma merge_levels:
  "merge_fields (merge_with n) s2 fs i s1 = merge_fields (merge_with m) s2 fs i s1"
  by (induction fs arbitrary: i s1) (simp_all split: content.split go.split)

lemma merge_with_cong:
  assumes "\<And>s2 fs i s1. merge_fields n s2 fs i s1 = merge_fields m s2 fs i s1"
  shows "merge_with n a b = merge_with m a b"
  by (cases a; cases b) (simp_all add: merge_with_def assms split: pointee.split)

lemma merge_depth: "merge_with MergeSameStruct a b = MergeSameStruct a b"
  unfolding MergeSameStruct_def by (rule merge_with_cong) (rule merge_levels)

lemma MergeSameStruct_fields:
  "MergeSameStruct (PointerTo t (Fields s1)) (PointerTo t (Fields s2))
    = merge_fields (merge_with (\<lambda>a b. ([], Ret ()))) s2 s2 0 s1"
  unfolding MergeSameStruct_def by (subst merge_with_def) (simp add: is_pointer_def)

text \<open>Structs that have only slices, as in the test of the repository, are merged slice by slice.\<close>

definition slices :: "'v field list \<Rightarrow> bool" where
  "slices fs \<longleftrightarrow> list_all (\<lambda>f. fd_Exported f \<and> (case fd_Content f of SliceContent xs \<Rightarrow> True | _ \<Rightarrow> False)) fs"

definition joined :: "'v field \<Rightarrow> 'v field \<Rightarrow> 'v field" where
  "joined f g = (case (fd_Content f, fd_Content g) of
     (SliceContent xs, SliceContent ys) \<Rightarrow> g\<lparr>fd_Content := SliceContent (xs @ ys)\<rparr> | _ \<Rightarrow> g)"

lemma merge_slices_from:
  assumes "slices fs" "slices gs" "length fs = length gs"
  shows "merge_fields nested s2 gs (length done) (done @ fs) = (done @ map2 joined fs gs, Ret ())"
  using assms
proof (induction fs gs arbitrary: "done" rule: list_induct2')
  case (4 f fs g gs)
  then obtain xs ys where c: "fd_Content f = SliceContent xs" "fd_Content g = SliceContent ys" "fd_Exported g"
    by (auto simp: slices_def split: content.splits)
  have "merge_fields nested s2 gs (length (done @ [joined f g])) ((done @ [joined f g]) @ fs)
      = ((done @ [joined f g]) @ map2 joined fs gs, Ret ())"
    using 4 by (intro 4) (simp_all add: slices_def)
  then show ?case using c by (simp add: go_nth_def nth_append items_def joined_def list_update_append)
qed simp_all

lemma merge_slices:
  assumes "slices fs" "slices gs" "length fs = length gs"
  shows "MergeSameStruct (PointerTo t (Fields fs)) (PointerTo t (Fields gs)) = (map2 joined fs gs, Ret ())"
  using merge_slices_from [OF assms, of _ _ "[]"]
  by (simp add: MergeSameStruct_fields)

text \<open>
  A field that is neither pointer, struct nor slice makes the code overwrite the whole first struct: what
  it held is lost, and a slice that comes later is the second one's, twice.
\<close>

lemma merge_overwrites:
  assumes "fd_Exported f" "fd_Content f = OtherContent v" "fd_Exported g" "fd_Content g = SliceContent ys"
    "length s1 = 2"
  shows "MergeSameStruct (PointerTo t (Fields s1)) (PointerTo t (Fields [f, g]))
    = ([f, g\<lparr>fd_Content := SliceContent (ys @ ys)\<rparr>], Ret ())"
  using assms by (simp add: MergeSameStruct_fields go_nth_def items_def)

text \<open>An exported pointer is an error, whatever is in it; what came before it is merged already.\<close>

lemma merge_pointer_fails:
  assumes "fd_Exported f" "fd_Content f = PtrContent p"
  shows "MergeSameStruct (PointerTo t (Fields s1)) (PointerTo t (Fields (f # fs))) = (s1, Fail no_pointer_error)"
  using assms by (simp add: MergeSameStruct_fields)

text \<open>A struct inside a struct is left as it was.\<close>

lemma merge_keeps_nested:
  assumes "fd_Exported f" "fd_Content f = StructContent v"
  shows "MergeSameStruct (PointerTo t (Fields s1)) (PointerTo t (Fields [f])) = (s1, Ret ())"
  using assms by (simp add: MergeSameStruct_fields)

end
