(* ===== verification/Spec2Isabelle.thy ===== *)
theory Spec2Isabelle
  imports Storage Uql Explain Printers Helpers StructMerge
begin

text \<open>
  The Ultipa Go driver (\<open>github.com/ultipa/ultipa-go-driver\<close>, version 5): a client library that
  keeps a pool of connections to the hosts of a graph database, sends statements (UQL, GQL) and
  batches of rows over them, and turns the replies into Go values. This development models the
  driver's own code under \<open>src/sdk\<close> and proves what makes its parts correct.

  \<^bold>\<open>How the parts interact.\<close> A caller holds an API value (\<open>sdk/api\<close>) over a pool
  (\<open>sdk/connection\<close>). An operation checks its arguments, builds a statement, takes a connection
  from the pool, calls the server, and reads the stream of replies into one response, merging
  them (\<open>sdk/utils/merge.reply.go\<close>, \<open>sdk/http/response*.go\<close>); an item of the response, found by its
  alias, is decoded into nodes, edges, paths, attributes, tables or the records of the catalogue
  (\<open>sdk/http/dataitem.go\<close>, \<open>sdk/structs\<close>) with the codec of values (\<open>sdk/utils/serilizer.go\<close>,
  \<open>null.go\<close>, \<open>time.go\<close>). An insertion goes the other way: rows are checked against a schema,
  converted by goroutines into bytes, distributed over batches, and sent.

  \<^bold>\<open>The theories\<close>, in the order they build on each other:

  \<^item> \<open>Prelude\<close>: the result type \<open>go\<close> (a value, an error, a panic) with its bind, map and fold,
    lookups in lists, and the collections of simplification rules. \<open>GoLib\<close>: what the code uses of
    Go's standard library (strings, strconv, encoding/binary, unicode classes).
  \<^item> \<open>PropertyTypes\<close> (\<open>structs/property.go\<close>): property types, their strings and parser.
  \<^item> \<open>UltipaTime\<close> (\<open>utils/time.go\<close>): packed date-times, parsers, and the calendar under them.
    \<open>GoValue\<close>: the dynamic values (an \<open>interface{}\<close>) and points. \<open>Config\<close>: configurations and
    password encryption.
  \<^item> \<open>Serilizer\<close> (\<open>utils/serilizer.go\<close>, \<open>null.go\<close>): the codec of property values.
  \<^item> \<open>Containers\<close>, \<open>Structs\<close> (\<open>structs/*.go\<close>, \<open>utils/orderedmap\<close>): values, ordered maps, tables,
    schemas, nodes, edges, attributes.
  \<^item> \<open>DataItem\<close>, \<open>DataTables\<close> (\<open>http/dataitem.go\<close>): decoding of items; the first holds entities,
    paths, graphs and attributes, the second one reader per kind of table.
  \<^item> \<open>Pool\<close> (\<open>connection/*.go\<close>): connections, the refresh of the active ones as a step relation over
    goroutines, contexts, round robin.
  \<^item> \<open>Replies\<close> (\<open>utils/merge.reply.go\<close>) and \<open>Responses\<close> (\<open>http/response*.go\<close>, \<open>statistic.go\<close>,
    \<open>status.go\<close>, \<open>explainPlan.go\<close>, \<open>job.go\<close>): merging, reading and streaming of replies.
  \<^item> \<open>Rows\<close> (\<open>api/check.rows.go\<close> and the conversions of \<open>api/insert.nodes.go\<close>, \<open>insert.edges.go\<close>).
  \<^item> \<open>Names\<close> (\<open>utils/validators.go\<close>, \<open>api/utils.go\<close>), \<open>Api\<close> (\<open>api/api.go\<close>, \<open>gql.go\<close>): names and
    their quotation; calls, with the pool and the calls made so far as the state.
  \<^item> \<open>Catalog\<close> (\<open>api/schema.go\<close>, \<open>property.go\<close>, \<open>graph.go\<close>, \<open>model.go\<close>), \<open>Insert\<close> (the insertions),
    \<open>Admin\<close> (indexes, full text, jobs, tasks, users, policies, licence and other operations of one
    statement), \<open>Download\<close> (\<open>api/download.file.go\<close>), \<open>Control\<close> (\<open>api/authenticate.go\<close>,
    \<open>userSetting.go\<close>, \<open>algo.go\<close>, \<open>backup.go\<close>, the builder of \<open>hdcGraph.go\<close>), \<open>Export\<close>
    (\<open>api/export.go\<close>).
  \<^item> \<open>Driver\<close> (\<open>ultipa.go\<close>): opening a driver, from the configuration to the pool.
    \<open>Session\<close>: what a client does with it, a step relation with one step per operation of the API.
    \<open>Storage\<close>: an insertion and an export through one driver, when the answer to the export consists
    of the rows the insertion has sent.
  \<^item> \<open>Regexp\<close>: regular expressions as Go matches them, leftmost and first alternative first;
    \<open>Uql\<close> (\<open>utils/uql.go\<close>, \<open>uql.maker.go\<close>): the kinds of statements, building and reading them.
  \<^item> \<open>Explain\<close>, \<open>Printers\<close> (\<open>printers/*.go\<close>): what the printers hand to the console. \<open>Helpers\<close>:
    the small utilities of \<open>src/utils\<close> and \<open>sdk/utils\<close>. \<open>StructMerge\<close>
    (\<open>utils/struct.merge.go\<close>): merging structs by reflection.

  \<^bold>\<open>Representation.\<close> A Go string and a list of bytes are a \<open>string\<close> and an \<open>8 word list\<close>; integers
  of the code are words of their width, so they wrap; floats are their IEEE bits. Structs are
  records whose fields are prefixed by two letters of their type; a pointer that may be nil is an
  option; a map is a partial function, or an association list where the order matters. A function
  that returns an error returns \<open>go\<close>; \<open>Panic\<close> is every way the process dies: a nil dereference, an
  index out of range, a failed type assertion, \<open>log.Fatal\<close>. Where Go enumerates a map in some
  order, the order is an argument and the theorems hold for all orders. Goroutines are schedules:
  a list of who steps next (\<open>Rows\<close>, \<open>Export\<close>) or the interleavings of a step relation (\<open>Pool\<close>), with the
  shared variables in the state.

  \<^bold>\<open>The environment.\<close> What is not in the repository is an argument: the record \<open>env\<close> holds float
  formatting, the layout parser of package time, zones, protobuf and JSON coding with the laws
  named where they are used; \<open>network\<close> is dialling and greeting; \<open>server\<close> answers a call from the
  list of all calls made so far, so it may keep any state. No law is supposed of the server. A greeting
  may also never return: then its goroutine waits (\<open>waiting_step\<close>), and that a refresh ends rests on
  the deadline the code gives to the context and on gRPC, which returns a call whose deadline is over.
  Each hypothesis about the environment has a concrete instance in a witness.

  \<^bold>\<open>What is proved.\<close> Round trips of the codec: \<open>same_value\<close> says what a value reads back as, which is the
  value itself for all values of the scalar types and of the date-times but the null sentinels, the
  empty decimal and date-time 0; lists of such values, whole rows, nodes and edges that are inserted and
  exported follow from it. Points are outside: they are not read back. Round trips of packed
  times, of type strings, of names in quotes, of built statements (with no parenthesis, bar or
  caret in an argument), of the list of a plan's nodes and its tree. Refinement: merging and
  reading replies concatenate the rows under every alias; streaming uniform, successful replies gives
  the same rows. Invariants
  and safety: what a refresh makes active answered, paths are consistent, tables that fit their
  schema never panic the decoder, a refused name of a schema or property is never sent where it is
  checked, building a model sends only look-ups and the builders' texts for the items of the model, and
  in the rows of an insertion every place is the conversion of its own row or nil, never nil when all
  convert. Concurrency: every schedule of the converting
  goroutines gives the sequential result when no row fails, and an export gives its callback the
  same; a refresh ends and, where it can, succeeds under every interleaving. Composition: a query
  uses the pool's next connection, queries spread evenly until the counter overflows, an automatic
  insertion sends every row exactly once, and an export that is answered with what was sent gives
  back the nodes of each schema, each once and no other. A
  driver that opens has found a live host, and no operation in any session calls a host that was
  not alive or forced. Termination: the recursive attribute parser and the search for result files;
  an export that gets a client and whose rows convert returns.
  Lemmas beside the properties record where the code errs on the side of losing data: early
  returns of the merge, the shared error of the goroutines, lost updates of a refresh, streams
  that are never read, a password encrypted twice, structs that are overwritten by a merge,
  printers that panic on what the server sends or draw nothing, arguments and points that do
  not read back, names that are sent unchecked.

  \<^bold>\<open>Interfaces.\<close> The locales are the contracts components rely on: codecs of fixed width
  (\<open>fixed_codec\<close>), readers of one kind of table (\<open>table_reader\<close>), the mergeable kinds of a reply,
  the framing of effects (\<open>frame\<close>): an action does no more to the state of the driver than a
  reflexive, transitive relation allows. All are interpreted on the definitions of the code.

  \<^bold>\<open>Bounds and fuel.\<close> The only recursion with fuel is the attribute parser, whose stack depth is an
  argument: two frames more than the attribute has bytes are enough, by
  \<open>parse_attr_terminates\<close>. The search for result files is a partial function whose result exists
  on every finite map. The tree of a plan is built by a nested recursion whose measure is the nodes
  left; a matcher iterates a repetition only while it consumes. Everything else is structural or
  has a measure.

  \<^bold>\<open>Not modelled\<close>: reading files, decoding YAML and the TLS handshake (arguments of the
  definitions that use them), and the colours of log lines; the generated protocol code, of whose
  messages only the fields the driver reads are records here; files that are commented out
  (\<open>connect.go\<close>, \<open>raft.connect.go\<close>, \<open>cluster.manager.go\<close>, \<open>graph.manager.go\<close>, \<open>exta.go\<close>,
  \<open>utils/format.go\<close>) and the commented parts of others; getters that only read a field, and records
  nothing builds (\<open>array.go\<close>, \<open>list.go\<close>, \<open>replica.go\<close>); two deprecated, unused printers of attributes
  and the two helpers of \<open>attr.func.go\<close> that no code calls; the sums over its batches that an
  automatic insertion computes and does not return; the alignment of printed tables.
\<close>

end
